(* ===== verification/Prelude.thy ===== *)
theory Prelude
  imports Complex_Main
begin

text \<open>
  Shared vocabulary of the development. The source (\<open>src/muffin_fullrange.py\<close>)
  keeps every per-tier quantity in a one-dimensional numpy array of \<open>float64\<close> and
  selects tiers with a boolean mask. Here an array is a list of reals and a mask a list of
  booleans, and the three numpy idioms the source uses are list functions:
  \<^item> \<open>xs[mask]\<close> (boolean indexing, a read) is \<open>compress mask xs\<close>;
  \<^item> \<open>xs[mask] = vs\<close> (masked assignment of an array) is \<open>scatter mask vs xs\<close>;
  \<^item> \<open>xs[mask] = c\<close> (masked assignment of a scalar) is \<open>fill mask c xs\<close>.
  Elementwise arithmetic of numpy is \<open>map\<close>, \<open>map2\<close> and \<open>map3\<close>, and \<open>np.sum\<close> is
  \<open>sum_list\<close>. The lemmas below turn these into pointwise statements over indices, which
  is how every component proof reads them. Python's \<open>assert\<close> failing is the value
  \<open>Inl (AssertionError msg)\<close> of a sum type.
\<close>

type_synonym farray = "real list"
type_synonym bmask = "bool list"

datatype error = AssertionError string

named_theorems array_simps "pointwise rules for the numpy mask idioms"
named_theorems eval_simps "equations that evaluate the model on concrete pools"

declare power2_eq_square [eval_simps] Let_def [eval_simps]

definition compress :: "bool list \<Rightarrow> 'a list \<Rightarrow> 'a list" where
  "compress ms xs = map snd (filter fst (zip ms xs))"

fun scatter :: "bool list \<Rightarrow> 'a list \<Rightarrow> 'a list \<Rightarrow> 'a list" where
  "scatter (True # ms) (v # vs) (x # xs) = v # scatter ms vs xs"
| "scatter (False # ms) vs (x # xs) = x # scatter ms vs xs"
| "scatter ms vs xs = xs"

definition fill :: "bool list \<Rightarrow> 'a \<Rightarrow> 'a list \<Rightarrow> 'a list" where
  "fill ms c xs = map2 (\<lambda>m x. if m then c else x) ms xs"

fun map3 :: "('a \<Rightarrow> 'b \<Rightarrow> 'c \<Rightarrow> 'd) \<Rightarrow> 'a list \<Rightarrow> 'b list \<Rightarrow> 'c list \<Rightarrow> 'd list" where
  "map3 f (x # xs) (y # ys) (z # zs) = f x y z # map3 f xs ys zs"
| "map3 f _ _ _ = []"

text \<open>\<open>np.where(ms, ys, xs)\<close>: the pointwise form every masked update reduces to.\<close>

definition select :: "bool list \<Rightarrow> 'a list \<Rightarrow> 'a list \<Rightarrow> 'a list" where
  "select ms ys xs = map3 (\<lambda>m y x. if m then y else x) ms ys xs"

text \<open>\<open>np.sum(xs[ms])\<close>, the masked sum the allocator and the swap take.\<close>

abbreviation msum :: "bool list \<Rightarrow> 'a::comm_monoid_add list \<Rightarrow> 'a" where
  "msum ms xs \<equiv> sum_list (compress ms xs)"

subsection \<open>Lengths and elements\<close>

lemma length_map3 [simp]:
  "length (map3 f xs ys zs) = min (length xs) (min (length ys) (length zs))"
  by (induction f xs ys zs rule: map3.induct) auto

lemma nth_map3 [simp]:
  "i < length xs \<Longrightarrow> i < length ys \<Longrightarrow> i < length zs \<Longrightarrow>
   map3 f xs ys zs ! i = f (xs ! i) (ys ! i) (zs ! i)"
proof (induction f xs ys zs arbitrary: i rule: map3.induct)
  case (1 f x xs y ys z zs)
  then show ?case by (cases i) auto
qed auto

lemma length_select [simp, array_simps]:
  "length (select ms ys xs) = min (length ms) (min (length ys) (length xs))"
  by (simp add: select_def)

lemma nth_select [simp, array_simps]:
  "i < length ms \<Longrightarrow> i < length ys \<Longrightarrow> i < length xs \<Longrightarrow>
   select ms ys xs ! i = (if ms ! i then ys ! i else xs ! i)"
  by (simp add: select_def)

lemma length_fill [simp, array_simps]: "length (fill ms c xs) = min (length ms) (length xs)"
  by (simp add: fill_def)

lemma nth_fill [simp, array_simps]:
  "i < length ms \<Longrightarrow> i < length xs \<Longrightarrow> fill ms c xs ! i = (if ms ! i then c else xs ! i)"
  by (simp add: fill_def)

lemma length_scatter [simp, array_simps]: "length (scatter ms vs xs) = length xs"
  by (induction ms vs xs rule: scatter.induct) auto

lemma compress_Nil [simp]: "compress [] xs = []" "compress ms [] = []"
  by (simp_all add: compress_def)

lemma compress_Cons [simp]:
  "compress (m # ms) (x # xs) = (if m then x # compress ms xs else compress ms xs)"
  by (simp add: compress_def)

subsection \<open>Boolean indexing commutes with elementwise operations\<close>

lemma compress_map [array_simps]: "compress ms (map f xs) = map f (compress ms xs)"
proof (induction ms arbitrary: xs)
  case (Cons m ms)
  then show ?case by (cases xs) auto
qed simp

lemma compress_map2 [array_simps]:
  "length xs = length ys \<Longrightarrow> compress ms (map2 f xs ys) = map2 f (compress ms xs) (compress ms ys)"
proof (induction ms arbitrary: xs ys)
  case (Cons m ms)
  then show ?case by (cases xs; cases ys) auto
qed simp

lemma compress_map3 [array_simps]:
  "length xs = length ys \<Longrightarrow> length zs = length ys \<Longrightarrow>
   compress ms (map3 f xs ys zs) = map3 f (compress ms xs) (compress ms ys) (compress ms zs)"
proof (induction ms arbitrary: xs ys zs)
  case (Cons m ms)
  then show ?case by (cases xs; cases ys; cases zs) auto
qed simp

text \<open>
  Read right to left, the two rules above fold an elementwise operation on masked arrays
  back under one mask; with \<open>scatter_compress\<close> and \<open>compress_select\<close> below they turn
  a chain of masked numpy statements into one \<open>select\<close> per array.
\<close>

lemmas mask_fold = compress_map2 [symmetric] compress_map3 [symmetric]

lemma length_compress [array_simps]:
  "length ms = length xs \<Longrightarrow> length (compress ms xs) = length (filter id ms)"
proof (induction ms arbitrary: xs)
  case (Cons m ms)
  then show ?case by (cases xs) auto
qed simp

text \<open>
  The masked assignment of a masked elementwise result is \<open>np.where\<close>: this is what
  lets every statement of the form \<open>a[mask] = f(b[mask], c[mask])\<close> be read tier by tier.
\<close>

lemma scatter_compress [array_simps]:
  "length ms = length xs \<Longrightarrow> length ys = length xs \<Longrightarrow>
   scatter ms (compress ms ys) xs = select ms ys xs"
proof (induction ms arbitrary: xs ys)
  case Nil
  then show ?case by (simp add: select_def)
next
  case (Cons m ms)
  then show ?case
    by (cases xs; cases ys; cases m) (auto simp: select_def)
qed

lemma compress_select [array_simps]:
  "length ms = length xs \<Longrightarrow> length ys = length xs \<Longrightarrow>
   compress ms (select ms ys xs) = compress ms ys"
proof (induction ms arbitrary: xs ys)
  case (Cons m ms)
  then show ?case
    by (cases xs; cases ys) (auto simp: select_def)
qed simp

lemmas mask_fold_all = mask_fold scatter_compress compress_select

lemma compress_replicate_True [simp]: "length xs = n \<Longrightarrow> compress (replicate n True) xs = xs"
proof (induction xs arbitrary: n)
  case (Cons x xs)
  then show ?case by (cases n) auto
qed simp

lemma count_list_replicate_same [simp]: "count_list (replicate n x) x = n"
  by (induction n) auto

subsection \<open>Masked sums as sums over indices\<close>

lemma msum_eq_sum:
  "length ms = length xs \<Longrightarrow> msum ms xs = (\<Sum>i<length xs. if ms ! i then xs ! i else 0)"
proof (induction ms arbitrary: xs)
  case Nil
  then show ?case by simp
next
  case (Cons m ms)
  then obtain x xs' where xs: "xs = x # xs'" and len: "length ms = length xs'"
    by (cases xs) auto
  have "msum (m # ms) xs = (if m then x else 0) + msum ms xs'"
    by (simp add: xs)
  also have "\<dots> = (if m then x else 0) + (\<Sum>i<length xs'. if ms ! i then xs' ! i else 0)"
    using Cons.IH [OF len] by simp
  also have "\<dots> = (\<Sum>i<length xs. if (m # ms) ! i then xs ! i else 0)"
    unfolding xs length_Cons sum.lessThan_Suc_shift by (simp cong: if_cong)
  finally show ?case .
qed

lemma sum_list_eq_sum: "sum_list xs = (\<Sum>i<length xs. xs ! i)"
  by (simp add: sum_list_sum_nth atLeast0LessThan)

subsection \<open>Shrinking a mask\<close>

text \<open>\<open>ms &= P(xs)\<close> drops at least one active entry when \<open>P\<close> fails on one.\<close>

lemma count_and_le: "count_list (map2 (\<and>) ms bs) True \<le> count_list ms True"
proof (induction ms arbitrary: bs)
  case (Cons m ms)
  have "count_list (map2 (\<and>) ms (tl bs)) True \<le> count_list ms True"
    by (rule Cons.IH)
  then show ?case by (cases bs; cases m) auto
qed simp

lemma count_drop_negative:
  "\<not> list_all P (compress ms xs) \<Longrightarrow>
   count_list (map2 (\<and>) ms (map P xs)) True < count_list ms True"
proof (induction ms arbitrary: xs)
  case (Cons m ms)
  then obtain x xs' where xs: "xs = x # xs'"
    by (cases xs) auto
  have "count_list (map2 (\<and>) ms (map P xs')) True \<le> count_list ms True"
    by (rule count_and_le)
  then show ?case
    using Cons.prems Cons.IH [of xs'] by (cases m) (auto simp: xs)
qed simp

lemma msum_no_active: "True \<notin> set ms \<Longrightarrow> msum ms xs = 0"
proof (induction ms arbitrary: xs)
  case (Cons m ms)
  then show ?case by (cases xs) auto
qed simp

lemma msum_pos:
  "length ms = length xs \<Longrightarrow> list_all (\<lambda>x. 0 < x) xs \<Longrightarrow> True \<in> set ms \<Longrightarrow>
   0 < (msum ms xs :: real)"
proof (induction ms arbitrary: xs)
  case (Cons m ms)
  then obtain x xs' where xs: "xs = x # xs'"
    by (cases xs) auto
  have nonneg: "0 \<le> (msum ms xs' :: real)"
    using Cons.IH [of xs'] Cons.prems msum_no_active [of ms xs'] by (cases "True \<in> set ms") (auto simp: xs)
  show ?case
    using Cons.IH [of xs'] Cons.prems nonneg by (auto simp: xs add_pos_nonneg)
qed simp

lemma msum_split:
  "length bs = length xs \<Longrightarrow>
   msum ms xs = msum (map2 (\<and>) ms bs) xs + msum (map2 (\<lambda>m b. m \<and> \<not> b) ms bs) xs"
proof (induction ms arbitrary: xs bs)
  case (Cons m ms)
  then show ?case by (cases xs; cases bs) (auto simp: add_ac)
qed simp

lemma active_survives:
  "length ms = length xs \<Longrightarrow> True \<in> set ms \<Longrightarrow> 0 \<le> (msum ms xs :: real) \<Longrightarrow>
   True \<in> set (map2 (\<and>) ms (map (\<lambda>a. 0 \<le> a) xs))"
proof (induction ms arbitrary: xs)
  case (Cons m ms)
  then obtain x xs' where xs: "xs = x # xs'"
    by (cases xs) auto
  show ?case
  proof (cases "m \<and> 0 \<le> x")
    case True
    then show ?thesis by (simp add: xs)
  next
    case False
    then have "0 \<le> msum ms xs'"
      using Cons.prems by (auto simp: xs split: if_splits)
    moreover have "True \<in> set ms"
    proof (rule ccontr)
      assume "True \<notin> set ms"
      then have "msum ms xs' = 0" by (rule msum_no_active)
      then show False
        using Cons.prems False \<open>True \<notin> set ms\<close> by (auto simp: xs split: if_splits)
    qed
    ultimately show ?thesis
      using Cons.IH [of xs'] Cons.prems by (simp add: xs)
  qed
qed simp

lemma sum_list_map2_affine:
  "length xs = length ys \<Longrightarrow>
   sum_list (map2 (\<lambda>l r. l * c / w - r) xs ys) = sum_list xs * c / w - (sum_list ys :: real)"
proof (induction xs ys rule: list_induct2)
  case (Cons x xs y ys)
  then show ?case by (simp add: add_divide_distrib distrib_right)
qed simp

lemma msum_scaled_le:
  assumes "length ms = length xs" and "length ys = length xs"
    and "\<forall>i<length xs. ms ! i \<longrightarrow> k * xs ! i \<le> ys ! i"
  shows "k * msum ms xs \<le> (msum ms ys :: real)"
proof -
  have "k * msum ms xs = (\<Sum>i<length xs. if ms ! i then k * xs ! i else 0)"
    using assms(1) by (simp add: msum_eq_sum sum_distrib_left if_distrib cong: if_cong)
  also have "\<dots> \<le> (\<Sum>i<length xs. if ms ! i then ys ! i else 0)"
    using assms(3) by (intro sum_mono) auto
  also have "\<dots> = msum ms ys"
    using assms(1,2) by (simp add: msum_eq_sum)
  finally show ?thesis .
qed

lemma list_all_compress_nth:
  "list_all P (compress ms xs) \<Longrightarrow> i < length ms \<Longrightarrow> i < length xs \<Longrightarrow> ms ! i \<Longrightarrow> P (xs ! i)"
proof (induction ms arbitrary: xs i)
  case (Cons m ms)
  then show ?case by (cases xs; cases i) (auto split: if_splits)
qed simp

lemma sum_list_fill_not:
  "length ms = length xs \<Longrightarrow> sum_list (fill (map Not ms) 0 xs) = msum ms xs"
proof (induction ms arbitrary: xs)
  case (Cons m ms)
  then show ?case by (cases xs) (auto simp: fill_def)
qed (simp add: fill_def)

lemma le_sum_eq_imp_eq:
  assumes "length xs = length ys" and "\<forall>i<length xs. xs ! i \<le> ys ! i"
    and "sum_list xs = (sum_list ys :: real)"
  shows "xs = ys"
proof (rule ccontr)
  assume "xs \<noteq> ys"
  then obtain j where j: "j < length xs" and "xs ! j \<noteq> ys ! j"
    using assms(1) nth_equalityI by blast
  then have "xs ! j < ys ! j"
    using assms(2) by (simp add: order_less_le)
  then have "(\<Sum>i<length xs. xs ! i) < (\<Sum>i<length xs. ys ! i)"
    using assms(2) j by (intro sum_strict_mono_ex1) auto
  then show False
    using assms(1,3) by (simp add: sum_list_eq_sum)
qed

lemma msum_eq_sum_list:
  "length ms = length xs \<Longrightarrow> \<forall>i<length xs. \<not> ms ! i \<longrightarrow> xs ! i = 0 \<Longrightarrow>
   msum ms xs = sum_list xs"
proof -
  assume len: "length ms = length xs" and zero: "\<forall>i<length xs. \<not> ms ! i \<longrightarrow> xs ! i = 0"
  have "msum ms xs = (\<Sum>i<length xs. if ms ! i then xs ! i else 0)"
    using len by (rule msum_eq_sum)
  also have "\<dots> = (\<Sum>i<length xs. xs ! i)"
    using zero by (intro sum.cong) auto
  also have "\<dots> = sum_list xs"
    by (simp only: sum_list_eq_sum)
  finally show ?thesis .
qed

lemma sum_list_pos_ex:
  "0 < (sum_list xs :: real) \<Longrightarrow> \<exists>i<length xs. 0 < xs ! i"
proof (rule ccontr)
  assume pos: "0 < sum_list xs" and "\<not> (\<exists>i<length xs. 0 < xs ! i)"
  then have "\<forall>i<length xs. xs ! i \<le> 0" by auto
  then have "(\<Sum>i<length xs. xs ! i) \<le> 0"
    by (intro sum_nonpos) auto
  then show False
    using pos by (simp add: sum_list_eq_sum)
qed

lemma sum_list_neg:
  assumes "\<forall>i<length xs. xs ! i \<le> 0" and "i < length xs" and "xs ! i < (0::real)"
  shows "sum_list xs < 0"
proof -
  have "(\<Sum>j<length xs. xs ! j) < (\<Sum>j<length xs. 0)"
    using assms by (intro sum_strict_mono_ex1) auto
  then show ?thesis by (simp add: sum_list_eq_sum)
qed

lemma weighted_average_bounds:
  fixes w x :: "nat \<Rightarrow> real"
  assumes w: "\<forall>i<n. 0 \<le> w i" and x: "\<forall>i<n. lo \<le> x i \<and> x i \<le> hi"
    and pos: "0 < (\<Sum>i<n. w i)"
  shows "lo \<le> (\<Sum>i<n. w i * x i) / (\<Sum>i<n. w i) \<and> (\<Sum>i<n. w i * x i) / (\<Sum>i<n. w i) \<le> hi"
proof -
  have "lo * (\<Sum>i<n. w i) = (\<Sum>i<n. w i * lo)"
    by (simp add: sum_distrib_left mult.commute)
  also have "\<dots> \<le> (\<Sum>i<n. w i * x i)"
    using w x by (intro sum_mono mult_left_mono) auto
  finally have lo: "lo * (\<Sum>i<n. w i) \<le> (\<Sum>i<n. w i * x i)" .
  have "(\<Sum>i<n. w i * x i) \<le> (\<Sum>i<n. w i * hi)"
    using w x by (intro sum_mono mult_left_mono) auto
  also have "\<dots> = hi * (\<Sum>i<n. w i)"
    by (simp add: sum_distrib_left mult.commute)
  finally have hi: "(\<Sum>i<n. w i * x i) \<le> hi * (\<Sum>i<n. w i)" .
  show ?thesis
    using lo hi pos by (simp add: pos_le_divide_eq pos_divide_le_eq)
qed

end
