(* ===== verification/PriceAlgebra.thy ===== *)
theory PriceAlgebra
  imports Prelude
begin

text \<open>
  The Price Algebra of \<open>src/muffin_fullrange.py\<close>: the two module-level functions
  \<open>calc_sqrt_p_from_amt\<close> and \<open>calc_amt_from_sqrt_p\<close>, scalar functions that numpy
  applies elementwise (the swap applies them with \<open>map3\<close>). The flag \<open>is_token0\<close>
  selects the curve branch. The lemmas show how the price moves (direction, positivity,
  strict monotonicity in the input), that an input amount is recovered from the price move
  it causes (round trip), and the sign and price-impact bound of the amount paid out.
\<close>

definition calc_sqrt_p_from_amt :: "bool \<Rightarrow> real \<Rightarrow> real \<Rightarrow> real \<Rightarrow> real" where
  "calc_sqrt_p_from_amt is_token0 sqrt_p0 liquidity amt =
     (if is_token0 then (liquidity * sqrt_p0) / (liquidity + (amt * sqrt_p0))
      else sqrt_p0 + (amt / liquidity))"

definition calc_amt_from_sqrt_p :: "bool \<Rightarrow> real \<Rightarrow> real \<Rightarrow> real \<Rightarrow> real" where
  "calc_amt_from_sqrt_p is_token0 sqrt_p0 sqrt_p1 liquidity =
     (if is_token0 then liquidity * (sqrt_p0 - sqrt_p1) / (sqrt_p0 * sqrt_p1)
      else liquidity * (sqrt_p1 - sqrt_p0))"

declare calc_sqrt_p_from_amt_def [eval_simps] calc_amt_from_sqrt_p_def [eval_simps]

subsection \<open>Price movement\<close>

lemma sqrt_p_token0_eq:
  "calc_sqrt_p_from_amt True sqrt_p0 liquidity amt =
     (liquidity * sqrt_p0) / (liquidity + amt * sqrt_p0)"
  by (simp add: calc_sqrt_p_from_amt_def)

lemma sqrt_p_token1_eq:
  "calc_sqrt_p_from_amt False sqrt_p0 liquidity amt = sqrt_p0 + amt / liquidity"
  by (simp add: calc_sqrt_p_from_amt_def)

lemma calc_sqrt_p_pos:
  assumes "0 < liquidity" and "0 < sqrt_p0" and "0 \<le> amt"
  shows "0 < calc_sqrt_p_from_amt is_token0 sqrt_p0 liquidity amt"
  using assms by (simp add: calc_sqrt_p_from_amt_def add_pos_nonneg)

lemma calc_sqrt_p_zero_amt:
  "liquidity \<noteq> 0 \<Longrightarrow> calc_sqrt_p_from_amt is_token0 sqrt_p0 liquidity 0 = sqrt_p0"
  by (simp add: calc_sqrt_p_from_amt_def)

lemma calc_sqrt_p_token0_decreasing:
  assumes "0 < liquidity" and "0 < sqrt_p0" and "0 \<le> a" and "a < b"
  shows "calc_sqrt_p_from_amt True sqrt_p0 liquidity b
         < calc_sqrt_p_from_amt True sqrt_p0 liquidity a"
proof -
  have lt: "liquidity + a * sqrt_p0 < liquidity + b * sqrt_p0"
    using assms by simp
  have pos: "0 < liquidity + a * sqrt_p0"
    using assms by (simp add: add_pos_nonneg)
  have "liquidity * sqrt_p0 / (liquidity + b * sqrt_p0)
        < liquidity * sqrt_p0 / (liquidity + a * sqrt_p0)"
    using divide_strict_left_mono [OF lt _ mult_pos_pos [OF _ pos]] assms lt pos by simp
  then show ?thesis by (simp add: sqrt_p_token0_eq)
qed

lemma calc_sqrt_p_token1_increasing:
  assumes "0 < liquidity" and "a < b"
  shows "calc_sqrt_p_from_amt False sqrt_p0 liquidity a
         < calc_sqrt_p_from_amt False sqrt_p0 liquidity b"
  using assms by (simp add: sqrt_p_token1_eq divide_strict_right_mono)

subsection \<open>Consecutive moves\<close>

text \<open>
  The curve is path independent: two consecutive inputs move the price as their sum does,
  amounts telescope along a path of prices, and each input raises the tier's virtual
  reserve of the sold token (\<open>L / sqrt_p\<close> for token0, \<open>L * sqrt_p\<close> for token1, scaled
  by the fee factor as \<open>Pool._calc_tier_amts_in\<close> scales it) by exactly that input.
\<close>

lemma calc_sqrt_p_from_amt_add:
  assumes l: "0 < liquidity" and sp: "0 < sqrt_p0" and a: "0 \<le> a" and b: "0 \<le> b"
  shows "calc_sqrt_p_from_amt t (calc_sqrt_p_from_amt t sqrt_p0 liquidity a) liquidity b =
         calc_sqrt_p_from_amt t sqrt_p0 liquidity (a + b)"
proof (cases t)
  case True
  have d: "0 < liquidity + a * sqrt_p0"
    using add_pos_nonneg [OF l mult_nonneg_nonneg [OF a less_imp_le [OF sp]]] .
  have d2: "0 < liquidity + (a + b) * sqrt_p0"
    using add_pos_nonneg [OF l mult_nonneg_nonneg [OF add_nonneg_nonneg [OF a b] less_imp_le [OF sp]]] .
  have "liquidity + b * (liquidity * sqrt_p0 / (liquidity + a * sqrt_p0))
        = liquidity * (liquidity + (a + b) * sqrt_p0) / (liquidity + a * sqrt_p0)"
    using d by (simp add: field_simps)
  then show ?thesis
    using True d d2 l by (simp add: calc_sqrt_p_from_amt_def)
next
  case False
  then show ?thesis
    by (simp add: calc_sqrt_p_from_amt_def add_divide_distrib)
qed

lemma calc_amt_from_sqrt_p_same: "calc_amt_from_sqrt_p t sqrt_p sqrt_p liquidity = 0"
  by (simp add: calc_amt_from_sqrt_p_def)

lemma calc_amt_from_sqrt_p_path:
  assumes "sqrt_p0 \<noteq> 0" and "sqrt_p1 \<noteq> 0" and "sqrt_p2 \<noteq> 0"
  shows "calc_amt_from_sqrt_p t sqrt_p0 sqrt_p1 liquidity + calc_amt_from_sqrt_p t sqrt_p1 sqrt_p2 liquidity =
         calc_amt_from_sqrt_p t sqrt_p0 sqrt_p2 liquidity"
  using assms by (simp add: calc_amt_from_sqrt_p_def field_simps)

lemma calc_sqrt_p_reserve:
  assumes l: "0 < liquidity" and sp: "0 < sqrt_p0" and a: "0 \<le> amt" and g: "0 < gamma"
  shows "(if t then liquidity / calc_sqrt_p_from_amt t sqrt_p0 liquidity (amt * gamma) / gamma
          else liquidity * calc_sqrt_p_from_amt t sqrt_p0 liquidity (amt * gamma) / gamma) =
         (if t then liquidity / sqrt_p0 / gamma else liquidity * sqrt_p0 / gamma) + amt"
proof (cases t)
  case True
  have d: "0 < liquidity + amt * gamma * sqrt_p0"
    using add_pos_nonneg [OF l mult_nonneg_nonneg [OF mult_nonneg_nonneg [OF a less_imp_le [OF g]]
      less_imp_le [OF sp]]] .
  show ?thesis
    using True d l sp g by (simp add: calc_sqrt_p_from_amt_def field_simps)
next
  case False
  then show ?thesis
    using l g by (simp add: calc_sqrt_p_from_amt_def field_simps)
qed

text \<open>
  Each tier is a constant-product curve: its virtual reserves \<open>L / sqrt_p\<close> of token0
  and \<open>L * sqrt_p\<close> of token1 multiply to \<open>L^2\<close>. Adding an input to the sold side and
  the (negative) amount of the price move to the other side stays on the curve.
\<close>

lemma calc_constant_product:
  assumes l: "0 < liquidity" and sp: "0 < sqrt_p0" and a: "0 \<le> amt"
  shows "(if t then (liquidity / sqrt_p0 + amt) *
            (liquidity * sqrt_p0 + calc_amt_from_sqrt_p (\<not> t) sqrt_p0
               (calc_sqrt_p_from_amt t sqrt_p0 liquidity amt) liquidity)
          else (liquidity * sqrt_p0 + amt) *
            (liquidity / sqrt_p0 + calc_amt_from_sqrt_p (\<not> t) sqrt_p0
               (calc_sqrt_p_from_amt t sqrt_p0 liquidity amt) liquidity)) = liquidity ^ 2"
proof (cases t)
  case True
  have d: "0 < liquidity + amt * sqrt_p0"
    using add_pos_nonneg [OF l mult_nonneg_nonneg [OF a less_imp_le [OF sp]]] .
  have d2: "liquidity * sqrt_p0 + amt * (sqrt_p0 * sqrt_p0) \<noteq> 0"
    using mult_pos_pos [OF sp d] by (simp add: algebra_simps)
  show ?thesis
    using True d d2 l sp by (simp add: calc_sqrt_p_from_amt_def calc_amt_from_sqrt_p_def field_simps
        power2_eq_square)
next
  case False
  have d: "0 < sqrt_p0 * liquidity + amt"
    using add_pos_nonneg [OF mult_pos_pos [OF sp l] a] .
  have d2: "amt * sqrt_p0 + liquidity * (sqrt_p0 * sqrt_p0) \<noteq> 0"
    using mult_pos_pos [OF sp d] by (simp add: algebra_simps)
  show ?thesis
    using False d d2 l sp by (simp add: calc_sqrt_p_from_amt_def calc_amt_from_sqrt_p_def field_simps
        power2_eq_square)
qed

subsection \<open>There and back on one tier\<close>

text \<open>
  Selling \<open>a\<close> on one tier (fee factor \<open>g\<close>), then selling back the whole amount it
  paid out: the second leg returns at most \<open>a * g\<close>, and the price ends on the side of
  its start the first leg moved it to, strictly so when a fee is charged.
\<close>

lemma tier_round_trip_token0:
  assumes l: "0 < L" and sp: "0 < sp" and g: "0 < g" "g \<le> 1" and a: "0 \<le> a"
  defines "s1 \<equiv> calc_sqrt_p_from_amt True sp L (a * g)"
  defines "s2 \<equiv> calc_sqrt_p_from_amt False s1 L (- calc_amt_from_sqrt_p False sp s1 L * g)"
  shows "- calc_amt_from_sqrt_p True s1 s2 L \<le> a * g \<and> s2 \<le> sp \<and>
         (g < 1 \<and> 0 < a \<longrightarrow> s2 < sp)"
proof -
  have d: "L \<le> L + a * g * sp" using a g sp by simp
  have s1: "s1 = L * sp / (L + a * g * sp)"
    by (simp add: s1_def calc_sqrt_p_from_amt_def)
  have s1pos: "0 < s1" using l sp d by (simp add: s1)
  have s1le: "s1 \<le> sp" using l sp d by (simp add: s1 divide_le_eq mult_left_mono)
  have s2: "s2 = s1 + g * (sp - s1)"
    using l by (simp add: s2_def calc_sqrt_p_from_amt_def calc_amt_from_sqrt_p_def field_simps)
  have s2ge: "s1 \<le> s2" using s1le g by (simp add: s2)
  have s2le: "s2 \<le> sp"
    using s1le g mult_left_le_one_le [of "sp - s1" g] by (simp add: s2)
  have s2pos: "0 < s2" using s1pos s2ge by simp
  have leg2: "- calc_amt_from_sqrt_p True s1 s2 L = L / s1 - L / s2"
    using s1pos s2pos by (simp add: calc_amt_from_sqrt_p_def field_simps)
  have inv: "L / s1 = L / sp + a * g"
    using l sp d by (simp add: s1 field_simps)
  have "L / sp \<le> L / s2"
    using s2le s2pos l by (intro divide_left_mono) simp_all
  then have "- calc_amt_from_sqrt_p True s1 s2 L \<le> a * g"
    using leg2 inv by simp
  moreover have "g < 1 \<and> 0 < a \<longrightarrow> s2 < sp"
  proof
    assume ga: "g < 1 \<and> 0 < a"
    then have "L < L + a * g * sp" using g sp by simp
    then have "s1 < sp" using l sp by (simp add: s1 divide_less_eq)
    then have "g * (sp - s1) < sp - s1" using ga g by simp
    then show "s2 < sp" by (simp add: s2)
  qed
  ultimately show ?thesis using s2le by simp
qed

lemma tier_round_trip_token1:
  assumes l: "0 < L" and sp: "0 < sp" and g: "0 < g" "g \<le> 1" and a: "0 \<le> a"
  defines "s1 \<equiv> calc_sqrt_p_from_amt False sp L (a * g)"
  defines "s2 \<equiv> calc_sqrt_p_from_amt True s1 L (- calc_amt_from_sqrt_p True sp s1 L * g)"
  shows "- calc_amt_from_sqrt_p False s1 s2 L \<le> a * g \<and> sp \<le> s2 \<and>
         (g < 1 \<and> 0 < a \<longrightarrow> sp < s2)"
proof -
  have s1: "s1 = sp + a * g / L"
    by (simp add: s1_def calc_sqrt_p_from_amt_def)
  have s1ge: "sp \<le> s1" using a g l by (simp add: s1)
  have s1pos: "0 < s1" using sp s1ge by simp
  let ?y = "L / sp - L / s1"
  have y: "- calc_amt_from_sqrt_p True sp s1 L = ?y"
    using sp s1pos by (simp add: calc_amt_from_sqrt_p_def field_simps)
  have y0: "0 \<le> ?y"
    using s1ge sp l by (simp add: divide_left_mono)
  have s2: "s2 = L * s1 / (L + ?y * g * s1)"
    using y by (simp add: s2_def calc_sqrt_p_from_amt_def)
  have dpos: "0 < L + ?y * g * s1"
    using l y0 g s1pos by (simp add: add_pos_nonneg)
  have s2pos: "0 < s2" using l s1pos dpos by (simp add: s2)
  have inv2: "L / s2 = L / s1 + g * ?y"
    using l s1pos dpos by (simp add: s2 field_simps)
  have "L / s2 \<le> L / sp"
    using inv2 y0 g mult_left_le_one_le [of ?y g] by simp
  then have s2ge: "sp \<le> s2"
    using divide_strict_left_mono [of s2 sp L] l sp s2pos by (cases "sp \<le> s2") auto
  have "- calc_amt_from_sqrt_p False s1 s2 L = L * s1 - L * s2"
    by (simp add: calc_amt_from_sqrt_p_def algebra_simps)
  also have "\<dots> \<le> a * g"
    using s2ge l mult_left_mono [OF s2ge, of L] by (simp add: s1 algebra_simps)
  finally have "- calc_amt_from_sqrt_p False s1 s2 L \<le> a * g" .
  moreover have "g < 1 \<and> 0 < a \<longrightarrow> sp < s2"
  proof
    assume ga: "g < 1 \<and> 0 < a"
    then have "sp < s1" using g l by (simp add: s1)
    then have "0 < ?y" using sp l by (simp add: divide_strict_left_mono)
    then have "g * ?y < ?y" using ga mult_strict_right_mono [of g 1 ?y] by simp
    then have "L / s2 < L / sp" using inv2 by simp
    then show "sp < s2"
      using divide_left_mono [of s2 sp L] l sp s2pos by (cases "sp < s2") auto
  qed
  ultimately show ?thesis using s2ge by simp
qed

text \<open>
  C18 (roundtrip). An input amount is recovered from the price move it causes:
  \<open>calc_amt_from_sqrt_p\<close> inverts \<open>calc_sqrt_p_from_amt\<close> on the same side.
\<close>

theorem calc_amt_from_sqrt_p_roundtrip:
  assumes l: "0 < liquidity" and sp: "0 < sqrt_p0" and a: "0 \<le> amt"
  shows "calc_amt_from_sqrt_p is_token0 sqrt_p0 (calc_sqrt_p_from_amt is_token0 sqrt_p0 liquidity amt)
           liquidity = amt"
proof (cases is_token0)
  case True
  have "0 < liquidity + amt * sqrt_p0"
    using add_pos_nonneg [OF l mult_nonneg_nonneg [OF a less_imp_le [OF sp]]] .
  then have d: "liquidity + amt * sqrt_p0 \<noteq> 0" by simp
  have diff: "sqrt_p0 - liquidity * sqrt_p0 / (liquidity + amt * sqrt_p0)
              = amt * sqrt_p0 * sqrt_p0 / (liquidity + amt * sqrt_p0)"
    using d by (simp add: field_simps)
  have "liquidity * (liquidity * (sqrt_p0 * sqrt_p0)) + amt * (liquidity * (sqrt_p0 * (sqrt_p0 * sqrt_p0)))
        = liquidity * sqrt_p0 * sqrt_p0 * (liquidity + amt * sqrt_p0)"
    by (simp add: algebra_simps)
  then have nz: "liquidity * (liquidity * (sqrt_p0 * sqrt_p0)) +
                 amt * (liquidity * (sqrt_p0 * (sqrt_p0 * sqrt_p0))) \<noteq> 0"
    using d l sp by simp
  have "liquidity * (amt * sqrt_p0 * sqrt_p0 / (liquidity + amt * sqrt_p0))
        / (sqrt_p0 * (liquidity * sqrt_p0 / (liquidity + amt * sqrt_p0))) = amt"
    using d nz l sp by (simp add: field_simps)
  then show ?thesis
    using True by (simp add: calc_amt_from_sqrt_p_def calc_sqrt_p_from_amt_def diff)
next
  case False
  then show ?thesis
    using l by (simp add: calc_amt_from_sqrt_p_def calc_sqrt_p_from_amt_def)
qed

text \<open>
  C19 (roundtrip). Conversely, the price move is recovered from the amount it takes:
  \<open>calc_sqrt_p_from_amt\<close> inverts \<open>calc_amt_from_sqrt_p\<close> for positive prices.
\<close>

theorem calc_sqrt_p_from_amt_roundtrip:
  assumes l: "0 < liquidity" and sp0: "0 < sqrt_p0" and sp1: "0 < sqrt_p1"
  shows "calc_sqrt_p_from_amt is_token0 sqrt_p0 liquidity
           (calc_amt_from_sqrt_p is_token0 sqrt_p0 sqrt_p1 liquidity) = sqrt_p1"
proof (cases is_token0)
  case True
  have "liquidity + liquidity * (sqrt_p0 - sqrt_p1) / (sqrt_p0 * sqrt_p1) * sqrt_p0
        = liquidity * sqrt_p0 / sqrt_p1"
    using sp0 sp1 by (simp add: field_simps)
  then show ?thesis
    using True l sp0 sp1 by (simp add: calc_amt_from_sqrt_p_def calc_sqrt_p_from_amt_def)
next
  case False
  then show ?thesis
    using l by (simp add: calc_amt_from_sqrt_p_def calc_sqrt_p_from_amt_def)
qed

lemma price_impact_lt:
  assumes l: "0 < liquidity" and sp: "0 < sqrt_p0" and a: "0 < amt"
  shows "- calc_amt_from_sqrt_p (\<not> is_token0) sqrt_p0 (calc_sqrt_p_from_amt is_token0 sqrt_p0 liquidity amt)
           liquidity < (if is_token0 then amt * sqrt_p0 ^ 2 else amt / sqrt_p0 ^ 2)"
proof (cases is_token0)
  case True
  have d: "0 < liquidity + amt * sqrt_p0" using add_pos_pos [OF l mult_pos_pos [OF a sp]] .
  have "- calc_amt_from_sqrt_p False sqrt_p0 (calc_sqrt_p_from_amt True sqrt_p0 liquidity amt) liquidity
        = amt * sqrt_p0 ^ 2 * (liquidity / (liquidity + amt * sqrt_p0))"
    using d by (simp add: calc_amt_from_sqrt_p_def calc_sqrt_p_from_amt_def field_simps power2_eq_square)
  also have "\<dots> < amt * sqrt_p0 ^ 2"
  proof -
    have "amt * sqrt_p0 ^ 2 * liquidity < amt * sqrt_p0 ^ 2 * (liquidity + amt * sqrt_p0)"
      using a sp by (simp add: distrib_left)
    then show ?thesis
      using d by (simp add: pos_divide_less_eq)
  qed
  finally show ?thesis using True by simp
next
  case False
  let ?s1 = "sqrt_p0 + amt / liquidity"
  have s1: "sqrt_p0 < ?s1" using l a by simp
  have "- calc_amt_from_sqrt_p True sqrt_p0 (calc_sqrt_p_from_amt False sqrt_p0 liquidity amt) liquidity
        = amt / (sqrt_p0 * ?s1)"
    using l sp s1 by (simp add: calc_amt_from_sqrt_p_def calc_sqrt_p_from_amt_def field_simps)
  also have "\<dots> < amt / sqrt_p0 ^ 2"
    using sp s1 a by (simp add: power2_eq_square divide_strict_left_mono mult_strict_left_mono)
  finally show ?thesis using False by simp
qed

lemma calc_sqrt_p_move_bound:
  assumes l: "0 < liquidity" and sp: "0 < sqrt_p0" and a: "0 \<le> amt"
  shows "\<bar>calc_sqrt_p_from_amt t sqrt_p0 liquidity amt - sqrt_p0\<bar>
         \<le> amt * (if t then sqrt_p0 ^ 2 else 1) / liquidity"
proof (cases t)
  case True
  have d: "liquidity \<le> liquidity + amt * sqrt_p0"
    using a sp by simp
  have "sqrt_p0 - liquidity * sqrt_p0 / (liquidity + amt * sqrt_p0)
        = amt * sqrt_p0 ^ 2 / (liquidity + amt * sqrt_p0)"
    using l d by (simp add: field_simps power2_eq_square)
  also have "\<dots> \<le> amt * sqrt_p0 ^ 2 / liquidity"
    using l d a by (simp add: divide_left_mono)
  finally have up: "sqrt_p0 - liquidity * sqrt_p0 / (liquidity + amt * sqrt_p0) \<le> amt * sqrt_p0 ^ 2 / liquidity" .
  have "liquidity * sqrt_p0 / (liquidity + amt * sqrt_p0) \<le> sqrt_p0"
    using l sp d by (simp add: divide_le_eq mult_left_mono)
  then show ?thesis
    using True up by (simp add: calc_sqrt_p_from_amt_def)
next
  case False
  then show ?thesis
    using l a by (simp add: calc_sqrt_p_from_amt_def)
qed

text \<open>
  C20 (bounds). Price impact: the amount a tier pays out for a positive input (the
  opposite-side amount of the price move, negated as the swap reports it) is worth strictly
  less than the input at the pre-trade price \<open>P = sqrt_p0^2\<close>: less than
  \<open>amt * P\<close> when token0 is sold, less than \<open>amt / P\<close> when token1 is sold.
\<close>

theorem price_impact_bound:
  assumes "0 < liquidity" and "0 < sqrt_p0" and "0 < amt"
  shows "- calc_amt_from_sqrt_p (\<not> is_token0) sqrt_p0 (calc_sqrt_p_from_amt is_token0 sqrt_p0 liquidity amt)
           liquidity < (if is_token0 then amt * sqrt_p0 ^ 2 else amt / sqrt_p0 ^ 2)"
  using price_impact_lt [OF assms] .

theorem calc_amt_from_sqrt_p_roundtrip_witness:
  "(0::real) < 10000 \<and> (0::real) < 1 \<and> (0::real) \<le> 5 \<and>
   calc_amt_from_sqrt_p True 1 (calc_sqrt_p_from_amt True 1 10000 5) 10000 = 5"
  using calc_amt_from_sqrt_p_roundtrip [of 10000 1 5 True] by simp

theorem calc_sqrt_p_from_amt_roundtrip_witness:
  "(0::real) < 10000 \<and> (0::real) < 1 \<and> (0::real) < 2 \<and>
   calc_sqrt_p_from_amt True 1 10000 (calc_amt_from_sqrt_p True 1 2 10000) = 2"
  using calc_sqrt_p_from_amt_roundtrip [of 10000 1 2 True] by simp

theorem price_impact_bound_witness:
  "(0::real) < 10000 \<and> (0::real) < 2 \<and> (0::real) < 5 \<and>
   - calc_amt_from_sqrt_p False 2 (calc_sqrt_p_from_amt True 2 10000 5) 10000 < 5 * 2 ^ 2"
  using price_impact_bound [of 10000 2 5 True] by simp

end
