(* ===== verification/PoolState.thy ===== *)
theory PoolState
  imports Prelude
begin

text \<open>
  The Pool State of \<open>src/muffin_fullrange.py\<close>: the fields of \<open>class Pool\<close> as a
  record, its constructor \<open>Pool.__init__\<close> (\<open>pool_init\<close>, with the source's default
  arguments as \<open>default_pool\<close>), the read-only properties \<open>prices\<close> and \<open>price\<close>, and
  the well-formedness invariant \<open>pool_valid\<close> that the spec asks of every pool: all
  arrays of length \<open>size\<close>, positive liquidity and square-root prices, square-root fee
  factors in \<open>(0, 1]\<close>, non-negative fee-growth accumulators. The field \<open>size\<close> is
  called \<open>pool_size\<close> here, since \<open>size\<close> is a constant of HOL.
\<close>

record pool =
  pool_size :: nat
  liquidity_arr :: farray
  sqrt_p_arr :: farray
  sqrt_gamma_arr :: farray
  fee0_growth_arr :: farray
  fee1_growth_arr :: farray

definition pool_init :: "real list \<Rightarrow> real list \<Rightarrow> real \<Rightarrow> pool" where
  "pool_init liquidity sqrt_gamma sqrt_p =
     (let n = length liquidity in
      \<lparr>pool_size = n,
       liquidity_arr = liquidity,
       sqrt_p_arr = replicate (length liquidity) sqrt_p,
       sqrt_gamma_arr = sqrt_gamma,
       fee0_growth_arr = replicate n 0,
       fee1_growth_arr = replicate n 0\<rparr>)"

definition default_pool :: pool where
  "default_pool = pool_init [10000, 10000] [0.9985, 0.9997] 1"

definition prices :: "pool \<Rightarrow> farray" where
  "prices p = map (\<lambda>s. s ^ 2) (sqrt_p_arr p)"

definition price :: "pool \<Rightarrow> real" where
  "price p = sum_list (map2 (*) (prices p) (liquidity_arr p)) / sum_list (liquidity_arr p)"

definition pool_valid :: "pool \<Rightarrow> bool" where
  "pool_valid p \<longleftrightarrow>
     0 < pool_size p \<and>
     length (liquidity_arr p) = pool_size p \<and>
     length (sqrt_p_arr p) = pool_size p \<and>
     length (sqrt_gamma_arr p) = pool_size p \<and>
     length (fee0_growth_arr p) = pool_size p \<and>
     length (fee1_growth_arr p) = pool_size p \<and>
     list_all (\<lambda>l. 0 < l) (liquidity_arr p) \<and>
     list_all (\<lambda>s. 0 < s) (sqrt_p_arr p) \<and>
     list_all (\<lambda>g. 0 < g \<and> g \<le> 1) (sqrt_gamma_arr p) \<and>
     list_all (\<lambda>f. 0 \<le> f) (fee0_growth_arr p) \<and>
     list_all (\<lambda>f. 0 \<le> f) (fee1_growth_arr p)"

text \<open>
  The spec's construction precondition (section 7): non-empty, index-aligned arrays,
  positive liquidity, fee factors in \<open>(0, 1]\<close>, a positive starting price.
  \<open>Pool.__init__\<close> checks none of it.
\<close>

definition init_args_ok :: "real list \<Rightarrow> real list \<Rightarrow> real \<Rightarrow> bool" where
  "init_args_ok liquidity sqrt_gamma sqrt_p \<longleftrightarrow>
     liquidity \<noteq> [] \<and> length sqrt_gamma = length liquidity \<and>
     list_all (\<lambda>l. 0 < l) liquidity \<and> list_all (\<lambda>g. 0 < g \<and> g \<le> 1) sqrt_gamma \<and> 0 < sqrt_p"

lemma default_pool_valid: "pool_valid default_pool"
  by (simp add: pool_valid_def default_pool_def pool_init_def)

lemma default_pool_size: "pool_size default_pool = 2"
  by (simp add: default_pool_def pool_init_def)

lemma pool_valid_nth:
  assumes "pool_valid p" and "i < pool_size p"
  shows "0 < liquidity_arr p ! i" and "0 < sqrt_p_arr p ! i"
    and "0 < sqrt_gamma_arr p ! i" and "sqrt_gamma_arr p ! i \<le> 1"
    and "0 \<le> fee0_growth_arr p ! i" and "0 \<le> fee1_growth_arr p ! i"
  using assms by (auto simp: pool_valid_def list_all_length)

lemma sqrt_gamma_sq_lt_one:
  assumes "pool_valid p" and "i < pool_size p" and "sqrt_gamma_arr p ! i < 1"
  shows "sqrt_gamma_arr p ! i ^ 2 < 1"
  using mult_strict_mono [of "sqrt_gamma_arr p ! i" 1 "sqrt_gamma_arr p ! i" 1] pool_valid_nth(3) [OF assms(1,2)]
    assms(3) by (simp add: power2_eq_square)

lemma list_all_replicate_iff: "list_all P (replicate n x) \<longleftrightarrow> n = 0 \<or> P x"
  by (induction n) auto

lemma pool_init_valid:
  "init_args_ok liquidity sqrt_gamma sqrt_p \<Longrightarrow> pool_valid (pool_init liquidity sqrt_gamma sqrt_p)"
  by (auto simp: pool_valid_def pool_init_def init_args_ok_def list_all_replicate_iff Let_def)

lemma pool_init_prices: "prices (pool_init liquidity sqrt_gamma sqrt_p) =
  replicate (length liquidity) (sqrt_p ^ 2)"
  by (simp add: prices_def pool_init_def Let_def)

lemma pool_init_price:
  assumes "init_args_ok liquidity sqrt_gamma sqrt_p"
  shows "price (pool_init liquidity sqrt_gamma sqrt_p) = sqrt_p ^ 2"
proof -
  have pos: "list_all (\<lambda>l. 0 < l) liquidity" and ne: "liquidity \<noteq> []"
    using assms by (simp_all add: init_args_ok_def)
  obtain x xs where xs: "liquidity = x # xs"
    using ne by (cases liquidity) auto
  have x: "0 < x" and "\<forall>y\<in>set xs. 0 \<le> y"
    using pos unfolding xs by (auto simp: list_all_iff less_imp_le)
  then have "0 < x" and "0 \<le> sum_list xs"
    by (simp_all add: sum_list_nonneg)
  then have "0 < sum_list liquidity"
    unfolding xs by (simp add: add_pos_nonneg)
  moreover have "map2 (*) (replicate (length liquidity) (sqrt_p ^ 2)) liquidity
                 = map (\<lambda>l. sqrt_p ^ 2 * l) liquidity"
    by (induction liquidity) simp_all
  moreover have "sum_list (map (\<lambda>l. sqrt_p ^ 2 * l) liquidity) = sqrt_p ^ 2 * sum_list liquidity"
    by (induction liquidity) (simp_all add: distrib_left)
  ultimately show ?thesis
    by (simp add: price_def pool_init_prices) (simp add: pool_init_def Let_def)
qed

text \<open>
  C17 (type). What the constructor builds: every tier starts at the same price
  \<open>sqrt_p^2\<close> and with both fee-growth accumulators at zero; from arguments meeting the
  spec's construction precondition the combined price is that common price; and the pool
  is well formed exactly when the arguments meet the precondition. Since \<open>__init__\<close>
  does not check it, every other argument list yields an ill-formed pool instead of the
  construction error the spec requires.
\<close>

theorem pool_init_correct:
  "prices (pool_init liquidity sqrt_gamma sqrt_p) = replicate (length liquidity) (sqrt_p ^ 2) \<and>
   fee0_growth_arr (pool_init liquidity sqrt_gamma sqrt_p) = replicate (length liquidity) 0 \<and>
   fee1_growth_arr (pool_init liquidity sqrt_gamma sqrt_p) = replicate (length liquidity) 0 \<and>
   (init_args_ok liquidity sqrt_gamma sqrt_p \<longrightarrow>
      price (pool_init liquidity sqrt_gamma sqrt_p) = sqrt_p ^ 2) \<and>
   (pool_valid (pool_init liquidity sqrt_gamma sqrt_p) \<longleftrightarrow> init_args_ok liquidity sqrt_gamma sqrt_p)"
  using pool_init_prices pool_init_price [of liquidity sqrt_gamma sqrt_p]
  by (auto simp: pool_valid_def pool_init_def init_args_ok_def list_all_replicate_iff Let_def)

theorem pool_init_correct_witness:
  "init_args_ok [10000, 10000] [0.9985, 0.9997] 1 \<and>
   price (pool_init [10000, 10000] [0.9985, 0.9997] 1) = 1 ^ 2"
proof -
  have ok: "init_args_ok [10000, 10000] [0.9985, 0.9997] (1::real)"
    by (simp add: init_args_ok_def)
  show ?thesis
    using pool_init_correct [of "[10000, 10000]" "[0.9985, 0.9997]" 1] ok by blast
qed

lemma sum_list_map2_eq_sum:
  "length xs = length ys \<Longrightarrow> sum_list (map2 f xs ys) = (\<Sum>i<length xs. f (xs ! i) (ys ! i))"
  by (simp add: sum_list_eq_sum)

text \<open>
  C21 (bounds). The combined price of \<open>Pool.price\<close> is a liquidity-weighted average of
  the tier prices: it lies between the smallest and the largest tier price.
\<close>

theorem price_between_tier_prices:
  assumes v: "pool_valid p"
  shows "Min (set (prices p)) \<le> price p \<and> price p \<le> Max (set (prices p))"
proof -
  let ?n = "pool_size p"
  let ?w = "\<lambda>i. liquidity_arr p ! i" and ?x = "\<lambda>i. prices p ! i"
  have len: "length (prices p) = ?n" "length (liquidity_arr p) = ?n"
    using v by (simp_all add: prices_def pool_valid_def)
  have w: "\<forall>i<?n. 0 \<le> ?w i"
    using pool_valid_nth [OF v] by (simp add: less_imp_le)
  have x: "\<forall>i<?n. Min (set (prices p)) \<le> ?x i \<and> ?x i \<le> Max (set (prices p))"
    using len by simp
  have pos: "0 < (\<Sum>i<?n. ?w i)"
    using v pool_valid_nth [OF v] by (intro sum_pos) (auto simp: pool_valid_def)
  have "price p = (\<Sum>i<?n. ?w i * ?x i) / (\<Sum>i<?n. ?w i)"
    using len by (simp add: price_def sum_list_map2_eq_sum sum_list_eq_sum mult.commute)
  then show ?thesis
    using weighted_average_bounds [OF w x pos] by simp
qed

theorem price_between_tier_prices_witness:
  "pool_valid default_pool \<and>
   Min (set (prices default_pool)) \<le> price default_pool \<and>
   price default_pool \<le> Max (set (prices default_pool))"
  using price_between_tier_prices [OF default_pool_valid] default_pool_valid by simp

end
