(* ===== verification/Allocator.thy ===== *)
theory Allocator
  imports PoolState
begin

text \<open>
  The Tier Allocator, \<open>Pool._calc_tier_amts_in\<close> of \<open>src/muffin_fullrange.py\<close>.
  The per-tier working arrays \<open>gamma\<close>, \<open>lsg\<close> and \<open>res\<close> are computed from the pool,
  and the \<open>while True\<close> loop becomes \<open>alloc_loop\<close>, a function over the loop's
  variables \<open>mask\<close> (\<open>msk\<close> here, as \<open>mask\<close> is a constant of HOL) and \<open>amts\<close>. One pass of its body is \<open>lagrange_step\<close>
  (line 92, the closed-form Lagrange-multiplier split over the active tiers); the loop then
  either stops (line 93--95, zeroing the inactive tiers) or drops every active tier whose
  amount is negative (line 96). The loop terminates because the active set shrinks
  strictly on every pass that does not stop; this is the termination proof of
  \<open>alloc_loop\<close>, with the number of active tiers as the measure.
\<close>

definition lagrange_step :: "farray \<Rightarrow> farray \<Rightarrow> real \<Rightarrow> bmask \<Rightarrow> farray \<Rightarrow> farray" where
  "lagrange_step lsg res amount msk amts =
     scatter msk
       (map2 (\<lambda>l r. (l * (amount + sum_list (compress msk res)) / sum_list (compress msk lsg)) - r)
          (compress msk lsg) (compress msk res))
       amts"

function alloc_loop :: "farray \<Rightarrow> farray \<Rightarrow> real \<Rightarrow> bmask \<Rightarrow> farray \<Rightarrow> farray \<times> bmask" where
  "alloc_loop lsg res amount msk amts =
     (let amts = lagrange_step lsg res amount msk amts in
      if list_all (\<lambda>a. a \<ge> 0) (compress msk amts)
      then (fill (map Not msk) 0 amts, msk)
      else alloc_loop lsg res amount (map2 (\<and>) msk (map (\<lambda>a. a \<ge> 0) amts)) amts)"
  by pat_completeness auto
termination
  by (relation "measure (\<lambda>(lsg, res, amount, msk, amts). count_list msk True)")
     (auto simp: Let_def dest: count_drop_negative [where P = "(\<le>) 0"])

declare alloc_loop.simps [simp del]

text \<open>
  The number of passes the loop makes (line 91): the same recursion, counting. The design
  notes of the spec ask that it be bounded by the number of tiers.
\<close>

function alloc_passes :: "farray \<Rightarrow> farray \<Rightarrow> real \<Rightarrow> bmask \<Rightarrow> farray \<Rightarrow> nat" where
  "alloc_passes lsg res amount msk amts =
     (let amts = lagrange_step lsg res amount msk amts in
      if list_all (\<lambda>a. a \<ge> 0) (compress msk amts) then 1
      else Suc (alloc_passes lsg res amount (map2 (\<and>) msk (map (\<lambda>a. a \<ge> 0) amts)) amts))"
  by pat_completeness auto
termination
  by (relation "measure (\<lambda>(lsg, res, amount, msk, amts). count_list msk True)")
     (auto simp: Let_def dest: count_drop_negative [where P = "(\<le>) 0"])

declare alloc_passes.simps [simp del]

definition tier_gamma :: "pool \<Rightarrow> farray" where
  "tier_gamma p = map (\<lambda>g. g ^ 2) (sqrt_gamma_arr p)"

definition tier_lsg :: "pool \<Rightarrow> farray" where
  "tier_lsg p = map2 (/) (liquidity_arr p) (sqrt_gamma_arr p)"

definition tier_res :: "pool \<Rightarrow> bool \<Rightarrow> farray" where
  "tier_res p is_token0 =
     (if is_token0
      then map2 (/) (map2 (/) (liquidity_arr p) (sqrt_p_arr p)) (tier_gamma p)
      else map2 (/) (map2 (*) (liquidity_arr p) (sqrt_p_arr p)) (tier_gamma p))"

definition calc_tier_amts_in :: "pool \<Rightarrow> bool \<Rightarrow> real \<Rightarrow> error + (farray \<times> bmask)" where
  "calc_tier_amts_in p is_token0 amount =
     (if \<not> amount \<ge> 0 then Inl (AssertionError ''for exact-input order only'')
      else
        let lsg = tier_lsg p;
            res = tier_res p is_token0;
            msk = replicate (pool_size p) True;
            amts = replicate (pool_size p) 0
        in Inr (alloc_loop lsg res amount msk amts))"

declare calc_tier_amts_in_def [eval_simps] tier_lsg_def [eval_simps] tier_res_def [eval_simps]
  tier_gamma_def [eval_simps] lagrange_step_def [eval_simps] alloc_loop.simps [eval_simps]
  fill_def [eval_simps]

subsection \<open>The specification: water-filling\<close>

text \<open>
  The allocation the loop is meant to compute is the solution of the convex problem
  "split \<open>amount\<close> into non-negative parts equalising the marginal price": for a
  multiplier \<open>lam\<close> every tier gets \<open>max 0 (lsg i * lam - res i)\<close> (a tier whose
  reserve already exceeds \<open>lsg i * lam\<close> gets nothing), and \<open>lam\<close> is chosen so
  that the parts sum to \<open>amount\<close>. The multiplier of an active set is the closed form
  of line 92.
\<close>

definition lagrange_multiplier :: "farray \<Rightarrow> farray \<Rightarrow> real \<Rightarrow> bmask \<Rightarrow> real" where
  "lagrange_multiplier lsg res amount msk = (amount + msum msk res) / msum msk lsg"

definition water_fill :: "farray \<Rightarrow> farray \<Rightarrow> real \<Rightarrow> farray" where
  "water_fill lsg res lam = map2 (\<lambda>l r. max 0 (l * lam - r)) lsg res"

declare lagrange_multiplier_def [eval_simps] water_fill_def [eval_simps]

definition excluded_above :: "farray \<Rightarrow> farray \<Rightarrow> real \<Rightarrow> bmask \<Rightarrow> bool" where
  "excluded_above lsg res amount msk \<longleftrightarrow>
     (\<forall>i<length msk. \<not> msk ! i \<longrightarrow> lsg ! i * lagrange_multiplier lsg res amount msk < res ! i)"

subsection \<open>One pass of the loop body\<close>

lemma length_lagrange_step [simp]: "length (lagrange_step lsg res amount msk amts) = length amts"
  by (simp add: lagrange_step_def)

lemma lagrange_step_select:
  assumes "length lsg = length msk" and "length res = length msk" and "length amts = length msk"
  shows "lagrange_step lsg res amount msk amts =
         select msk (map2 (\<lambda>l r. l * (amount + msum msk res) / msum msk lsg - r) lsg res) amts"
proof -
  let ?f = "\<lambda>l r. l * (amount + msum msk res) / msum msk lsg - r"
  have "lagrange_step lsg res amount msk amts = scatter msk (compress msk (map2 ?f lsg res)) amts"
    using assms by (simp add: lagrange_step_def compress_map2)
  also have "\<dots> = select msk (map2 ?f lsg res) amts"
    using assms by (simp add: scatter_compress)
  finally show ?thesis .
qed

lemma nth_lagrange_step:
  assumes "length lsg = length msk" and "length res = length msk" and "length amts = length msk"
    and "i < length msk"
  shows "lagrange_step lsg res amount msk amts ! i =
         (if msk ! i then lsg ! i * lagrange_multiplier lsg res amount msk - res ! i else amts ! i)"
  using assms by (simp add: lagrange_step_select lagrange_multiplier_def)

text \<open>The closed form of line 92 distributes exactly \<open>amount\<close> over the active tiers.\<close>

lemma msum_lagrange_step:
  assumes "length lsg = length msk" and "length res = length msk" and "length amts = length msk"
    and "msum msk lsg \<noteq> 0"
  shows "msum msk (lagrange_step lsg res amount msk amts) = amount"
proof -
  let ?c = "amount + msum msk res" and ?w = "msum msk lsg"
  have "msum msk (lagrange_step lsg res amount msk amts)
        = sum_list (map2 (\<lambda>l r. l * ?c / ?w - r) (compress msk lsg) (compress msk res))"
    using assms by (simp add: lagrange_step_select compress_select compress_map2)
  also have "\<dots> = ?w * ?c / ?w - msum msk res"
    using assms by (simp add: sum_list_map2_affine length_compress)
  also have "\<dots> = amount"
    using assms(4) by simp
  finally show ?thesis .
qed

subsection \<open>A rule for the loop\<close>

text \<open>
  An invariant of the loop variables that holds at the start and survives every pass that
  does not stop gives any property that the stopping pass establishes: the rule of the
  \<open>while True\<close> loop, proved once by computation induction on \<open>alloc_loop\<close>.
\<close>

lemma alloc_loop_rule:
  assumes "I msk amts"
    and step: "\<And>m a. I m a \<Longrightarrow>
       \<not> list_all (\<lambda>x. 0 \<le> x) (compress m (lagrange_step lsg res amount m a)) \<Longrightarrow>
       I (map2 (\<and>) m (map (\<lambda>x. 0 \<le> x) (lagrange_step lsg res amount m a)))
         (lagrange_step lsg res amount m a)"
    and stop: "\<And>m a. I m a \<Longrightarrow>
       list_all (\<lambda>x. 0 \<le> x) (compress m (lagrange_step lsg res amount m a)) \<Longrightarrow>
       Q (fill (map Not m) 0 (lagrange_step lsg res amount m a), m)"
  shows "Q (alloc_loop lsg res amount msk amts)"
  using assms
proof (induction lsg res amount msk amts rule: alloc_loop.induct)
  case (1 lsg res amount msk amts)
  note inv = "1.prems"(1) and step = "1.prems"(2) and stop = "1.prems"(3)
  show ?case
  proof (cases "list_all (\<lambda>x. 0 \<le> x) (compress msk (lagrange_step lsg res amount msk amts))")
    case True
    then show ?thesis
      using stop [OF inv True] by (simp add: alloc_loop.simps [of lsg res amount msk amts] Let_def)
  next
    case False
    then show ?thesis
      using "1.IH" [OF refl False step [OF inv False] step stop]
      by (simp add: alloc_loop.simps [of lsg res amount msk amts] Let_def)
  qed
qed

subsection \<open>What the loop returns\<close>

text \<open>
  Whatever the inputs (of matching lengths), the loop returns a mask inside the initial one
  and amounts that are the closed form of line 92 on the final active set and zero
  elsewhere; every returned amount is non-negative.
\<close>

lemma alloc_loop_shape:
  assumes "length lsg = length msk" and "length res = length msk" and "length amts = length msk"
    and "alloc_loop lsg res amount msk amts = (amts', msk')"
  shows "length amts' = length msk \<and> length msk' = length msk \<and>
         (\<forall>i<length msk. msk' ! i \<longrightarrow> msk ! i) \<and>
         (\<forall>i<length msk. amts' ! i =
            (if msk' ! i then lsg ! i * lagrange_multiplier lsg res amount msk' - res ! i else 0)) \<and>
         list_all (\<lambda>x. 0 \<le> x) amts'"
proof -
  let ?n = "length msk"
  let ?I = "\<lambda>(m::bmask) (a::farray). length m = ?n \<and> length a = ?n \<and> (\<forall>i<?n. m ! i \<longrightarrow> msk ! i)"
  let ?Q = "\<lambda>(a', m'). length a' = ?n \<and> length m' = ?n \<and> (\<forall>i<?n. m' ! i \<longrightarrow> msk ! i) \<and>
         (\<forall>i<?n. a' ! i =
            (if m' ! i then lsg ! i * lagrange_multiplier lsg res amount m' - res ! i else 0)) \<and>
         list_all (\<lambda>x. 0 \<le> x) a'"
  have "?Q (alloc_loop lsg res amount msk amts)"
  proof (rule alloc_loop_rule [where I = ?I])
    show "?I msk amts" using assms by simp
  next
    fix m :: bmask and a :: farray
    assume "?I m a"
    then show "?I (map2 (\<and>) m (map (\<lambda>x. 0 \<le> x) (lagrange_step lsg res amount m a)))
                 (lagrange_step lsg res amount m a)"
      by simp
  next
    fix m :: bmask and a :: farray
    assume inv: "?I m a"
      and stop: "list_all (\<lambda>x. 0 \<le> x) (compress m (lagrange_step lsg res amount m a))"
    let ?a = "lagrange_step lsg res amount m a"
    have nth: "\<forall>i<?n. fill (map Not m) 0 ?a ! i =
               (if m ! i then lsg ! i * lagrange_multiplier lsg res amount m - res ! i else 0)"
      using inv assms by (simp add: nth_lagrange_step)
    have "\<forall>i<?n. 0 \<le> fill (map Not m) 0 ?a ! i"
      using inv list_all_compress_nth [OF stop] by simp
    then have "list_all (\<lambda>x. 0 \<le> x) (fill (map Not m) 0 ?a)"
      using inv by (simp add: list_all_length)
    then show "?Q (fill (map Not m) 0 ?a, m)"
      using inv nth by simp
  qed
  then show ?thesis using assms(4) by simp
qed

text \<open>
  Dropping the tiers whose closed-form amount is negative never raises the multiplier:
  each dropped tier has \<open>res i > lsg i * lam\<close>, so removing it takes more out of the
  numerator than \<open>lam\<close> times what it takes out of the denominator.
\<close>

lemma multiplier_decreases:
  assumes len: "length lsg = length m" "length res = length m" "length a = length m"
    and pos: "list_all (\<lambda>l. 0 < l) lsg"
    and act: "True \<in> set m"
    and act': "True \<in> set (map2 (\<and>) m (map (\<lambda>x. 0 \<le> x) (lagrange_step lsg res amount m a)))"
  shows "lagrange_multiplier lsg res amount
           (map2 (\<and>) m (map (\<lambda>x. 0 \<le> x) (lagrange_step lsg res amount m a)))
         \<le> lagrange_multiplier lsg res amount m"
proof -
  let ?a = "lagrange_step lsg res amount m a"
  let ?bs = "map (\<lambda>x. 0 \<le> x) ?a"
  let ?m' = "map2 (\<and>) m ?bs"
  let ?N = "map2 (\<lambda>x y. x \<and> \<not> y) m ?bs"
  let ?lam = "lagrange_multiplier lsg res amount m"
  have W: "0 < msum m lsg"
    using msum_pos [of m lsg] len pos act by simp
  have W': "0 < msum ?m' lsg"
    using msum_pos [of ?m' lsg] len pos act' by simp
  have splitW: "msum m lsg = msum ?m' lsg + msum ?N lsg"
    using msum_split [of ?bs lsg m] len by simp
  have splitR: "msum m res = msum ?m' res + msum ?N res"
    using msum_split [of ?bs res m] len by simp
  have above: "\<forall>i<length lsg. ?N ! i \<longrightarrow> ?lam * lsg ! i \<le> res ! i"
  proof (intro allI impI)
    fix i
    assume i: "i < length lsg" and "?N ! i"
    then have "m ! i" and "?a ! i < 0"
      using len by auto
    then show "?lam * lsg ! i \<le> res ! i"
      using nth_lagrange_step [of lsg m res a i amount] len i by (simp add: mult.commute)
  qed
  have RN: "?lam * msum ?N lsg \<le> msum ?N res"
    by (rule msum_scaled_le) (use len above in simp_all)
  have c: "amount + msum m res = ?lam * msum m lsg"
    using W by (simp add: lagrange_multiplier_def)
  have "amount + msum ?m' res \<le> ?lam * msum ?m' lsg"
    using c RN unfolding splitW splitR by (simp add: distrib_left)
  then show ?thesis
    using W' by (simp add: lagrange_multiplier_def pos_divide_le_eq)
qed

text \<open>
  With positive weights and a non-negative input, the active set never empties, the
  returned amounts sum to the input, and every tier outside the final active set has its
  reserve above the final multiplier (its marginal price is already worse than the one the
  active tiers are moved to).
\<close>

lemma lagrange_step_routes:
  assumes len: "length lsg = length m" "length res = length m" "length a = length m"
    and pos: "list_all (\<lambda>l. 0 < l) lsg" and act: "True \<in> set m"
  shows "msum m (lagrange_step lsg res amount m a) = amount"
proof -
  have "msum m lsg \<noteq> 0"
    using msum_pos [of m lsg] len pos act by simp
  then show ?thesis
    by (intro msum_lagrange_step) (use len in simp_all)
qed

text \<open>
  One pass that does not stop keeps the loop's invariant: some tier stays active, and every
  excluded tier, old or newly dropped, lies above the new (no larger) multiplier.
\<close>

lemma excluded_above_step:
  assumes len: "length lsg = length m" "length res = length m" "length a = length m"
    and pos: "list_all (\<lambda>l. 0 < l) lsg" and amt: "0 \<le> amount"
    and act: "True \<in> set m" and excl: "excluded_above lsg res amount m"
  shows "True \<in> set (map2 (\<and>) m (map (\<lambda>x. 0 \<le> x) (lagrange_step lsg res amount m a))) \<and>
         excluded_above lsg res amount (map2 (\<and>) m (map (\<lambda>x. 0 \<le> x) (lagrange_step lsg res amount m a)))"
proof -
  let ?a = "lagrange_step lsg res amount m a"
  let ?m' = "map2 (\<and>) m (map (\<lambda>x. 0 \<le> x) ?a)"
  have act': "True \<in> set ?m'"
    using active_survives [of m ?a] lagrange_step_routes [OF len pos act, where amount = amount] amt len act
    by simp
  have dec: "lagrange_multiplier lsg res amount ?m' \<le> lagrange_multiplier lsg res amount m"
    by (rule multiplier_decreases) (use len pos act act' in simp_all)
  have "lsg ! i * lagrange_multiplier lsg res amount ?m' < res ! i"
    if i: "i < length ?m'" and out: "\<not> ?m' ! i" for i
  proof -
    have "lsg ! i * lagrange_multiplier lsg res amount m < res ! i"
    proof (cases "m ! i")
      case True
      then have "?a ! i < 0"
        using out i len by simp
      then show ?thesis
        using True nth_lagrange_step [of lsg m res a i amount] len i by simp
    next
      case False
      then show ?thesis
        using excl i len unfolding excluded_above_def by simp
    qed
    moreover have "lsg ! i * lagrange_multiplier lsg res amount ?m'
                   \<le> lsg ! i * lagrange_multiplier lsg res amount m"
      using dec pos i len by (simp add: list_all_length mult_left_mono less_imp_le)
    ultimately show ?thesis by linarith
  qed
  then show ?thesis
    using act' by (simp add: excluded_above_def)
qed

text \<open>
  With positive weights and a non-negative input, the active set never empties, the
  returned amounts sum to the input, and every tier outside the final active set has its
  reserve above the final multiplier (its marginal price is already worse than the one the
  active tiers are moved to).
\<close>

lemma alloc_loop_feasible:
  assumes len: "length lsg = length msk" "length res = length msk" "length amts = length msk"
    and pos: "list_all (\<lambda>l. 0 < l) lsg" and amt: "0 \<le> amount"
    and act: "True \<in> set msk" and excl: "excluded_above lsg res amount msk"
    and run: "alloc_loop lsg res amount msk amts = (amts', msk')"
  shows "True \<in> set msk' \<and> sum_list amts' = amount \<and> excluded_above lsg res amount msk'"
proof -
  let ?n = "length msk"
  let ?I = "\<lambda>(m::bmask) (a::farray). length m = ?n \<and> length a = ?n \<and> True \<in> set m \<and>
              excluded_above lsg res amount m"
  let ?Q = "\<lambda>(a'::farray, m'). True \<in> set m' \<and> sum_list a' = amount \<and>
              excluded_above lsg res amount m'"
  have "?Q (alloc_loop lsg res amount msk amts)"
  proof (rule alloc_loop_rule [where I = ?I])
    show "?I msk amts" using assms by simp
  next
    fix m :: bmask and a :: farray
    assume inv: "?I m a"
    then show "?I (map2 (\<and>) m (map (\<lambda>x. 0 \<le> x) (lagrange_step lsg res amount m a)))
                  (lagrange_step lsg res amount m a)"
      using excluded_above_step [of lsg m res a amount] len pos amt by simp
  next
    fix m :: bmask and a :: farray
    assume inv: "?I m a"
    then have "msum m (lagrange_step lsg res amount m a) = amount"
      using lagrange_step_routes [of lsg m res a amount] len pos by simp
    then show "?Q (fill (map Not m) 0 (lagrange_step lsg res amount m a), m)"
      using inv by (simp add: sum_list_fill_not)
  qed
  then show ?thesis using run by simp
qed

subsection \<open>The allocator on a pool\<close>

lemma length_tier_lsg: "pool_valid p \<Longrightarrow> length (tier_lsg p) = pool_size p"
  by (simp add: tier_lsg_def pool_valid_def)

lemma length_tier_res: "pool_valid p \<Longrightarrow> length (tier_res p is_token0) = pool_size p"
  by (simp add: tier_res_def tier_gamma_def pool_valid_def)

lemma tier_lsg_pos: "pool_valid p \<Longrightarrow> list_all (\<lambda>l. 0 < l) (tier_lsg p)"
  by (auto simp: list_all_length tier_lsg_def pool_valid_def intro!: divide_pos_pos)

lemma calc_tier_amts_in_Inr:
  "0 \<le> amount \<Longrightarrow> calc_tier_amts_in p is_token0 amount =
     Inr (alloc_loop (tier_lsg p) (tier_res p is_token0) amount
            (replicate (pool_size p) True) (replicate (pool_size p) 0))"
  by (simp add: calc_tier_amts_in_def)

lemma calc_tier_amts_in_Inr_D:
  "calc_tier_amts_in p is_token0 amount = Inr r \<Longrightarrow>
   0 \<le> amount \<and> r = alloc_loop (tier_lsg p) (tier_res p is_token0) amount
            (replicate (pool_size p) True) (replicate (pool_size p) 0)"
  by (simp add: calc_tier_amts_in_def split: if_splits)

text \<open>The facts of the loop, read on the allocator's own inputs.\<close>

lemma calc_tier_amts_in_facts:
  assumes "pool_valid p" and "calc_tier_amts_in p is_token0 amount = Inr (amts, msk)"
  shows "0 \<le> amount \<and> length amts = pool_size p \<and> length msk = pool_size p \<and>
         (\<forall>i<pool_size p. amts ! i = (if msk ! i
            then tier_lsg p ! i * lagrange_multiplier (tier_lsg p) (tier_res p is_token0) amount msk
                 - tier_res p is_token0 ! i
            else 0)) \<and>
         list_all (\<lambda>a. 0 \<le> a) amts \<and> True \<in> set msk \<and> sum_list amts = amount \<and>
         excluded_above (tier_lsg p) (tier_res p is_token0) amount msk"
proof -
  let ?n = "pool_size p"
  have run: "0 \<le> amount"
    "alloc_loop (tier_lsg p) (tier_res p is_token0) amount (replicate ?n True) (replicate ?n 0)
       = (amts, msk)"
    using calc_tier_amts_in_Inr_D [OF assms(2)] by simp_all
  have n: "0 < ?n"
    using assms(1) by (simp add: pool_valid_def)
  have shape: "length amts = ?n \<and> length msk = ?n \<and>
         (\<forall>i<?n. amts ! i = (if msk ! i
            then tier_lsg p ! i * lagrange_multiplier (tier_lsg p) (tier_res p is_token0) amount msk
                 - tier_res p is_token0 ! i
            else 0)) \<and> list_all (\<lambda>a. 0 \<le> a) amts"
    using alloc_loop_shape [OF _ _ _ run(2)] assms(1) by (simp add: length_tier_lsg length_tier_res)
  have "True \<in> set msk \<and> sum_list amts = amount \<and>
        excluded_above (tier_lsg p) (tier_res p is_token0) amount msk"
    by (rule alloc_loop_feasible [OF _ _ _ _ run(1) _ _ run(2)])
       (use assms(1) n in \<open>simp_all add: length_tier_lsg length_tier_res tier_lsg_pos
          excluded_above_def\<close>)
  then show ?thesis
    using shape run(1) by simp
qed

text \<open>Non-negativity needs no hypothesis on the inputs: it is the loop's exit test.\<close>

lemma alloc_loop_nonneg:
  "alloc_loop lsg res amount msk amts = (amts', msk') \<Longrightarrow> list_all (\<lambda>x. 0 \<le> x) amts'"
proof -
  have "(\<lambda>(a', m'). list_all (\<lambda>x. 0 \<le> x) a') (alloc_loop lsg res amount msk amts)"
  proof (rule alloc_loop_rule [where I = "\<lambda>_ _. True"])
    fix m :: bmask and a :: farray
    let ?a = "lagrange_step lsg res amount m a"
    assume "list_all (\<lambda>x. 0 \<le> x) (compress m ?a)"
    then have "\<forall>i<length (fill (map Not m) 0 ?a). 0 \<le> fill (map Not m) 0 ?a ! i"
      using list_all_compress_nth [of "\<lambda>x. 0 \<le> x" m ?a] by simp
    then show "(\<lambda>(a', m'). list_all (\<lambda>x. 0 \<le> x) a') (fill (map Not m) 0 ?a, m)"
      by (simp add: list_all_length)
  qed simp_all
  then show "alloc_loop lsg res amount msk amts = (amts', msk') \<Longrightarrow> list_all (\<lambda>x. 0 \<le> x) amts'"
    by simp
qed

text \<open>
  While the active set is non-empty and the weights positive, each pass that does not stop
  drops at least one tier and keeps at least one: the number of passes is at most the
  number of active tiers.
\<close>

lemma alloc_passes_le_count:
  assumes "length lsg = length msk" and "length res = length msk" and "length amts = length msk"
    and "list_all (\<lambda>l. 0 < l) lsg" and "0 \<le> amount" and "True \<in> set msk"
  shows "alloc_passes lsg res amount msk amts \<le> count_list msk True"
  using assms
proof (induction lsg res amount msk amts rule: alloc_passes.induct)
  case (1 lsg res amount msk amts)
  let ?a = "lagrange_step lsg res amount msk amts"
  let ?m' = "map2 (\<and>) msk (map (\<lambda>x. 0 \<le> x) ?a)"
  have one: "1 \<le> count_list msk True"
    using "1.prems"(6) count_list_0_iff [of msk True] by (simp add: Suc_le_eq)
  show ?case
  proof (cases "list_all (\<lambda>x. 0 \<le> x) (compress msk ?a)")
    case True
    then show ?thesis
      using one by (simp add: alloc_passes.simps [of lsg res amount msk amts] Let_def)
  next
    case False
    have W: "msum msk lsg \<noteq> 0"
      using msum_pos [of msk lsg] "1.prems" by simp
    have "msum msk ?a = amount"
      by (rule msum_lagrange_step) (use "1.prems" W in simp_all)
    then have act': "True \<in> set ?m'"
      using active_survives [of msk ?a] "1.prems" by simp
    have "alloc_passes lsg res amount ?m' ?a \<le> count_list ?m' True"
      using "1.IH" [OF refl False] "1.prems" act' by simp
    moreover have "count_list ?m' True < count_list msk True"
      using count_drop_negative [OF False] .
    ultimately show ?thesis
      using False by (simp add: alloc_passes.simps [of lsg res amount msk amts] Let_def)
  qed
qed

lemma water_fill_mono:
  assumes "list_all (\<lambda>l. 0 \<le> l) lsg" and "length res = length lsg" and "lam1 \<le> lam2"
    and "i < length lsg"
  shows "water_fill lsg res lam1 ! i \<le> water_fill lsg res lam2 ! i"
  using assms by (simp add: water_fill_def list_all_length mult_left_mono max.coboundedI2)

lemma water_fill_unique:
  assumes "list_all (\<lambda>l. 0 \<le> l) lsg" and "length res = length lsg"
    and "sum_list (water_fill lsg res lam1) = sum_list (water_fill lsg res lam2)"
  shows "water_fill lsg res lam1 = water_fill lsg res lam2"
proof (cases "lam1 \<le> lam2")
  case True
  show ?thesis
    by (rule le_sum_eq_imp_eq) (use assms True water_fill_mono in \<open>simp_all add: water_fill_def\<close>)
next
  case False
  show ?thesis
    by (rule le_sum_eq_imp_eq [symmetric])
       (use assms False water_fill_mono [of lsg res lam2 lam1] in \<open>simp_all add: water_fill_def\<close>)
qed

text \<open>
  Amounts that are the closed form on the active tiers, zero elsewhere, non-negative, and
  whose excluded tiers lie above the multiplier, are the water-filling allocation at that
  multiplier.
\<close>

lemma water_fill_of_closed_form:
  assumes len: "length lsg = length msk" "length res = length msk" "length amts = length msk"
    and form: "\<forall>i<length msk. amts ! i = (if msk ! i then lsg ! i * lam - res ! i else 0)"
    and nonneg: "list_all (\<lambda>x. 0 \<le> x) amts"
    and above: "\<forall>i<length msk. \<not> msk ! i \<longrightarrow> lsg ! i * lam < res ! i"
  shows "amts = water_fill lsg res lam"
proof (rule nth_equalityI)
  show "length amts = length (water_fill lsg res lam)"
    using len by (simp add: water_fill_def)
next
  fix i
  assume "i < length amts"
  then have i: "i < length msk" using len by simp
  show "amts ! i = water_fill lsg res lam ! i"
  proof (cases "msk ! i")
    case True
    then have "0 \<le> lsg ! i * lam - res ! i"
      using form nonneg i len by (metis list_all_length)
    then show ?thesis
      using True form i len by (simp add: water_fill_def)
  next
    case False
    then show ?thesis
      using above form i len by (simp add: water_fill_def)
  qed
qed

lemma calc_tier_amts_in_wf:
  assumes "pool_valid p" and "calc_tier_amts_in p is_token0 amount = Inr (amts, msk)"
  shows "amts = water_fill (tier_lsg p) (tier_res p is_token0)
                  (lagrange_multiplier (tier_lsg p) (tier_res p is_token0) amount msk)"
  using calc_tier_amts_in_facts [OF assms] assms(1)
  by (intro water_fill_of_closed_form) (auto simp: excluded_above_def length_tier_lsg length_tier_res)

lemma tier_lsg_nonneg: "pool_valid p \<Longrightarrow> list_all (\<lambda>l. 0 \<le> l) (tier_lsg p)"
  using tier_lsg_pos [of p] by (simp add: list_all_length less_imp_le)

lemma default_pool_alloc_1:
  "calc_tier_amts_in default_pool True 1 = Inr ([0, 1], [False, True])"
  by (simp add: eval_simps default_pool_def pool_init_def)

subsection \<open>Properties of the allocator\<close>

text \<open>
  C1 (refinement). On a valid pool, the allocator computes the water-filling allocation:
  every tier receives \<open>max 0 (lsg i * lam - res i)\<close> for the multiplier \<open>lam\<close> of
  the final active set, so active tiers end at one common marginal price and excluded tiers
  are exactly those whose price is already beyond it.
\<close>

theorem calc_tier_amts_in_water_fill:
  assumes "pool_valid p" and "calc_tier_amts_in p is_token0 amount = Inr (amts, msk)"
  shows "amts = water_fill (tier_lsg p) (tier_res p is_token0)
                  (lagrange_multiplier (tier_lsg p) (tier_res p is_token0) amount msk)"
  using calc_tier_amts_in_wf [OF assms] .

theorem calc_tier_amts_in_water_fill_witness:
  "pool_valid default_pool \<and> calc_tier_amts_in default_pool True 1 = Inr ([0, 1], [False, True]) \<and>
   [0, 1] = water_fill (tier_lsg default_pool) (tier_res default_pool True)
              (lagrange_multiplier (tier_lsg default_pool) (tier_res default_pool True) 1 [False, True])"
  using calc_tier_amts_in_water_fill [OF default_pool_valid default_pool_alloc_1]
    default_pool_valid default_pool_alloc_1 by simp

text \<open>
  C2 (safety). The allocator never routes a negative amount to a tier, for any pool and
  any input it accepts.
\<close>

theorem calc_tier_amts_in_nonneg:
  assumes "calc_tier_amts_in p is_token0 amount = Inr (amts, msk)"
  shows "list_all (\<lambda>a. 0 \<le> a) amts"
proof -
  have "alloc_loop (tier_lsg p) (tier_res p is_token0) amount
          (replicate (pool_size p) True) (replicate (pool_size p) 0) = (amts, msk)"
    using calc_tier_amts_in_Inr_D [OF assms] by simp
  then show ?thesis by (rule alloc_loop_nonneg)
qed

theorem calc_tier_amts_in_nonneg_witness:
  "calc_tier_amts_in default_pool True 1 = Inr ([0, 1], [False, True]) \<and>
   list_all (\<lambda>a. 0 \<le> a) [0, 1 :: real]"
  using calc_tier_amts_in_nonneg [OF default_pool_alloc_1] default_pool_alloc_1 by simp

text \<open>
  C3 (functional). On a valid pool the allocation routes exactly the input amount, and the
  repair loop never excludes every tier (the degenerate case the spec leaves open does not
  arise for non-negative input).
\<close>

theorem calc_tier_amts_in_conserves:
  assumes "pool_valid p" and "calc_tier_amts_in p is_token0 amount = Inr (amts, msk)"
  shows "sum_list amts = amount \<and> True \<in> set msk"
  using calc_tier_amts_in_facts [OF assms] by simp

theorem calc_tier_amts_in_conserves_witness:
  "pool_valid default_pool \<and> calc_tier_amts_in default_pool True 1 = Inr ([0, 1], [False, True]) \<and>
   sum_list [0, 1 :: real] = 1 \<and> True \<in> set [False, True]"
  using calc_tier_amts_in_conserves [OF default_pool_valid default_pool_alloc_1]
    default_pool_valid default_pool_alloc_1 by simp

text \<open>
  C4 (equivalence). The water-filling allocation of a given total is unique: any
  multiplier whose water-filling routes the input amount yields exactly the allocator's
  result. So the iterative repair loop is equivalent to any other solver of the same
  optimisation problem.
\<close>

theorem calc_tier_amts_in_unique:
  assumes "pool_valid p" and "calc_tier_amts_in p is_token0 amount = Inr (amts, msk)"
    and "sum_list (water_fill (tier_lsg p) (tier_res p is_token0) lam) = amount"
  shows "water_fill (tier_lsg p) (tier_res p is_token0) lam = amts"
proof -
  let ?lam = "lagrange_multiplier (tier_lsg p) (tier_res p is_token0) amount msk"
  note facts = calc_tier_amts_in_facts [OF assms(1,2)]
  show ?thesis
    using water_fill_unique [of "tier_lsg p" "tier_res p is_token0" lam ?lam]
      calc_tier_amts_in_wf [OF assms(1,2)] facts assms tier_lsg_nonneg [OF assms(1)]
    by (simp add: length_tier_lsg length_tier_res)
qed

theorem calc_tier_amts_in_unique_witness:
  "pool_valid default_pool \<and> calc_tier_amts_in default_pool True 1 = Inr ([0, 1], [False, True]) \<and>
   sum_list (water_fill (tier_lsg default_pool) (tier_res default_pool True)
     (lagrange_multiplier (tier_lsg default_pool) (tier_res default_pool True) 1 [False, True])) = 1 \<and>
   water_fill (tier_lsg default_pool) (tier_res default_pool True)
     (lagrange_multiplier (tier_lsg default_pool) (tier_res default_pool True) 1 [False, True])
   = [0, 1]"
proof -
  have s: "sum_list (water_fill (tier_lsg default_pool) (tier_res default_pool True)
     (lagrange_multiplier (tier_lsg default_pool) (tier_res default_pool True) 1 [False, True])) = 1"
    by (simp add: eval_simps default_pool_def pool_init_def)
  show ?thesis
    using calc_tier_amts_in_unique [OF default_pool_valid default_pool_alloc_1 s]
      default_pool_valid default_pool_alloc_1 s by simp
qed

text \<open>
  C5 (termination). The feasibility-repair loop makes at most as many passes as the pool
  has tiers, the bound the spec's design notes ask to be asserted.
\<close>

theorem alloc_passes_bound:
  assumes "pool_valid p" and "0 \<le> amount"
  shows "alloc_passes (tier_lsg p) (tier_res p is_token0) amount
           (replicate (pool_size p) True) (replicate (pool_size p) 0) \<le> pool_size p"
proof -
  have "0 < pool_size p"
    using assms(1) by (simp add: pool_valid_def)
  then have "alloc_passes (tier_lsg p) (tier_res p is_token0) amount
           (replicate (pool_size p) True) (replicate (pool_size p) 0)
         \<le> count_list (replicate (pool_size p) True) True"
    using assms by (intro alloc_passes_le_count)
      (simp_all add: length_tier_lsg length_tier_res tier_lsg_pos)
  then show ?thesis by simp
qed

theorem alloc_passes_bound_witness:
  "pool_valid default_pool \<and> (0::real) \<le> 1 \<and>
   alloc_passes (tier_lsg default_pool) (tier_res default_pool True) 1
     (replicate (pool_size default_pool) True) (replicate (pool_size default_pool) 0)
   \<le> pool_size default_pool"
  using alloc_passes_bound [OF default_pool_valid, of 1 True] default_pool_valid by simp

text \<open>
  C6 (error). A negative input fails the allocator's assertion with its message, before
  any work.
\<close>

theorem calc_tier_amts_in_rejects_negative:
  assumes "amount < 0"
  shows "calc_tier_amts_in p is_token0 amount = Inl (AssertionError ''for exact-input order only'')"
  using assms by (simp add: calc_tier_amts_in_def)

theorem calc_tier_amts_in_rejects_negative_witness:
  "(-1::real) < 0 \<and>
   calc_tier_amts_in default_pool True (-1) = Inl (AssertionError ''for exact-input order only'')"
  using calc_tier_amts_in_rejects_negative [of "-1" default_pool True] by simp

lemma tier_lsg_nth:
  "pool_valid p \<Longrightarrow> i < pool_size p \<Longrightarrow>
   tier_lsg p ! i = liquidity_arr p ! i / sqrt_gamma_arr p ! i"
  by (simp add: tier_lsg_def pool_valid_def)

lemma tier_res_nth:
  "pool_valid p \<Longrightarrow> i < pool_size p \<Longrightarrow>
   tier_res p is_token0 ! i =
     (if is_token0 then liquidity_arr p ! i / sqrt_p_arr p ! i / sqrt_gamma_arr p ! i ^ 2
      else liquidity_arr p ! i * sqrt_p_arr p ! i / sqrt_gamma_arr p ! i ^ 2)"
  by (simp add: tier_res_def tier_gamma_def pool_valid_def)

lemma tier_res_pos:
  assumes v: "pool_valid p"
  shows "list_all (\<lambda>r. 0 < r) (tier_res p is_token0)"
proof -
  have "0 < tier_res p is_token0 ! i" if i: "i < pool_size p" for i
    using pool_valid_nth [OF v i] by (simp add: tier_res_nth [OF v i])
  then show ?thesis
    using v by (simp add: list_all_length length_tier_res)
qed

lemma lagrange_multiplier_pos:
  assumes "pool_valid p" and "0 \<le> amount" and "length msk = pool_size p" and "True \<in> set msk"
  shows "0 < lagrange_multiplier (tier_lsg p) (tier_res p is_token0) amount msk"
proof -
  have "0 < msum msk (tier_lsg p)" and "0 < msum msk (tier_res p is_token0)"
    using msum_pos [of msk "tier_lsg p"] msum_pos [of msk "tier_res p is_token0"] assms
    by (simp_all add: length_tier_lsg length_tier_res tier_lsg_pos tier_res_pos)
  then show ?thesis
    using assms(2) by (simp add: lagrange_multiplier_def)
qed

subsection \<open>Water-filling in stages\<close>

lemma sum_list_map2_plus:
  "length xs = length ys \<Longrightarrow> sum_list (map2 (+) xs ys) = sum_list xs + (sum_list ys :: real)"
  by (induction xs ys rule: list_induct2) simp_all

lemma length_water_fill [simp]: "length (water_fill lsg res lam) = min (length lsg) (length res)"
  by (simp add: water_fill_def)

lemma water_fill_nonneg: "list_all (\<lambda>a. 0 \<le> a) (water_fill lsg res lam)"
  by (simp add: water_fill_def list_all_length)

lemma water_fill_sum_mono:
  assumes "list_all (\<lambda>l. 0 \<le> l) lsg" and "length res = length lsg" and "lam1 \<le> lam2"
  shows "sum_list (water_fill lsg res lam1) \<le> sum_list (water_fill lsg res lam2)"
proof -
  have "\<forall>i<length lsg. water_fill lsg res lam1 ! i \<le> water_fill lsg res lam2 ! i"
    using water_fill_mono [OF assms] by blast
  then show ?thesis
    using assms(2) by (auto simp: sum_list_eq_sum intro!: sum_mono)
qed

text \<open>
  Raising the multiplier from \<open>lam1\<close> to \<open>lam\<close> in one go, or first to \<open>lam1\<close> and then,
  on the reserves the first stage has increased, to \<open>lam\<close>, fills the same amounts.
\<close>

lemma max_shift:
  assumes "0 \<le> (l :: real)" and "lam1 \<le> lam"
  shows "max 0 (l * lam - r) = max 0 (l * lam1 - r) + max 0 (l * lam - (r + max 0 (l * lam1 - r)))"
  using mult_left_mono [OF assms(2,1)] by (simp add: max_def)

lemma water_fill_shift:
  assumes "list_all (\<lambda>l. 0 \<le> l) lsg" and "length res = length lsg" and "lam1 \<le> lam"
  shows "water_fill lsg res lam =
         map2 (+) (water_fill lsg res lam1)
           (water_fill lsg (map2 (+) res (water_fill lsg res lam1)) lam)"
proof (rule nth_equalityI)
  fix i
  assume "i < length (water_fill lsg res lam)"
  then have "i < length lsg" and "0 \<le> lsg ! i"
    using assms by (simp_all add: list_all_length)
  then show "water_fill lsg res lam ! i =
      map2 (+) (water_fill lsg res lam1) (water_fill lsg (map2 (+) res (water_fill lsg res lam1)) lam) ! i"
    using assms(2) max_shift [OF _ assms(3), of "lsg ! i" "res ! i"] by (simp add: water_fill_def)
qed (use assms(2) in simp)

text \<open>
  Staged filling: if the first stage routes \<open>a\<close>, the combined filling routes \<open>a + b\<close>,
  and a second stage on the raised reserves routes \<open>b \<ge> 0\<close>, the combined filling is the
  sum of the two stages.
\<close>

lemma water_fill_split:
  assumes lsg: "list_all (\<lambda>l. 0 \<le> l) lsg" and len: "length res = length lsg"
    and s1: "sum_list (water_fill lsg res lam1) = a"
    and s: "sum_list (water_fill lsg res lam) = a + b" and b: "0 \<le> b"
    and s2: "sum_list (water_fill lsg (map2 (+) res (water_fill lsg res lam1)) lam2) = b"
  shows "water_fill lsg res lam =
         map2 (+) (water_fill lsg res lam1) (water_fill lsg (map2 (+) res (water_fill lsg res lam1)) lam2)"
proof -
  let ?x = "water_fill lsg res lam1"
  let ?res1 = "map2 (+) res ?x"
  define mu where "mu = max lam lam1"
  have len1: "length ?res1 = length lsg" using len by simp
  have same: "water_fill lsg res lam = water_fill lsg res mu"
  proof (cases "lam1 \<le> lam")
    case True
    then show ?thesis by (simp add: mu_def max_def)
  next
    case False
    then have "sum_list (water_fill lsg res lam) \<le> a"
      using water_fill_sum_mono [OF lsg len, of lam lam1] s1 by simp
    then have "sum_list (water_fill lsg res lam) = sum_list (water_fill lsg res mu)"
      using False s s1 b by (simp add: mu_def max_def)
    then show ?thesis by (rule water_fill_unique [OF lsg len])
  qed
  have shift: "water_fill lsg res mu = map2 (+) ?x (water_fill lsg ?res1 mu)"
    by (rule water_fill_shift [OF lsg len]) (simp add: mu_def)
  have "sum_list (water_fill lsg ?res1 mu) = b"
    using arg_cong [OF shift, of sum_list] same s s1 len
    by (simp add: sum_list_map2_plus)
  then have "water_fill lsg ?res1 mu = water_fill lsg ?res1 lam2"
    using s2 by (intro water_fill_unique [OF lsg len1]) simp
  then show ?thesis
    using same shift by simp
qed

lemma default_pool_alloc_2:
  "calc_tier_amts_in default_pool True 2 = Inr ([0, 2], [False, True])"
  by (simp add: eval_simps default_pool_def pool_init_def)

lemma default_pool_alloc_0:
  "calc_tier_amts_in default_pool True 0 = Inr ([0, 0], [False, True])"
  by (simp add: eval_simps default_pool_def pool_init_def)

subsection \<open>Order and boundary\<close>

text \<open>
  C25 (safety). The allocation is monotone in the input: a larger order never routes less
  to any tier. A tier that the allocator excludes at some size is thus excluded at every
  smaller size, and one that it includes stays included as the order grows.
\<close>

theorem calc_tier_amts_in_mono:
  assumes v: "pool_valid p" and ca: "calc_tier_amts_in p is_token0 a = Inr (x, m1)"
    and cb: "calc_tier_amts_in p is_token0 b = Inr (y, m2)" and ab: "a \<le> b"
  shows "\<forall>i<pool_size p. x ! i \<le> y ! i"
proof -
  let ?lsg = "tier_lsg p" and ?res = "tier_res p is_token0"
  obtain la lb where x: "x = water_fill ?lsg ?res la" and y: "y = water_fill ?lsg ?res lb"
    using calc_tier_amts_in_wf [OF v ca] calc_tier_amts_in_wf [OF v cb] by blast
  have sx: "sum_list x = a" and sy: "sum_list y = b"
    using calc_tier_amts_in_facts [OF v ca] calc_tier_amts_in_facts [OF v cb] by simp_all
  note lsg = tier_lsg_nonneg [OF v]
  have len: "length ?res = length ?lsg" "length ?lsg = pool_size p"
    using v by (simp_all add: length_tier_lsg length_tier_res)
  show ?thesis
  proof (cases "la \<le> lb")
    case True
    then show ?thesis
      using water_fill_mono [OF lsg len(1) True] x y len by simp
  next
    case False
    then have "b \<le> a"
      using water_fill_sum_mono [OF lsg len(1), of lb la] x y sx sy by simp
    then have "x = y"
      using water_fill_unique [OF lsg len(1), of la lb] x y sx sy ab by simp
    then show ?thesis by simp
  qed
qed

theorem calc_tier_amts_in_mono_witness:
  "pool_valid default_pool \<and> calc_tier_amts_in default_pool True 1 = Inr ([0, 1], [False, True]) \<and>
   calc_tier_amts_in default_pool True 2 = Inr ([0, 2], [False, True]) \<and> (1::real) \<le> 2 \<and>
   [0, 1] ! 1 \<le> ([0, 2] ! 1 :: real)"
  using calc_tier_amts_in_mono [OF default_pool_valid default_pool_alloc_1 default_pool_alloc_2,
      rule_format, of 1]
    default_pool_valid default_pool_alloc_1 default_pool_alloc_2 default_pool_size by simp

text \<open>
  C26 (functional). Boundary input: the allocator accepts an order of zero (its assertion
  is \<open>amount >= 0\<close>) and routes nothing to any tier.
\<close>

theorem calc_tier_amts_in_zero:
  assumes v: "pool_valid p"
  shows "\<exists>msk. calc_tier_amts_in p is_token0 0 = Inr (replicate (pool_size p) 0, msk)"
proof -
  obtain x m where c: "calc_tier_amts_in p is_token0 0 = Inr (x, m)"
    by (cases "alloc_loop (tier_lsg p) (tier_res p is_token0) 0
                 (replicate (pool_size p) True) (replicate (pool_size p) 0)")
       (simp add: calc_tier_amts_in_def)
  have len: "length x = pool_size p" and nn: "list_all (\<lambda>a. 0 \<le> a) x" and s: "sum_list x = 0"
    using calc_tier_amts_in_facts [OF v c] by simp_all
  have "replicate (pool_size p) 0 = x"
    by (rule le_sum_eq_imp_eq) (use len nn s in \<open>simp_all add: list_all_length sum_list_replicate\<close>)
  then show ?thesis using c by blast
qed

theorem calc_tier_amts_in_zero_witness:
  "pool_valid default_pool \<and>
   (\<exists>msk. calc_tier_amts_in default_pool True 0 = Inr (replicate (pool_size default_pool) 0, msk))"
  using calc_tier_amts_in_zero [OF default_pool_valid, of True] default_pool_valid by blast


lemma calc_tier_amts_in_active_iff:
  assumes v: "pool_valid p" and c: "calc_tier_amts_in p is_token0 amount = Inr (amts, msk)"
  shows "\<forall>i<pool_size p. msk ! i \<longleftrightarrow>
           tier_res p is_token0 ! i \<le>
           tier_lsg p ! i * lagrange_multiplier (tier_lsg p) (tier_res p is_token0) amount msk"
proof (intro allI impI)
  fix i
  assume i: "i < pool_size p"
  let ?lam = "lagrange_multiplier (tier_lsg p) (tier_res p is_token0) amount msk"
  note f = calc_tier_amts_in_facts [OF v c]
  have len: "length amts = pool_size p" "length msk = pool_size p" using f by simp_all
  have "list_all (\<lambda>a. 0 \<le> a) amts" using f by blast
  then have nn: "0 \<le> amts ! i" using i len by (simp add: list_all_length)
  have form: "amts ! i = (if msk ! i then tier_lsg p ! i * ?lam - tier_res p is_token0 ! i else 0)"
    using f i by blast
  have out: "\<not> msk ! i \<Longrightarrow> tier_lsg p ! i * ?lam < tier_res p is_token0 ! i"
    using f i len by (simp add: excluded_above_def)
  show "msk ! i \<longleftrightarrow> tier_res p is_token0 ! i \<le> tier_lsg p ! i * ?lam"
    using nn form out by (cases "msk ! i") auto
qed

text \<open>
  C35 (refinement). The repair loop's final active set is exactly the set the
  water-filling specification makes active: a tier is active if and only if its reserve
  lies at or below its weight times the final multiplier, that is, its threshold
  \<open>res / lsg\<close> is at or below the common marginal level the active tiers are moved to.
\<close>

theorem calc_tier_amts_in_active_set:
  assumes v: "pool_valid p" and c: "calc_tier_amts_in p is_token0 amount = Inr (amts, msk)"
  shows "\<forall>i<pool_size p. msk ! i \<longleftrightarrow>
           tier_res p is_token0 ! i \<le>
           tier_lsg p ! i * lagrange_multiplier (tier_lsg p) (tier_res p is_token0) amount msk"
  using calc_tier_amts_in_active_iff [OF assms] .

theorem calc_tier_amts_in_active_set_witness:
  "pool_valid default_pool \<and> calc_tier_amts_in default_pool True 1 = Inr ([0, 1], [False, True]) \<and>
   tier_lsg default_pool ! 0 *
     lagrange_multiplier (tier_lsg default_pool) (tier_res default_pool True) 1 [False, True]
     < tier_res default_pool True ! 0 \<and>
   tier_res default_pool True ! 1 \<le> tier_lsg default_pool ! 1 *
     lagrange_multiplier (tier_lsg default_pool) (tier_res default_pool True) 1 [False, True]"
proof -
  note a = calc_tier_amts_in_active_set [OF default_pool_valid default_pool_alloc_1, rule_format]
  have "0 < pool_size default_pool" "1 < pool_size default_pool"
    using default_pool_size by simp_all
  then show ?thesis
    using a [of 0] a [of 1] default_pool_valid default_pool_alloc_1 by (simp add: not_le)
qed

text \<open>
  C36 (safety). A tier is left out of every order too small to reach it: if the order is
  less than what the water-filling needs to bring the tiers up to tier \<open>j\<close>'s threshold
  \<open>res_j / lsg_j\<close>, the repair loop excludes tier \<open>j\<close> and routes nothing to it. This is
  the spec's exclusion scenario for every pool: a small order skips the tiers whose fee
  makes them the most expensive to reach.
\<close>

theorem calc_tier_amts_in_excludes_small:
  assumes v: "pool_valid p" and c: "calc_tier_amts_in p is_token0 amount = Inr (amts, msk)"
    and j: "j < pool_size p"
    and small: "amount < sum_list (water_fill (tier_lsg p) (tier_res p is_token0)
                                     (tier_res p is_token0 ! j / tier_lsg p ! j))"
  shows "amts ! j = 0 \<and> \<not> msk ! j"
proof -
  let ?lsg = "tier_lsg p" and ?res = "tier_res p is_token0"
  let ?lam = "lagrange_multiplier ?lsg ?res amount msk" and ?t = "?res ! j / ?lsg ! j"
  note f = calc_tier_amts_in_facts [OF v c]
  have len: "length ?res = length ?lsg" "length ?lsg = pool_size p"
    using v by (simp_all add: length_tier_lsg length_tier_res)
  have sum: "sum_list (water_fill ?lsg ?res ?lam) = amount"
    using calc_tier_amts_in_wf [OF v c] f by simp
  have lt: "?lam < ?t"
  proof (rule ccontr)
    assume "\<not> ?lam < ?t"
    then have "sum_list (water_fill ?lsg ?res ?t) \<le> amount"
      using water_fill_sum_mono [OF tier_lsg_nonneg [OF v] len(1), of ?t ?lam] sum by simp
    then show False using small by simp
  qed
  have l: "0 < ?lsg ! j"
    using tier_lsg_pos [OF v] j len by (simp add: list_all_length)
  have "?lsg ! j * ?lam < ?res ! j"
    using mult_strict_left_mono [OF lt l] l by simp
  then have off: "\<not> msk ! j"
    using calc_tier_amts_in_active_iff [OF v c, rule_format, OF j] by simp
  then have "amts ! j = 0"
    using f j by simp
  then show ?thesis using off by simp
qed

theorem calc_tier_amts_in_excludes_small_witness:
  "pool_valid default_pool \<and> calc_tier_amts_in default_pool True 1 = Inr ([0, 1], [False, True]) \<and>
   0 < pool_size default_pool \<and>
   1 < sum_list (water_fill (tier_lsg default_pool) (tier_res default_pool True)
                  (tier_res default_pool True ! 0 / tier_lsg default_pool ! 0)) \<and>
   [0, 1] ! 0 = (0::real) \<and> \<not> [False, True] ! 0"
proof -
  have s: "1 < sum_list (water_fill (tier_lsg default_pool) (tier_res default_pool True)
                  (tier_res default_pool True ! 0 / tier_lsg default_pool ! 0))"
    by (simp add: eval_simps default_pool_def pool_init_def)
  have n: "0 < pool_size default_pool" using default_pool_size by simp
  show ?thesis
    using calc_tier_amts_in_excludes_small [OF default_pool_valid default_pool_alloc_1 n s]
      default_pool_valid default_pool_alloc_1 n s by simp
qed

end
