(* ===== verification/Swap.thy ===== *)
theory Swap
  imports PriceAlgebra Allocator
begin

text \<open>
  The Swap Orchestrator, \<open>Pool.swap\<close> (lines 31--71 of \<open>src/muffin_fullrange.py\<close>).
  \<open>swap\<close> follows the method statement by statement: the exact-input assertion, the
  allocator call, the masked fee, price and output arrays, the commit of the new prices and
  of the fee growth of the sold token, and the result dictionary (the record
  \<open>swap_result\<close>, whose fields carry the dictionary's keys with a prefix \<open>sr_\<close>).
  \<open>tier_swap\<close> is the same computation for one tier, written as a scalar function; the
  lemma \<open>swap_tiers\<close> shows that the vectorised method computes it for every tier.
\<close>

record swap_result =
  sr_amt_in :: real
  sr_amt_out :: real
  sr_fee_amt :: real
  sr_fee_bps :: real
  sr_amts_in :: farray
  sr_amts_out :: farray
  sr_fee_amts :: farray

definition swap :: "pool \<Rightarrow> bool \<Rightarrow> real \<Rightarrow> error + (swap_result \<times> pool)" where
  "swap p is_token0 amt_desired =
     (let is_exact_in = amt_desired > 0 in
      if \<not> is_exact_in then Inl (AssertionError '''')
      else case calc_tier_amts_in p is_token0 amt_desired of
        Inl e \<Rightarrow> Inl e
      | Inr (amts_in, msk) \<Rightarrow>
        let n = pool_size p;
            gamma = map (\<lambda>g. g ^ 2) (sqrt_gamma_arr p);
            amts_in_after_fee = scatter msk
              (map2 (*) (compress msk amts_in) (compress msk gamma)) (replicate n 0);
            sqrt_p_new = scatter msk
              (map3 (calc_sqrt_p_from_amt is_token0) (compress msk (sqrt_p_arr p))
                 (compress msk (liquidity_arr p)) (compress msk amts_in_after_fee))
              (replicate n 0);
            amts_out = scatter msk
              (map3 (calc_amt_from_sqrt_p (\<not> is_token0)) (compress msk (sqrt_p_arr p))
                 (compress msk sqrt_p_new) (compress msk (liquidity_arr p)))
              (replicate n 0);
            fee_amts = scatter msk
              (map2 (-) (compress msk amts_in) (compress msk amts_in_after_fee)) (replicate n 0);
            p1 = p\<lparr>sqrt_p_arr := scatter msk (compress msk sqrt_p_new) (sqrt_p_arr p)\<rparr>;
            fee_growth_arr = (if is_token0 = is_exact_in then fee0_growth_arr p1 else fee1_growth_arr p1);
            fee_growth_arr' = scatter msk
              (map2 (+) (compress msk fee_growth_arr)
                 (map2 (/) (compress msk fee_amts) (compress msk (liquidity_arr p1))))
              fee_growth_arr;
            p2 = (if is_token0 = is_exact_in then p1\<lparr>fee0_growth_arr := fee_growth_arr'\<rparr>
                  else p1\<lparr>fee1_growth_arr := fee_growth_arr'\<rparr>)
        in Inr (\<lparr>sr_amt_in = msum msk amts_in,
                 sr_amt_out = msum msk amts_out,
                 sr_fee_amt = msum msk fee_amts,
                 sr_fee_bps = msum msk fee_amts / msum msk amts_in * 10000,
                 sr_amts_in = amts_in,
                 sr_amts_out = amts_out,
                 sr_fee_amts = fee_amts\<rparr>, p2))"

text \<open>One tier of the swap as a scalar function: new square-root price, amount out, fee.\<close>

definition tier_swap :: "bool \<Rightarrow> real \<Rightarrow> real \<Rightarrow> real \<Rightarrow> real \<Rightarrow> real \<times> real \<times> real" where
  "tier_swap is_token0 sqrt_p liquidity gamma amt_in =
     (let amt_in_after_fee = amt_in * gamma;
          sqrt_p_new = calc_sqrt_p_from_amt is_token0 sqrt_p liquidity amt_in_after_fee
      in (sqrt_p_new, calc_amt_from_sqrt_p (\<not> is_token0) sqrt_p sqrt_p_new liquidity,
          amt_in - amt_in_after_fee))"

text \<open>
  The fee-adjusted marginal price of a tier for the token being sold: the quantity the
  allocator equalises across the tiers it routes to.
\<close>

definition marginal_price :: "bool \<Rightarrow> real \<Rightarrow> real \<Rightarrow> real" where
  "marginal_price is_token0 sqrt_p sqrt_gamma =
     (if is_token0 then 1 / (sqrt_p * sqrt_gamma) else sqrt_p / sqrt_gamma)"

text \<open>The result of selling one unit of token0 into the default pool.\<close>

abbreviation swap1_result :: swap_result where
  "swap1_result \<equiv> \<lparr>sr_amt_in = 1, sr_amt_out = - (999400090000 / 1000099940009),
     sr_fee_amt = 59991 / 100000000, sr_fee_bps = 59991 / 10000,
     sr_amts_in = [0, 1], sr_amts_out = [0, - (999400090000 / 1000099940009)],
     sr_fee_amts = [0, 59991 / 100000000]\<rparr>"

abbreviation swap1_pool :: pool where
  "swap1_pool \<equiv> \<lparr>pool_size = 2, liquidity_arr = [10000, 10000],
     sqrt_p_arr = [1, 1000000000000 / 1000099940009],
     sqrt_gamma_arr = [1997 / 2000, 9997 / 10000],
     fee0_growth_arr = [0, 59991 / 1000000000000], fee1_growth_arr = [0, 0]\<rparr>"

subsection \<open>Reading the vectorised swap tier by tier\<close>

lemma swap_Inr_D:
  "swap p is_token0 a = Inr (r, p') \<Longrightarrow>
   0 < a \<and> (\<exists>msk. calc_tier_amts_in p is_token0 a = Inr (sr_amts_in r, msk))"
  by (auto simp: swap_def Let_def split: if_splits sum.splits)

lemma swap_tiers:
  assumes v: "pool_valid p" and c: "calc_tier_amts_in p is_token0 a = Inr (amts_in, msk)"
    and s: "swap p is_token0 a = Inr (r, p')" and i: "i < pool_size p"
  shows "(sqrt_p_arr p' ! i, sr_amts_out r ! i, sr_fee_amts r ! i) =
         (if msk ! i
          then tier_swap is_token0 (sqrt_p_arr p ! i) (liquidity_arr p ! i) (tier_gamma p ! i) (amts_in ! i)
          else (sqrt_p_arr p ! i, 0, 0))"
proof -
  have a: "0 < a" using swap_Inr_D [OF s] by simp
  note f = calc_tier_amts_in_facts [OF v c]
  show ?thesis
    using s a c f v i
    by (cases is_token0)
       (auto simp: swap_def Let_def pool_valid_def mask_fold_all tier_swap_def tier_gamma_def)
qed

lemma swap_frame:
  assumes v: "pool_valid p" and c: "calc_tier_amts_in p is_token0 a = Inr (amts_in, msk)"
    and s: "swap p is_token0 a = Inr (r, p')"
  shows "pool_size p' = pool_size p \<and> liquidity_arr p' = liquidity_arr p \<and>
         sqrt_gamma_arr p' = sqrt_gamma_arr p \<and>
         length (sqrt_p_arr p') = pool_size p \<and>
         length (fee0_growth_arr p') = pool_size p \<and> length (fee1_growth_arr p') = pool_size p \<and>
         (is_token0 \<longrightarrow> fee1_growth_arr p' = fee1_growth_arr p) \<and>
         (\<not> is_token0 \<longrightarrow> fee0_growth_arr p' = fee0_growth_arr p) \<and>
         sr_amts_in r = amts_in \<and>
         length (sr_amts_out r) = pool_size p \<and> length (sr_fee_amts r) = pool_size p \<and>
         sr_amt_in r = msum msk amts_in \<and> sr_amt_out r = msum msk (sr_amts_out r) \<and>
         sr_fee_amt r = msum msk (sr_fee_amts r) \<and>
         sr_fee_bps r = sr_fee_amt r / sr_amt_in r * 10000"
proof -
  have a: "0 < a" using swap_Inr_D [OF s] by simp
  note f = calc_tier_amts_in_facts [OF v c]
  show ?thesis
    using s a c f v
    by (cases is_token0) (auto simp: swap_def Let_def pool_valid_def mask_fold_all)
qed

lemma swap_fee_growth:
  assumes v: "pool_valid p" and c: "calc_tier_amts_in p is_token0 a = Inr (amts_in, msk)"
    and s: "swap p is_token0 a = Inr (r, p')" and i: "i < pool_size p"
  shows "fee0_growth_arr p' ! i = fee0_growth_arr p ! i +
           (if is_token0 \<and> msk ! i then sr_fee_amts r ! i / liquidity_arr p ! i else 0) \<and>
         fee1_growth_arr p' ! i = fee1_growth_arr p ! i +
           (if \<not> is_token0 \<and> msk ! i then sr_fee_amts r ! i / liquidity_arr p ! i else 0)"
proof -
  have a: "0 < a" using swap_Inr_D [OF s] by simp
  note f = calc_tier_amts_in_facts [OF v c]
  show ?thesis
    using s a c f v i
    by (cases is_token0) (auto simp: swap_def Let_def pool_valid_def mask_fold_all)
qed

subsection \<open>One tier\<close>

lemma tier_swap_fee_nonneg:
  "0 \<le> amt_in \<Longrightarrow> gamma \<le> 1 \<Longrightarrow> 0 \<le> snd (snd (tier_swap t sqrt_p l gamma amt_in))"
  by (simp add: tier_swap_def Let_def mult_left_le)

lemma tier_swap_sqrt_p_pos:
  "0 < l \<Longrightarrow> 0 < sqrt_p \<Longrightarrow> 0 \<le> gamma \<Longrightarrow> 0 \<le> amt_in \<Longrightarrow>
   0 < fst (tier_swap t sqrt_p l gamma amt_in)"
  by (simp add: tier_swap_def Let_def calc_sqrt_p_pos)

lemma tier_swap_price_moves:
  assumes "0 < l" and "0 < sqrt_p" and "0 < gamma" and "0 < amt_in"
  shows "if t then fst (tier_swap t sqrt_p l gamma amt_in) < sqrt_p
         else sqrt_p < fst (tier_swap t sqrt_p l gamma amt_in)"
proof -
  have pos: "0 < amt_in * gamma" using assms by simp
  show ?thesis
  proof (cases t)
    case True
    then show ?thesis
      using calc_sqrt_p_token0_decreasing [OF assms(1,2) order_refl pos] assms
      by (simp add: tier_swap_def Let_def calc_sqrt_p_zero_amt)
  next
    case False
    then show ?thesis
      using calc_sqrt_p_token1_increasing [OF assms(1) pos, of sqrt_p] assms
      by (simp add: tier_swap_def Let_def calc_sqrt_p_zero_amt)
  qed
qed

lemma tier_swap_out_neg:
  assumes "0 < l" and "0 < sqrt_p" and "0 < gamma" and "0 < amt_in"
  shows "fst (snd (tier_swap t sqrt_p l gamma amt_in)) < 0"
proof -
  let ?s = "fst (tier_swap t sqrt_p l gamma amt_in)"
  have s: "0 < ?s"
    using assms by (intro tier_swap_sqrt_p_pos) simp_all
  have mv: "if t then ?s < sqrt_p else sqrt_p < ?s"
    by (rule tier_swap_price_moves [OF assms])
  have out: "fst (snd (tier_swap t sqrt_p l gamma amt_in)) = calc_amt_from_sqrt_p (\<not> t) sqrt_p ?s l"
    by (simp add: tier_swap_def Let_def)
  show ?thesis
  proof (cases t)
    case True
    then show ?thesis
      using mv assms out by (simp add: calc_amt_from_sqrt_p_def mult_pos_neg)
  next
    case False
    then have "l * (sqrt_p - ?s) < 0"
      using mv assms by (simp add: mult_pos_neg)
    then show ?thesis
      using False out s assms by (simp add: calc_amt_from_sqrt_p_def divide_neg_pos)
  qed
qed

lemma swap_inactive_zero:
  assumes "pool_valid p" and "calc_tier_amts_in p is_token0 a = Inr (amts_in, msk)"
    and "i < pool_size p" and "\<not> msk ! i"
  shows "amts_in ! i = 0"
  using calc_tier_amts_in_facts [OF assms(1,2)] assms(3,4) by simp

lemma swap_amts_in_nonneg:
  assumes "pool_valid p" and "calc_tier_amts_in p is_token0 a = Inr (amts_in, msk)"
    and "i < pool_size p"
  shows "0 \<le> amts_in ! i"
proof -
  have "list_all (\<lambda>x. 0 \<le> x) amts_in" and "length amts_in = pool_size p"
    using calc_tier_amts_in_facts [OF assms(1,2)] by simp_all
  then show ?thesis
    using assms(3) by (simp add: list_all_length)
qed

lemma tier_gamma_nth: "pool_valid p \<Longrightarrow> i < pool_size p \<Longrightarrow> tier_gamma p ! i = sqrt_gamma_arr p ! i ^ 2"
  by (simp add: tier_gamma_def pool_valid_def)

lemma tier_gamma_bounds:
  "pool_valid p \<Longrightarrow> i < pool_size p \<Longrightarrow> 0 < tier_gamma p ! i \<and> tier_gamma p ! i \<le> 1"
  using pool_valid_nth [of p i] by (simp add: tier_gamma_nth power_le_one)

lemmas swap_tier_facts = swap_tiers swap_inactive_zero swap_amts_in_nonneg tier_gamma_bounds
  pool_valid_nth

lemma default_pool_swap_1: "swap default_pool True 1 = Inr (swap1_result, swap1_pool)"
  by (simp add: swap_def eval_simps default_pool_def pool_init_def)

lemma swap_inactive_tier:
  assumes v: "pool_valid p" and c: "calc_tier_amts_in p is_token0 a = Inr (amts_in, msk)"
    and s: "swap p is_token0 a = Inr (r, p')" and i: "i < pool_size p" and off: "\<not> msk ! i"
  shows "sr_amts_in r ! i = 0 \<and> sr_amts_out r ! i = 0 \<and> sr_fee_amts r ! i = 0 \<and>
         sqrt_p_arr p' ! i = sqrt_p_arr p ! i"
  using swap_tiers [OF v c s i] swap_inactive_zero [OF v c i off] swap_frame [OF v c s] off by simp

lemma swap_tier_fee:
  assumes v: "pool_valid p" and s: "swap p is_token0 a = Inr (r, p')" and i: "i < pool_size p"
  shows "sr_fee_amts r ! i = sr_amts_in r ! i - sr_amts_in r ! i * sqrt_gamma_arr p ! i ^ 2"
proof -
  obtain msk where c: "calc_tier_amts_in p is_token0 a = Inr (sr_amts_in r, msk)"
    using swap_Inr_D [OF s] by blast
  show ?thesis
  proof (cases "msk ! i")
    case True
    then show ?thesis
      using swap_tiers [OF v c s i] tier_gamma_nth [OF v i] by (simp add: tier_swap_def Let_def)
  next
    case False
    then show ?thesis
      using swap_inactive_tier [OF v c s i False] by simp
  qed
qed

lemma swap_fee_nonneg:
  assumes v: "pool_valid p" and s: "swap p is_token0 a = Inr (r, p')" and i: "i < pool_size p"
  shows "0 \<le> sr_fee_amts r ! i"
proof -
  obtain msk where c: "calc_tier_amts_in p is_token0 a = Inr (sr_amts_in r, msk)"
    using swap_Inr_D [OF s] by blast
  have "0 \<le> sr_amts_in r ! i" and "sqrt_gamma_arr p ! i ^ 2 \<le> 1"
    using swap_amts_in_nonneg [OF v c i] tier_gamma_bounds [OF v i] tier_gamma_nth [OF v i] by simp_all
  then show ?thesis
    using swap_tier_fee [OF v s i] by (simp add: mult_left_le)
qed

lemma swap_sum_inactive_zero:
  assumes v: "pool_valid p" and c: "calc_tier_amts_in p is_token0 a = Inr (amts_in, msk)"
    and s: "swap p is_token0 a = Inr (r, p')"
  shows "msum msk (sr_amts_in r) = sum_list (sr_amts_in r) \<and>
         msum msk (sr_amts_out r) = sum_list (sr_amts_out r) \<and>
         msum msk (sr_fee_amts r) = sum_list (sr_fee_amts r)"
  using swap_frame [OF v c s] calc_tier_amts_in_facts [OF v c] swap_inactive_tier [OF v c s]
  by (simp add: msum_eq_sum_list)

subsection \<open>Properties of the swap\<close>

text \<open>
  C7 (error). A swap whose amount is not positive fails the exact-input assertion
  (line 34) and changes nothing: the model returns the error and no pool.
\<close>

theorem swap_rejects_nonpositive:
  assumes "\<not> 0 < amt_desired"
  shows "swap p is_token0 amt_desired = Inl (AssertionError '''')"
  using assms by (simp add: swap_def)

theorem swap_rejects_nonpositive_witness:
  "\<not> (0::real) < 0 \<and> swap default_pool True 0 = Inl (AssertionError '''')"
  using swap_rejects_nonpositive [of 0 default_pool True] by simp

text \<open>
  C8 (functional). Amount conservation: the reported input is exactly the amount sold,
  and the aggregate input, output and fee are the sums of the per-tier arrays.
\<close>

theorem swap_conserves:
  assumes v: "pool_valid p" and s: "swap p is_token0 a = Inr (r, p')"
  shows "sr_amt_in r = a \<and> sum_list (sr_amts_in r) = a \<and>
         sr_amt_out r = sum_list (sr_amts_out r) \<and> sr_fee_amt r = sum_list (sr_fee_amts r)"
proof -
  obtain msk where c: "calc_tier_amts_in p is_token0 a = Inr (sr_amts_in r, msk)"
    using swap_Inr_D [OF s] by blast
  show ?thesis
    using swap_sum_inactive_zero [OF v c s] swap_frame [OF v c s] calc_tier_amts_in_facts [OF v c]
    by simp
qed

theorem swap_conserves_witness:
  "pool_valid default_pool \<and> swap default_pool True 1 = Inr (swap1_result, swap1_pool) \<and>
   sr_amt_in swap1_result = 1 \<and> sum_list (sr_amts_in swap1_result) = 1 \<and>
   sr_amt_out swap1_result = sum_list (sr_amts_out swap1_result) \<and>
   sr_fee_amt swap1_result = sum_list (sr_fee_amts swap1_result)"
  using swap_conserves [OF default_pool_valid default_pool_swap_1] default_pool_valid
    default_pool_swap_1 by simp

text \<open>
  C9 (functional). The fee identity: on every tier, input minus fee is the input times
  \<open>sqrt_gamma^2\<close>.
\<close>

theorem swap_fee_identity:
  assumes "pool_valid p" and "swap p is_token0 a = Inr (r, p')"
  shows "\<forall>i<pool_size p. sr_amts_in r ! i - sr_fee_amts r ! i = sr_amts_in r ! i * sqrt_gamma_arr p ! i ^ 2"
  using swap_tier_fee [OF assms] by simp

theorem swap_fee_identity_witness:
  "pool_valid default_pool \<and> swap default_pool True 1 = Inr (swap1_result, swap1_pool) \<and>
   1 < pool_size default_pool \<and>
   sr_amts_in swap1_result ! 1 - sr_fee_amts swap1_result ! 1
     = sr_amts_in swap1_result ! 1 * sqrt_gamma_arr default_pool ! 1 ^ 2"
  using swap_fee_identity [OF default_pool_valid default_pool_swap_1, rule_format, of 1] default_pool_valid
    default_pool_swap_1 default_pool_size by simp

text \<open>
  C10 (safety). Price monotonicity: on every tier that receives a positive amount, selling
  token0 strictly lowers the square-root price and selling token1 strictly raises it.
\<close>

theorem swap_price_moves:
  assumes v: "pool_valid p" and s: "swap p is_token0 a = Inr (r, p')"
  shows "\<forall>i<pool_size p. 0 < sr_amts_in r ! i \<longrightarrow>
           (if is_token0 then sqrt_p_arr p' ! i < sqrt_p_arr p ! i
            else sqrt_p_arr p ! i < sqrt_p_arr p' ! i)"
proof (intro allI impI)
  fix i
  assume i: "i < pool_size p" and pos: "0 < sr_amts_in r ! i"
  obtain msk where c: "calc_tier_amts_in p is_token0 a = Inr (sr_amts_in r, msk)"
    using swap_Inr_D [OF s] by blast
  have on: "msk ! i"
    using swap_inactive_tier [OF v c s i] pos by (cases "msk ! i") auto
  have "if is_token0
        then fst (tier_swap is_token0 (sqrt_p_arr p ! i) (liquidity_arr p ! i) (tier_gamma p ! i)
                   (sr_amts_in r ! i)) < sqrt_p_arr p ! i
        else sqrt_p_arr p ! i < fst (tier_swap is_token0 (sqrt_p_arr p ! i) (liquidity_arr p ! i)
                   (tier_gamma p ! i) (sr_amts_in r ! i))"
    using pool_valid_nth [OF v i] tier_gamma_bounds [OF v i] pos
    by (intro tier_swap_price_moves) simp_all
  then show "if is_token0 then sqrt_p_arr p' ! i < sqrt_p_arr p ! i
             else sqrt_p_arr p ! i < sqrt_p_arr p' ! i"
    using swap_tiers [OF v c s i] on by (cases is_token0) (simp_all add: prod_eq_iff)
qed

theorem swap_price_moves_witness:
  "pool_valid default_pool \<and> swap default_pool True 1 = Inr (swap1_result, swap1_pool) \<and>
   1 < pool_size default_pool \<and> 0 < sr_amts_in swap1_result ! 1 \<and>
   sqrt_p_arr swap1_pool ! 1 < sqrt_p_arr default_pool ! 1"
  using swap_price_moves [OF default_pool_valid default_pool_swap_1, rule_format, of 1] default_pool_valid
    default_pool_swap_1 default_pool_size by simp

text \<open>No swap decreases either fee-growth accumulator of any tier.\<close>

lemma swap_fee_growth_le:
  assumes v: "pool_valid p" and s: "swap p is_token0 a = Inr (r, p')"
  shows "\<forall>i<pool_size p. fee0_growth_arr p ! i \<le> fee0_growth_arr p' ! i \<and>
                          fee1_growth_arr p ! i \<le> fee1_growth_arr p' ! i"
proof (intro allI impI)
  fix i
  assume i: "i < pool_size p"
  obtain msk where c: "calc_tier_amts_in p is_token0 a = Inr (sr_amts_in r, msk)"
    using swap_Inr_D [OF s] by blast
  have "0 \<le> sr_fee_amts r ! i / liquidity_arr p ! i"
    using swap_fee_nonneg [OF v s i] pool_valid_nth [OF v i] by simp
  then show "fee0_growth_arr p ! i \<le> fee0_growth_arr p' ! i \<and>
             fee1_growth_arr p ! i \<le> fee1_growth_arr p' ! i"
    using swap_fee_growth [OF v c s i] by simp
qed

text \<open>
  A successful swap keeps the pool well formed: lengths, positive liquidity and prices,
  fee factors in \<open>(0, 1]\<close>, non-negative fee growth.
\<close>

lemma swap_keeps_valid:
  assumes v: "pool_valid p" and s: "swap p is_token0 a = Inr (r, p')"
  shows "pool_valid p'"
proof -
  obtain msk where c: "calc_tier_amts_in p is_token0 a = Inr (sr_amts_in r, msk)"
    using swap_Inr_D [OF s] by blast
  note fr = swap_frame [OF v c s]
  have sp: "\<forall>i<pool_size p. 0 < sqrt_p_arr p' ! i"
  proof (intro allI impI)
    fix i
    assume i: "i < pool_size p"
    show "0 < sqrt_p_arr p' ! i"
    proof (cases "msk ! i")
      case True
      have "0 < fst (tier_swap is_token0 (sqrt_p_arr p ! i) (liquidity_arr p ! i) (tier_gamma p ! i)
                   (sr_amts_in r ! i))"
        using pool_valid_nth [OF v i] tier_gamma_bounds [OF v i] swap_amts_in_nonneg [OF v c i]
        by (intro tier_swap_sqrt_p_pos) simp_all
      then show ?thesis
        using swap_tiers [OF v c s i] True by (simp add: prod_eq_iff)
    next
      case False
      then show ?thesis
        using swap_inactive_tier [OF v c s i] pool_valid_nth [OF v i] by simp
    qed
  qed
  have fg: "\<forall>i<pool_size p. 0 \<le> fee0_growth_arr p' ! i \<and> 0 \<le> fee1_growth_arr p' ! i"
  proof (intro allI impI)
    fix i
    assume i: "i < pool_size p"
    have "0 \<le> sr_fee_amts r ! i / liquidity_arr p ! i"
      using swap_fee_nonneg [OF v s i] pool_valid_nth [OF v i] by simp
    then show "0 \<le> fee0_growth_arr p' ! i \<and> 0 \<le> fee1_growth_arr p' ! i"
      using swap_fee_growth [OF v c s i] pool_valid_nth [OF v i] by simp
  qed
  show ?thesis
    using v fr sp fg by (simp add: pool_valid_def list_all_length)
qed



lemma tier_swap_marginal:
  assumes l: "0 < l" and sp: "0 < sp" and sg: "0 < sg" and lam: "0 < lam"
  shows "marginal_price t (fst (tier_swap t sp l (sg ^ 2)
           (l / sg * lam - (if t then l / sp / sg ^ 2 else l * sp / sg ^ 2))))
         sg = lam"
proof (cases t)
  case True
  have af: "(l / sg * lam - l / sp / sg ^ 2) * sg ^ 2 = l * lam * sg - l / sp"
    using sg sp by (simp add: field_simps power2_eq_square)
  have den: "l + (l * lam * sg - l / sp) * sp = l * lam * sg * sp"
    using sp by (simp add: field_simps)
  have "calc_sqrt_p_from_amt True sp l ((l / sg * lam - l / sp / sg ^ 2) * sg ^ 2)
        = l * sp / (l * lam * sg * sp)"
    by (simp only: calc_sqrt_p_from_amt_def if_True af den)
  also have "\<dots> = 1 / (lam * sg)"
    using l sp by simp
  finally have "fst (tier_swap True sp l (sg ^ 2) (l / sg * lam - l / sp / sg ^ 2)) = 1 / (lam * sg)"
    by (simp add: tier_swap_def Let_def)
  then show ?thesis
    using True sg lam by (simp add: marginal_price_def)
next
  case False
  have "fst (tier_swap False sp l (sg ^ 2) (l / sg * lam - l * sp / sg ^ 2)) = lam * sg"
    using l sg by (simp add: tier_swap_def Let_def calc_sqrt_p_from_amt_def field_simps power2_eq_square)
  then show ?thesis
    using False sg by (simp add: marginal_price_def)
qed

lemma marginal_excluded:
  assumes l: "0 < l" and sp: "0 < sp" and sg: "0 < sg"
    and above: "l / sg * lam < (if t then l / sp / sg ^ 2 else l * sp / sg ^ 2)"
  shows "lam < marginal_price t sp sg"
proof (cases t)
  case True
  then have "l / sg * lam < l / sp / sg ^ 2" using above by simp
  then have "lam < 1 / (sp * sg)"
    using l sp sg by (simp add: field_simps power2_eq_square)
  then show ?thesis using True by (simp add: marginal_price_def)
next
  case False
  then have "l / sg * lam < l * sp / sg ^ 2" using above by simp
  then have "lam < sp / sg"
    using l sp sg by (simp add: field_simps power2_eq_square)
  then show ?thesis using False by (simp add: marginal_price_def)
qed

text \<open>
  C13 (functional). The swap touches nothing else: liquidity, fee factors and size are
  unchanged, the accumulator of the token not sold is unchanged, and a tier that receives
  nothing keeps its price and both accumulators.
\<close>

theorem swap_untouched:
  assumes v: "pool_valid p" and s: "swap p is_token0 a = Inr (r, p')"
  shows "liquidity_arr p' = liquidity_arr p \<and> sqrt_gamma_arr p' = sqrt_gamma_arr p \<and>
         pool_size p' = pool_size p \<and>
         (is_token0 \<longrightarrow> fee1_growth_arr p' = fee1_growth_arr p) \<and>
         (\<not> is_token0 \<longrightarrow> fee0_growth_arr p' = fee0_growth_arr p) \<and>
         (\<forall>i<pool_size p. sr_amts_in r ! i = 0 \<longrightarrow>
            sqrt_p_arr p' ! i = sqrt_p_arr p ! i \<and>
            fee0_growth_arr p' ! i = fee0_growth_arr p ! i \<and>
            fee1_growth_arr p' ! i = fee1_growth_arr p ! i)"
proof -
  obtain msk where c: "calc_tier_amts_in p is_token0 a = Inr (sr_amts_in r, msk)"
    using swap_Inr_D [OF s] by blast
  have zero: "sqrt_p_arr p' ! i = sqrt_p_arr p ! i \<and>
            fee0_growth_arr p' ! i = fee0_growth_arr p ! i \<and>
            fee1_growth_arr p' ! i = fee1_growth_arr p ! i"
    if i: "i < pool_size p" and z: "sr_amts_in r ! i = 0" for i
  proof -
    have "sqrt_p_arr p' ! i = sqrt_p_arr p ! i \<and> sr_fee_amts r ! i = 0"
      using swap_tiers [OF v c s i] pool_valid_nth [OF v i] z
      by (cases "msk ! i") (auto simp: tier_swap_def Let_def calc_sqrt_p_zero_amt)
    then show ?thesis
      using swap_fee_growth [OF v c s i] by simp
  qed
  show ?thesis
    using swap_frame [OF v c s] zero by simp
qed

theorem swap_untouched_witness:
  "pool_valid default_pool \<and> swap default_pool True 1 = Inr (swap1_result, swap1_pool) \<and>
   liquidity_arr swap1_pool = liquidity_arr default_pool \<and>
   sqrt_gamma_arr swap1_pool = sqrt_gamma_arr default_pool \<and>
   pool_size swap1_pool = pool_size default_pool \<and>
   fee1_growth_arr swap1_pool = fee1_growth_arr default_pool \<and>
   0 < pool_size default_pool \<and> sr_amts_in swap1_result ! 0 = 0 \<and>
   sqrt_p_arr swap1_pool ! 0 = sqrt_p_arr default_pool ! 0 \<and>
   fee0_growth_arr swap1_pool ! 0 = fee0_growth_arr default_pool ! 0 \<and>
   fee1_growth_arr swap1_pool ! 0 = fee1_growth_arr default_pool ! 0"
proof -
  note u = swap_untouched [OF default_pool_valid default_pool_swap_1]
  have "sqrt_p_arr swap1_pool ! 0 = sqrt_p_arr default_pool ! 0 \<and>
        fee0_growth_arr swap1_pool ! 0 = fee0_growth_arr default_pool ! 0 \<and>
        fee1_growth_arr swap1_pool ! 0 = fee1_growth_arr default_pool ! 0"
    using u [THEN conjunct2, THEN conjunct2, THEN conjunct2, THEN conjunct2, THEN conjunct2,
        rule_format, of 0] default_pool_size by simp
  then show ?thesis
    using u default_pool_valid default_pool_swap_1 default_pool_size by simp
qed

text \<open>
  C14 (functional). The amounts out are reported as negative numbers (the pool's outflow):
  every tier's output is at most zero, strictly negative on a tier that receives a
  positive amount, and the aggregate \<open>amt_out\<close> is negative. The spec describes them as
  non-negative magnitudes.
\<close>

theorem swap_amts_out_negative:
  assumes v: "pool_valid p" and s: "swap p is_token0 a = Inr (r, p')"
  shows "(\<forall>i<pool_size p. sr_amts_out r ! i \<le> 0 \<and>
            (0 < sr_amts_in r ! i \<longrightarrow> sr_amts_out r ! i < 0)) \<and> sr_amt_out r < 0"
proof -
  obtain msk where c: "calc_tier_amts_in p is_token0 a = Inr (sr_amts_in r, msk)"
    using swap_Inr_D [OF s] by blast
  note fr = swap_frame [OF v c s] and f = calc_tier_amts_in_facts [OF v c]
  have tier: "sr_amts_out r ! i \<le> 0 \<and> (0 < sr_amts_in r ! i \<longrightarrow> sr_amts_out r ! i < 0)"
    if i: "i < pool_size p" for i
  proof (cases "0 < sr_amts_in r ! i")
    case True
    then have on: "msk ! i"
      using swap_inactive_tier [OF v c s i] by (cases "msk ! i") auto
    have "fst (snd (tier_swap is_token0 (sqrt_p_arr p ! i) (liquidity_arr p ! i) (tier_gamma p ! i)
             (sr_amts_in r ! i))) < 0"
      using pool_valid_nth [OF v i] tier_gamma_bounds [OF v i] True
      by (intro tier_swap_out_neg) simp_all
    then show ?thesis
      using swap_tiers [OF v c s i] on True by (simp add: prod_eq_iff)
  next
    case False
    then have "sr_amts_in r ! i = 0"
      using swap_amts_in_nonneg [OF v c i] by simp
    then have "sr_amts_out r ! i = 0"
      using swap_tiers [OF v c s i] pool_valid_nth [OF v i] swap_inactive_tier [OF v c s i]
      by (cases "msk ! i")
         (auto simp: tier_swap_def Let_def calc_sqrt_p_zero_amt calc_amt_from_sqrt_p_def)
    then show ?thesis
      using False by simp
  qed
  have "0 < sum_list (sr_amts_in r)"
    using f swap_Inr_D [OF s] by simp
  then obtain j where j: "j < length (sr_amts_in r)" and pos: "0 < sr_amts_in r ! j"
    using sum_list_pos_ex by blast
  have "sum_list (sr_amts_out r) < 0"
    using tier f fr j pos by (intro sum_list_neg [of _ j]) auto
  then show ?thesis
    using tier swap_sum_inactive_zero [OF v c s] fr by simp
qed

theorem swap_amts_out_negative_witness:
  "pool_valid default_pool \<and> swap default_pool True 1 = Inr (swap1_result, swap1_pool) \<and>
   1 < pool_size default_pool \<and> 0 < sr_amts_in swap1_result ! 1 \<and>
   sr_amts_out swap1_result ! 1 \<le> 0 \<and> sr_amts_out swap1_result ! 1 < 0 \<and>
   sr_amt_out swap1_result < 0"
proof -
  note n = swap_amts_out_negative [OF default_pool_valid default_pool_swap_1]
  have "sr_amts_out swap1_result ! 1 \<le> 0 \<and> sr_amts_out swap1_result ! 1 < 0"
    using n [THEN conjunct1, rule_format, of 1] default_pool_size by simp
  then show ?thesis
    using n default_pool_valid default_pool_swap_1 default_pool_size by simp
qed

text \<open>
  C15 (refinement). The swap realises the optimum the allocator aims at: after the swap
  every active tier's fee-adjusted marginal price equals the Lagrange multiplier of the
  allocation, and every excluded tier's (unchanged) marginal price is already beyond it,
  so no tier could take more input at a better marginal price.
\<close>

theorem swap_equalises_marginal_price:
  assumes v: "pool_valid p" and c: "calc_tier_amts_in p is_token0 a = Inr (amts, msk)"
    and s: "swap p is_token0 a = Inr (r, p')"
  shows "\<forall>i<pool_size p.
           (msk ! i \<longrightarrow> marginal_price is_token0 (sqrt_p_arr p' ! i) (sqrt_gamma_arr p ! i)
              = lagrange_multiplier (tier_lsg p) (tier_res p is_token0) a msk) \<and>
           (\<not> msk ! i \<longrightarrow> lagrange_multiplier (tier_lsg p) (tier_res p is_token0) a msk
              < marginal_price is_token0 (sqrt_p_arr p' ! i) (sqrt_gamma_arr p ! i))"
proof (intro allI impI)
  fix i
  assume i: "i < pool_size p"
  let ?lam = "lagrange_multiplier (tier_lsg p) (tier_res p is_token0) a msk"
  let ?l = "liquidity_arr p ! i" and ?sp = "sqrt_p_arr p ! i" and ?sg = "sqrt_gamma_arr p ! i"
  note f = calc_tier_amts_in_facts [OF v c]
  note nth = pool_valid_nth [OF v i]
  have lam: "0 < ?lam"
    using lagrange_multiplier_pos [OF v] f by simp
  have res: "tier_res p is_token0 ! i =
             (if is_token0 then ?l / ?sp / ?sg ^ 2 else ?l * ?sp / ?sg ^ 2)"
    by (rule tier_res_nth [OF v i])
  show "(msk ! i \<longrightarrow> marginal_price is_token0 (sqrt_p_arr p' ! i) ?sg = ?lam) \<and>
        (\<not> msk ! i \<longrightarrow> ?lam < marginal_price is_token0 (sqrt_p_arr p' ! i) ?sg)"
  proof (cases "msk ! i")
    case True
    have amt: "amts ! i = ?l / ?sg * ?lam - (if is_token0 then ?l / ?sp / ?sg ^ 2 else ?l * ?sp / ?sg ^ 2)"
      using f i True res tier_lsg_nth [OF v i] by simp
    have "sqrt_p_arr p' ! i = fst (tier_swap is_token0 ?sp ?l (?sg ^ 2) (amts ! i))"
      using swap_tiers [OF v c s i] True tier_gamma_nth [OF v i] by (simp add: prod_eq_iff)
    then have "marginal_price is_token0 (sqrt_p_arr p' ! i) ?sg = ?lam"
      using tier_swap_marginal [of ?l ?sp ?sg ?lam is_token0] nth lam amt by simp
    then show ?thesis using True by simp
  next
    case False
    have "tier_lsg p ! i * ?lam < tier_res p is_token0 ! i"
      using f i False by (simp add: excluded_above_def)
    then have "?lam < marginal_price is_token0 ?sp ?sg"
      using marginal_excluded [of ?l ?sp ?sg ?lam is_token0] nth res tier_lsg_nth [OF v i] by simp
    then show ?thesis
      using False swap_inactive_tier [OF v c s i False] by simp
  qed
qed

theorem swap_equalises_marginal_price_witness:
  "pool_valid default_pool \<and> calc_tier_amts_in default_pool True 1 = Inr ([0, 1], [False, True]) \<and>
   swap default_pool True 1 = Inr (swap1_result, swap1_pool) \<and>
   1 < pool_size default_pool \<and> [False, True] ! 1 \<and>
   marginal_price True (sqrt_p_arr swap1_pool ! 1) (sqrt_gamma_arr default_pool ! 1)
     = lagrange_multiplier (tier_lsg default_pool) (tier_res default_pool True) 1 [False, True] \<and>
   \<not> [False, True] ! 0 \<and>
   lagrange_multiplier (tier_lsg default_pool) (tier_res default_pool True) 1 [False, True]
     < marginal_price True (sqrt_p_arr swap1_pool ! 0) (sqrt_gamma_arr default_pool ! 0)"
proof -
  note m = swap_equalises_marginal_price [OF default_pool_valid default_pool_alloc_1 default_pool_swap_1]
  have "marginal_price True (sqrt_p_arr swap1_pool ! 1) (sqrt_gamma_arr default_pool ! 1)
     = lagrange_multiplier (tier_lsg default_pool) (tier_res default_pool True) 1 [False, True]"
    using m [rule_format, of 1] default_pool_size by simp
  moreover have "lagrange_multiplier (tier_lsg default_pool) (tier_res default_pool True) 1 [False, True]
     < marginal_price True (sqrt_p_arr swap1_pool ! 0) (sqrt_gamma_arr default_pool ! 0)"
    using m [rule_format, of 0] default_pool_size by simp
  ultimately show ?thesis
    using default_pool_valid default_pool_alloc_1 default_pool_swap_1 default_pool_size by simp
qed

text \<open>
  C16 (bounds). The reported \<open>fee_bps\<close> is the input-weighted average of the tiers' fee
  rates \<open>(1 - sqrt_gamma^2) * 10000\<close>: whatever bounds hold for every tier's rate hold for
  \<open>fee_bps\<close>.
\<close>

theorem swap_fee_bps_between:
  assumes v: "pool_valid p" and s: "swap p is_token0 a = Inr (r, p')"
    and b: "\<forall>i<pool_size p. lo \<le> (1 - sqrt_gamma_arr p ! i ^ 2) * 10000 \<and>
                            (1 - sqrt_gamma_arr p ! i ^ 2) * 10000 \<le> hi"
  shows "lo \<le> sr_fee_bps r \<and> sr_fee_bps r \<le> hi"
proof -
  obtain msk where c: "calc_tier_amts_in p is_token0 a = Inr (sr_amts_in r, msk)"
    using swap_Inr_D [OF s] by blast
  note fr = swap_frame [OF v c s] and f = calc_tier_amts_in_facts [OF v c]
  note sums = swap_sum_inactive_zero [OF v c s]
  let ?n = "pool_size p"
  let ?w = "\<lambda>i. sr_amts_in r ! i" and ?x = "\<lambda>i. (1 - sqrt_gamma_arr p ! i ^ 2) * 10000"
  have A: "sr_amt_in r = (\<Sum>i<?n. ?w i)"
    using fr f sums by (simp add: sum_list_eq_sum)
  have "sr_fee_amt r = (\<Sum>i<?n. sr_fee_amts r ! i)"
    using fr sums by (simp add: sum_list_eq_sum)
  also have "\<dots> = (\<Sum>i<?n. ?w i * (1 - sqrt_gamma_arr p ! i ^ 2))"
    using swap_tier_fee [OF v s] by (intro sum.cong) (simp_all add: right_diff_distrib)
  finally have F: "sr_fee_amt r * 10000 = (\<Sum>i<?n. ?w i * ?x i)"
    by (simp add: sum_distrib_right mult.assoc)
  have w: "\<forall>i<?n. 0 \<le> ?w i"
    using swap_amts_in_nonneg [OF v c] by simp
  have ain: "sr_amt_in r = a"
    using sums fr f by simp
  have pos: "0 < (\<Sum>i<?n. ?w i)"
    using A ain swap_Inr_D [OF s] by simp
  have "sr_fee_bps r = (\<Sum>i<?n. ?w i * ?x i) / (\<Sum>i<?n. ?w i)"
    using fr A F by simp
  then show ?thesis
    using weighted_average_bounds [OF w b pos] by simp
qed

theorem swap_fee_bps_between_witness:
  "pool_valid default_pool \<and> swap default_pool True 1 = Inr (swap1_result, swap1_pool) \<and>
   5 \<le> (1 - sqrt_gamma_arr default_pool ! 0 ^ 2) * 10000 \<and>
   (1 - sqrt_gamma_arr default_pool ! 0 ^ 2) * 10000 \<le> 30 \<and>
   5 \<le> (1 - sqrt_gamma_arr default_pool ! 1 ^ 2) * 10000 \<and>
   (1 - sqrt_gamma_arr default_pool ! 1 ^ 2) * 10000 \<le> 30 \<and>
   5 \<le> sr_fee_bps swap1_result \<and> sr_fee_bps swap1_result \<le> 30"
proof -
  have b: "\<forall>i<pool_size default_pool. 5 \<le> (1 - sqrt_gamma_arr default_pool ! i ^ 2) * 10000 \<and>
             (1 - sqrt_gamma_arr default_pool ! i ^ 2) * 10000 \<le> 30"
    by (auto simp: default_pool_def pool_init_def less_Suc_eq numeral_2_eq_2 power2_eq_square)
  have "5 \<le> sr_fee_bps swap1_result \<and> sr_fee_bps swap1_result \<le> 30"
    by (rule swap_fee_bps_between [OF default_pool_valid default_pool_swap_1 b])
  then show ?thesis
    using default_pool_valid default_pool_swap_1
    by (simp add: default_pool_def pool_init_def power2_eq_square)
qed

subsection \<open>Every tier by one rule\<close>

text \<open>
  Every tier, active or not, follows one rule: an inactive tier receives zero, and a zero
  input leaves its price where it is, pays out nothing and books no fee.
\<close>

lemma swap_tier_uniform:
  assumes v: "pool_valid p" and s: "swap p is_token0 a = Inr (r, p')" and i: "i < pool_size p"
  shows "sqrt_p_arr p' ! i = calc_sqrt_p_from_amt is_token0 (sqrt_p_arr p ! i) (liquidity_arr p ! i)
           (sr_amts_in r ! i * tier_gamma p ! i) \<and>
         sr_amts_out r ! i = calc_amt_from_sqrt_p (\<not> is_token0) (sqrt_p_arr p ! i) (sqrt_p_arr p' ! i)
           (liquidity_arr p ! i) \<and>
         sr_fee_amts r ! i = sr_amts_in r ! i - sr_amts_in r ! i * tier_gamma p ! i \<and>
         fee0_growth_arr p' ! i = fee0_growth_arr p ! i +
           (if is_token0 then sr_fee_amts r ! i / liquidity_arr p ! i else 0) \<and>
         fee1_growth_arr p' ! i = fee1_growth_arr p ! i +
           (if is_token0 then 0 else sr_fee_amts r ! i / liquidity_arr p ! i)"
proof -
  obtain msk where c: "calc_tier_amts_in p is_token0 a = Inr (sr_amts_in r, msk)"
    using swap_Inr_D [OF s] by blast
  have l: "liquidity_arr p ! i \<noteq> 0" using pool_valid_nth [OF v i] by simp
  note t = swap_tiers [OF v c s i] and g = swap_fee_growth [OF v c s i]
  show ?thesis
  proof (cases "msk ! i")
    case True
    then show ?thesis using t g by (auto simp: tier_swap_def Let_def)
  next
    case False
    then have "sr_amts_in r ! i = 0" using swap_inactive_zero [OF v c i] by simp
    then show ?thesis
      using t g False l by (simp add: calc_sqrt_p_zero_amt calc_amt_from_sqrt_p_same)
  qed
qed

lemma swap_Inr_ex: "0 < a \<Longrightarrow> \<exists>r p'. swap p is_token0 a = Inr (r, p')"
  by (simp add: swap_def calc_tier_amts_in_def Let_def split: prod.split)

lemma swap_amt_in:
  assumes v: "pool_valid p" and s: "swap p is_token0 a = Inr (r, p')"
  shows "sr_amt_in r = a"
proof -
  obtain msk where c: "calc_tier_amts_in p is_token0 a = Inr (sr_amts_in r, msk)"
    using swap_Inr_D [OF s] by blast
  show ?thesis
    using swap_sum_inactive_zero [OF v c s] swap_frame [OF v c s] calc_tier_amts_in_facts [OF v c]
    by simp
qed

end
