(* ===== verification/Sequences.thy ===== *)
theory Sequences
  imports Swap
begin

text \<open>
  Runs of \<open>Pool.swap\<close> (\<open>src/muffin_fullrange.py\<close>, lines 31--71) on one pool: the step
  relation \<open>swap_step\<close>, the set of \<open>reachable\<close> pools (built by \<open>Pool.__init__\<close>
  from valid arguments, then changed by any number of swaps), and what a run preserves and
  guarantees. Each swap reads tier by tier (\<open>swap_tier_uniform\<close>): a tier that receives
  \<open>x\<close> moves its price by \<open>x * gamma\<close>, pays out the amount of that move and books the
  fee \<open>x - x * gamma\<close>. Hence a swap adds each tier's input to that tier's virtual reserve
  of the sold token (\<open>swap_reserves\<close>), and, because the allocator fills reserves to a
  common level (\<open>Allocator.water_fill_split\<close>) and the curve is path independent
  (\<open>PriceAlgebra.calc_sqrt_p_from_amt_add\<close>), two consecutive swaps in one direction
  end in the same pool as one swap of their sum, and two such swaps commute. A round trip
  on a pool of one tier is analysed through the curve algebra of \<open>PriceAlgebra\<close>.
\<close>

section \<open>Sequences of swaps\<close>

text \<open>
  A pool changes only through successful swaps (a failed one raises before any write).
  \<open>swap_step p p'\<close> is one successful swap of any direction and amount; a pool is
  \<open>reachable\<close> when it is built by the constructor from arguments meeting the spec's
  construction precondition and then changed by any number of swap steps. The spec's
  concurrency section asks that swaps on one pool be serialised; the relation models
  exactly such a serial history.
\<close>

inductive swap_step :: "pool \<Rightarrow> pool \<Rightarrow> bool" where
  step: "swap p is_token0 amt = Inr (r, p') \<Longrightarrow> swap_step p p'"

inductive reachable :: "pool \<Rightarrow> bool" where
  init: "init_args_ok liquidity sqrt_gamma sqrt_p \<Longrightarrow>
         reachable (pool_init liquidity sqrt_gamma sqrt_p)"
| swapped: "reachable p \<Longrightarrow> swap_step p p' \<Longrightarrow> reachable p'"

inductive_cases swap_stepE: "swap_step p p'"

text \<open>A pool of one tier, for the round trip below.\<close>

definition single_tier_pool :: pool where
  "single_tier_pool = pool_init [10000] [0.9985] 1"

lemma swap_step_keeps:
  assumes st: "swap_step p p'" and v: "pool_valid p"
  shows "pool_valid p' \<and> pool_size p' = pool_size p \<and>
         (\<forall>i<pool_size p. fee0_growth_arr p ! i \<le> fee0_growth_arr p' ! i \<and>
                          fee1_growth_arr p ! i \<le> fee1_growth_arr p' ! i)"
proof -
  obtain is_token0 amt r where step: "swap p is_token0 amt = Inr (r, p')"
    using st by (rule swap_stepE)
  obtain msk where c: "calc_tier_amts_in p is_token0 amt = Inr (sr_amts_in r, msk)"
    using swap_Inr_D [OF step] by blast
  show ?thesis
    using swap_keeps_valid [OF v step] swap_fee_growth_le [OF v step] swap_frame [OF v c step]
    by simp
qed

lemma swap_steps_keep_valid:
  "swap_step\<^sup>*\<^sup>* p p' \<Longrightarrow> pool_valid p \<Longrightarrow> pool_valid p' \<and> pool_size p' = pool_size p"
proof (induction rule: rtranclp_induct)
  case base
  then show ?case by simp
next
  case (step q q')
  then show ?case using swap_step_keeps [of q q'] by simp
qed

lemma reachable_default_pool: "reachable default_pool"
  unfolding default_pool_def by (rule reachable.init) (simp add: init_args_ok_def)

text \<open>
  C11 (invariant). Fee growth is non-decreasing across any sequence of swaps: after any
  serial history of successful swaps, every tier's fee0 and fee1 accumulators are at least
  what they were.
\<close>

theorem swaps_fee_growth_mono:
  assumes "swap_step\<^sup>*\<^sup>* p p'" and "pool_valid p"
  shows "\<forall>i<pool_size p. fee0_growth_arr p ! i \<le> fee0_growth_arr p' ! i \<and>
                        fee1_growth_arr p ! i \<le> fee1_growth_arr p' ! i"
  using assms
proof (induction rule: rtranclp_induct)
  case base
  then show ?case by simp
next
  case (step q q')
  have q: "pool_valid q \<and> pool_size q = pool_size p"
    using swap_steps_keep_valid [OF step.hyps(1) step.prems] .
  have "\<forall>i<pool_size q. fee0_growth_arr q ! i \<le> fee0_growth_arr q' ! i \<and>
                        fee1_growth_arr q ! i \<le> fee1_growth_arr q' ! i"
    using swap_step_keeps [OF step.hyps(2)] q by simp
  then show ?case
    using step.IH [OF step.prems] q by (fastforce intro: order_trans)
qed

theorem swaps_fee_growth_mono_witness:
  "swap_step\<^sup>*\<^sup>* default_pool swap1_pool \<and> pool_valid default_pool \<and>
   1 < pool_size default_pool \<and>
   fee0_growth_arr default_pool ! 1 \<le> fee0_growth_arr swap1_pool ! 1 \<and>
   fee1_growth_arr default_pool ! 1 \<le> fee1_growth_arr swap1_pool ! 1"
proof -
  have st: "swap_step\<^sup>*\<^sup>* default_pool swap1_pool"
    using swap_step.step [OF default_pool_swap_1] by (rule r_into_rtranclp)
  show ?thesis
    using swaps_fee_growth_mono [OF st default_pool_valid, rule_format, of 1]
      st default_pool_valid default_pool_size by simp
qed

lemma reachable_pool_valid: "reachable p \<Longrightarrow> pool_valid p"
proof (induction rule: reachable.induct)
  case (init liquidity sqrt_gamma sqrt_p)
  then show ?case by (rule pool_init_valid)
next
  case (swapped p p')
  then show ?case using swap_step_keeps by blast
qed

text \<open>
  C12 (invariant). Every reachable pool is well formed: the invariant \<open>pool_valid\<close>
  holds at construction (from valid arguments) and every swap keeps it; proved by rule
  induction over \<open>reachable\<close>.
\<close>

theorem reachable_valid:
  assumes "reachable p"
  shows "pool_valid p"
  using reachable_pool_valid [OF assms] .

theorem reachable_valid_witness: "reachable swap1_pool \<and> pool_valid swap1_pool"
proof -
  have "reachable swap1_pool"
    using reachable_default_pool swap_step.step [OF default_pool_swap_1] by (rule reachable.swapped)
  then show ?thesis using reachable_valid [OF \<open>reachable swap1_pool\<close>] by blast
qed

section \<open>Reserves after a swap\<close>

lemma swap_reserves:
  assumes v: "pool_valid p" and s: "swap p is_token0 a = Inr (r, p')"
  shows "tier_lsg p' = tier_lsg p \<and> tier_gamma p' = tier_gamma p \<and>
         tier_res p' is_token0 = map2 (+) (tier_res p is_token0) (sr_amts_in r)"
proof -
  obtain msk where c: "calc_tier_amts_in p is_token0 a = Inr (sr_amts_in r, msk)"
    using swap_Inr_D [OF s] by blast
  note fr = swap_frame [OF v c s]
  have v': "pool_valid p'" using swap_keeps_valid [OF v s] .
  have res: "tier_res p' is_token0 ! i = tier_res p is_token0 ! i + sr_amts_in r ! i"
    if i: "i < pool_size p" for i
  proof -
    have x: "0 \<le> sr_amts_in r ! i" using swap_amts_in_nonneg [OF v c i] .
    have g: "0 < sqrt_gamma_arr p ! i ^ 2" using pool_valid_nth [OF v i] by simp
    have i': "i < pool_size p'" using fr i by simp
    have sp': "sqrt_p_arr p' ! i = calc_sqrt_p_from_amt is_token0 (sqrt_p_arr p ! i) (liquidity_arr p ! i)
                                     (sr_amts_in r ! i * sqrt_gamma_arr p ! i ^ 2)"
      using swap_tier_uniform [OF v s i] tier_gamma_nth [OF v i] by simp
    have "tier_res p' is_token0 ! i =
          (if is_token0 then liquidity_arr p ! i / sqrt_p_arr p' ! i / sqrt_gamma_arr p ! i ^ 2
           else liquidity_arr p ! i * sqrt_p_arr p' ! i / sqrt_gamma_arr p ! i ^ 2)"
      using tier_res_nth [OF v' i'] fr by simp
    also have "\<dots> = (if is_token0 then liquidity_arr p ! i / sqrt_p_arr p ! i / sqrt_gamma_arr p ! i ^ 2
           else liquidity_arr p ! i * sqrt_p_arr p ! i / sqrt_gamma_arr p ! i ^ 2) + sr_amts_in r ! i"
      unfolding sp' by (rule calc_sqrt_p_reserve [OF pool_valid_nth(1,2) [OF v i] x g])
    also have "\<dots> = tier_res p is_token0 ! i + sr_amts_in r ! i"
      using tier_res_nth [OF v i] by simp
    finally show ?thesis .
  qed
  have len: "length (sr_amts_in r) = pool_size p"
    using calc_tier_amts_in_facts [OF v c] by simp
  have "tier_res p' is_token0 = map2 (+) (tier_res p is_token0) (sr_amts_in r)"
    by (rule nth_equalityI) (use res len fr v v' in \<open>simp_all add: length_tier_res\<close>)
  then show ?thesis
    using fr by (simp add: tier_lsg_def tier_gamma_def)
qed

section \<open>Two swaps in one direction\<close>

lemma swap_alloc_split:
  assumes v: "pool_valid p" and s1: "swap p is_token0 a = Inr (r1, p1)"
    and s2: "swap p1 is_token0 b = Inr (r2, p2)"
    and c: "calc_tier_amts_in p is_token0 (a + b) = Inr (z, m)"
  shows "z = map2 (+) (sr_amts_in r1) (sr_amts_in r2)"
proof -
  let ?lsg = "tier_lsg p" and ?res = "tier_res p is_token0"
  have v1: "pool_valid p1" using swap_keeps_valid [OF v s1] .
  obtain m1 where c1: "calc_tier_amts_in p is_token0 a = Inr (sr_amts_in r1, m1)"
    using swap_Inr_D [OF s1] by blast
  obtain m2 where c2: "calc_tier_amts_in p1 is_token0 b = Inr (sr_amts_in r2, m2)" and b: "0 < b"
    using swap_Inr_D [OF s2] by blast
  obtain l1 where x: "sr_amts_in r1 = water_fill ?lsg ?res l1"
    using calc_tier_amts_in_wf [OF v c1] by blast
  obtain l where z: "z = water_fill ?lsg ?res l"
    using calc_tier_amts_in_wf [OF v c] by blast
  obtain l2 where y: "sr_amts_in r2 = water_fill (tier_lsg p1) (tier_res p1 is_token0) l2"
    using calc_tier_amts_in_wf [OF v1 c2] by blast
  have y': "sr_amts_in r2 = water_fill ?lsg (map2 (+) ?res (water_fill ?lsg ?res l1)) l2"
    using y swap_reserves [OF v s1] x by simp
  have sums: "sum_list (water_fill ?lsg ?res l1) = a" "sum_list (water_fill ?lsg ?res l) = a + b"
    "sum_list (water_fill ?lsg (map2 (+) ?res (water_fill ?lsg ?res l1)) l2) = b"
    using calc_tier_amts_in_facts [OF v c1] calc_tier_amts_in_facts [OF v c]
      calc_tier_amts_in_facts [OF v1 c2] x y' z by simp_all
  have "water_fill ?lsg ?res l = map2 (+) (water_fill ?lsg ?res l1)
          (water_fill ?lsg (map2 (+) ?res (water_fill ?lsg ?res l1)) l2)"
    by (rule water_fill_split [OF tier_lsg_nonneg [OF v] _ sums(1,2) _ sums(3)])
       (use v b in \<open>simp_all add: length_tier_lsg length_tier_res\<close>)
  then show ?thesis
    using x y' z by simp
qed

lemma swap_split_fee_growth:
  assumes v: "pool_valid p" and s1: "swap p is_token0 a = Inr (r1, p1)"
    and s2: "swap p1 is_token0 b = Inr (r2, p2)" and s: "swap p is_token0 c = Inr (r, p')"
    and i: "i < pool_size p"
    and fee: "sr_fee_amts r ! i = sr_fee_amts r1 ! i + sr_fee_amts r2 ! i"
  shows "fee0_growth_arr p' ! i = fee0_growth_arr p2 ! i \<and>
         fee1_growth_arr p' ! i = fee1_growth_arr p2 ! i"
proof -
  have v1: "pool_valid p1" using swap_keeps_valid [OF v s1] .
  obtain m1 where c1: "calc_tier_amts_in p is_token0 a = Inr (sr_amts_in r1, m1)"
    using swap_Inr_D [OF s1] by blast
  have i1: "i < pool_size p1" and l1: "liquidity_arr p1 ! i = liquidity_arr p ! i"
    using swap_frame [OF v c1 s1] i by simp_all
  let ?L = "liquidity_arr p ! i"
  have e: "fee0_growth_arr p' ! i = fee0_growth_arr p ! i +
             (if is_token0 then sr_fee_amts r ! i / ?L else 0)"
    "fee1_growth_arr p' ! i = fee1_growth_arr p ! i +
             (if is_token0 then 0 else sr_fee_amts r ! i / ?L)"
    "fee0_growth_arr p2 ! i = fee0_growth_arr p ! i +
             (if is_token0 then sr_fee_amts r1 ! i / ?L else 0) +
             (if is_token0 then sr_fee_amts r2 ! i / ?L else 0)"
    "fee1_growth_arr p2 ! i = fee1_growth_arr p ! i +
             (if is_token0 then 0 else sr_fee_amts r1 ! i / ?L) +
             (if is_token0 then 0 else sr_fee_amts r2 ! i / ?L)"
    using swap_tier_uniform [OF v s i] swap_tier_uniform [OF v s1 i] swap_tier_uniform [OF v1 s2 i1] l1
    by simp_all
  show ?thesis
    unfolding e fee by (simp add: add_divide_distrib)
qed

lemma swap_split_tier:
  assumes v: "pool_valid p" and s1: "swap p is_token0 a = Inr (r1, p1)"
    and s2: "swap p1 is_token0 b = Inr (r2, p2)" and s: "swap p is_token0 (a + b) = Inr (r, p')"
    and i: "i < pool_size p"
  shows "sqrt_p_arr p' ! i = sqrt_p_arr p2 ! i \<and>
         fee0_growth_arr p' ! i = fee0_growth_arr p2 ! i \<and>
         fee1_growth_arr p' ! i = fee1_growth_arr p2 ! i \<and>
         sr_amts_in r ! i = sr_amts_in r1 ! i + sr_amts_in r2 ! i \<and>
         sr_amts_out r ! i = sr_amts_out r1 ! i + sr_amts_out r2 ! i \<and>
         sr_fee_amts r ! i = sr_fee_amts r1 ! i + sr_fee_amts r2 ! i"
proof -
  have v1: "pool_valid p1" using swap_keeps_valid [OF v s1] .
  have v2: "pool_valid p2" using swap_keeps_valid [OF v1 s2] .
  obtain m where c: "calc_tier_amts_in p is_token0 (a + b) = Inr (sr_amts_in r, m)"
    using swap_Inr_D [OF s] by blast
  obtain m1 where c1: "calc_tier_amts_in p is_token0 a = Inr (sr_amts_in r1, m1)"
    using swap_Inr_D [OF s1] by blast
  obtain m2 where c2: "calc_tier_amts_in p1 is_token0 b = Inr (sr_amts_in r2, m2)"
    using swap_Inr_D [OF s2] by blast
  note fr1 = swap_frame [OF v c1 s1] and fr2 = swap_frame [OF v1 c2 s2]
  have i1: "i < pool_size p1" and i2: "i < pool_size p2" using fr1 fr2 i by simp_all
  have len: "length (sr_amts_in r1) = pool_size p" "length (sr_amts_in r2) = pool_size p"
    using calc_tier_amts_in_facts [OF v c1] calc_tier_amts_in_facts [OF v1 c2] fr1 by simp_all
  have z: "sr_amts_in r ! i = sr_amts_in r1 ! i + sr_amts_in r2 ! i"
    using swap_alloc_split [OF v s1 s2 c] len i by simp
  let ?L = "liquidity_arr p ! i" and ?sp = "sqrt_p_arr p ! i" and ?g = "tier_gamma p ! i"
  let ?x = "sr_amts_in r1 ! i" and ?y = "sr_amts_in r2 ! i"
  have g: "0 < ?g" using tier_gamma_bounds [OF v i] by simp
  have xg: "0 \<le> ?x * ?g" and yg: "0 \<le> ?y * ?g"
    using swap_amts_in_nonneg [OF v c1 i] swap_amts_in_nonneg [OF v1 c2 i1] g by simp_all
  note u = swap_tier_uniform [OF v s i] and u1 = swap_tier_uniform [OF v s1 i]
    and u2 = swap_tier_uniform [OF v1 s2 i1]
  have p1i: "liquidity_arr p1 ! i = ?L" "tier_gamma p1 ! i = ?g"
    using fr1 swap_reserves [OF v s1] by simp_all
  have sp: "sqrt_p_arr p' ! i = sqrt_p_arr p2 ! i"
    using u u1 u2 p1i z calc_sqrt_p_from_amt_add [OF pool_valid_nth(1,2) [OF v i] xg yg]
    by (simp add: distrib_right)
  have out: "sr_amts_out r ! i = sr_amts_out r1 ! i + sr_amts_out r2 ! i"
    using u u1 u2 p1i sp calc_amt_from_sqrt_p_path [of ?sp "sqrt_p_arr p1 ! i" "sqrt_p_arr p2 ! i"]
      pool_valid_nth(2) [OF v i] pool_valid_nth(2) [OF v1 i1] pool_valid_nth(2) [OF v2 i2]
    by simp
  have f: "sr_fee_amts r ! i = sr_amts_in r ! i - sr_amts_in r ! i * ?g"
    "sr_fee_amts r1 ! i = ?x - ?x * ?g" "sr_fee_amts r2 ! i = ?y - ?y * ?g"
    using u u1 u2 p1i by simp_all
  have fee: "sr_fee_amts r ! i = sr_fee_amts r1 ! i + sr_fee_amts r2 ! i"
    unfolding f z by (simp add: algebra_simps)
  have grow: "fee0_growth_arr p' ! i = fee0_growth_arr p2 ! i \<and>
              fee1_growth_arr p' ! i = fee1_growth_arr p2 ! i"
    by (rule swap_split_fee_growth [OF v s1 s2 s i fee])
  show ?thesis
    using sp out fee grow z by simp
qed

lemma list_eq_map2_plus:
  assumes "length zs = n" and "length xs = n" and "length ys = n"
    and "\<forall>i<n. zs ! i = xs ! i + ys ! i"
  shows "zs = map2 (+) xs ys"
  using assms by (intro nth_equalityI) simp_all

lemma swap_split_pool:
  assumes v: "pool_valid p" and s1: "swap p is_token0 a = Inr (r1, p1)"
    and s2: "swap p1 is_token0 b = Inr (r2, p2)" and s: "swap p is_token0 (a + b) = Inr (r, p')"
  shows "p' = p2"
proof -
  have v1: "pool_valid p1" using swap_keeps_valid [OF v s1] .
  obtain m where c: "calc_tier_amts_in p is_token0 (a + b) = Inr (sr_amts_in r, m)"
    using swap_Inr_D [OF s] by blast
  obtain m1 where c1: "calc_tier_amts_in p is_token0 a = Inr (sr_amts_in r1, m1)"
    using swap_Inr_D [OF s1] by blast
  obtain m2 where c2: "calc_tier_amts_in p1 is_token0 b = Inr (sr_amts_in r2, m2)"
    using swap_Inr_D [OF s2] by blast
  note fr = swap_frame [OF v c s] and fr1 = swap_frame [OF v c1 s1] and fr2 = swap_frame [OF v1 c2 s2]
  note t = swap_split_tier [OF v s1 s2 s]
  show ?thesis
  proof (rule pool.equality)
    show "sqrt_p_arr p' = sqrt_p_arr p2"
      by (rule nth_equalityI) (use fr fr1 fr2 t in simp_all)
    show "fee0_growth_arr p' = fee0_growth_arr p2"
      by (rule nth_equalityI) (use fr fr1 fr2 t in simp_all)
    show "fee1_growth_arr p' = fee1_growth_arr p2"
      by (rule nth_equalityI) (use fr fr1 fr2 t in simp_all)
  qed (use fr fr1 fr2 in simp_all)
qed

lemma swap_split:
  assumes v: "pool_valid p" and s1: "swap p is_token0 a = Inr (r1, p1)"
    and s2: "swap p1 is_token0 b = Inr (r2, p2)"
  shows "\<exists>r. swap p is_token0 (a + b) = Inr (r, p2) \<and>
           sr_amts_in r = map2 (+) (sr_amts_in r1) (sr_amts_in r2) \<and>
           sr_amts_out r = map2 (+) (sr_amts_out r1) (sr_amts_out r2) \<and>
           sr_fee_amts r = map2 (+) (sr_fee_amts r1) (sr_fee_amts r2)"
proof -
  have ab: "0 < a + b" using swap_Inr_D [OF s1] swap_Inr_D [OF s2] by simp
  obtain r p' where s: "swap p is_token0 (a + b) = Inr (r, p')"
    using swap_Inr_ex [OF ab] by blast
  have v1: "pool_valid p1" using swap_keeps_valid [OF v s1] .
  obtain m where c: "calc_tier_amts_in p is_token0 (a + b) = Inr (sr_amts_in r, m)"
    using swap_Inr_D [OF s] by blast
  obtain m1 where c1: "calc_tier_amts_in p is_token0 a = Inr (sr_amts_in r1, m1)"
    using swap_Inr_D [OF s1] by blast
  obtain m2 where c2: "calc_tier_amts_in p1 is_token0 b = Inr (sr_amts_in r2, m2)"
    using swap_Inr_D [OF s2] by blast
  note fr = swap_frame [OF v c s] and fr1 = swap_frame [OF v c1 s1] and fr2 = swap_frame [OF v1 c2 s2]
  note f = calc_tier_amts_in_facts [OF v c] calc_tier_amts_in_facts [OF v c1]
    calc_tier_amts_in_facts [OF v1 c2]
  note t = swap_split_tier [OF v s1 s2 s]
  have "sr_amts_in r = map2 (+) (sr_amts_in r1) (sr_amts_in r2)"
    by (rule list_eq_map2_plus [where n = "pool_size p"]) (use f fr1 t in simp_all)
  moreover have "sr_amts_out r = map2 (+) (sr_amts_out r1) (sr_amts_out r2)"
    by (rule list_eq_map2_plus [where n = "pool_size p"]) (use fr fr1 fr2 t in simp_all)
  moreover have "sr_fee_amts r = map2 (+) (sr_fee_amts r1) (sr_fee_amts r2)"
    by (rule list_eq_map2_plus [where n = "pool_size p"]) (use fr fr1 fr2 t in simp_all)
  ultimately show ?thesis
    using s swap_split_pool [OF v s1 s2 s] by blast
qed

text \<open>
  C22 (equivalence). Splitting an order does not matter: two consecutive swaps selling the
  same token, of \<open>a\<close> and then \<open>b\<close>, leave the pool exactly as one swap of \<open>a + b\<close>
  does (prices and both fee-growth accumulators of every tier), and the one swap's
  per-tier amounts in, amounts out and fees are the sums of the two swaps'. The allocator
  fills the tiers' reserves to a common level, so the second leg continues the first.
\<close>

theorem swap_split_invariant:
  assumes v: "pool_valid p" and s1: "swap p is_token0 a = Inr (r1, p1)"
    and s2: "swap p1 is_token0 b = Inr (r2, p2)"
  shows "\<exists>r. swap p is_token0 (a + b) = Inr (r, p2) \<and>
           sr_amts_in r = map2 (+) (sr_amts_in r1) (sr_amts_in r2) \<and>
           sr_amts_out r = map2 (+) (sr_amts_out r1) (sr_amts_out r2) \<and>
           sr_fee_amts r = map2 (+) (sr_fee_amts r1) (sr_fee_amts r2)"
  using swap_split [OF assms] .

theorem swap_split_invariant_witness:
  "pool_valid default_pool \<and> swap default_pool True 1 = Inr (swap1_result, swap1_pool) \<and>
   (\<exists>r2 p2. swap swap1_pool True 1 = Inr (r2, p2) \<and>
      (\<exists>r. swap default_pool True (1 + 1) = Inr (r, p2) \<and>
         sr_amts_in r = map2 (+) (sr_amts_in swap1_result) (sr_amts_in r2) \<and>
         sr_amts_out r = map2 (+) (sr_amts_out swap1_result) (sr_amts_out r2) \<and>
         sr_fee_amts r = map2 (+) (sr_fee_amts swap1_result) (sr_fee_amts r2)))"
proof -
  obtain r2 p2 where s2: "swap swap1_pool True 1 = Inr (r2, p2)"
    using swap_Inr_ex [of 1 swap1_pool True] by auto
  show ?thesis
    using swap_split_invariant [OF default_pool_valid default_pool_swap_1 s2]
      s2 default_pool_valid default_pool_swap_1 by blast
qed

text \<open>
  C23 (functional). A swap adds each tier's input to that tier's virtual reserve of the
  sold token, the quantity \<open>res\<close> of \<open>Pool._calc_tier_amts_in\<close>, and leaves the
  allocation weights \<open>lsg\<close> unchanged: the next allocation in the same direction starts
  from reserves raised by exactly what the pool took in.
\<close>

theorem swap_adds_reserves:
  assumes "pool_valid p" and "swap p is_token0 a = Inr (r, p')"
  shows "tier_lsg p' = tier_lsg p \<and>
         tier_res p' is_token0 = map2 (+) (tier_res p is_token0) (sr_amts_in r)"
  using swap_reserves [OF assms] by simp

theorem swap_adds_reserves_witness:
  "pool_valid default_pool \<and> swap default_pool True 1 = Inr (swap1_result, swap1_pool) \<and>
   tier_lsg swap1_pool = tier_lsg default_pool \<and>
   tier_res swap1_pool True = map2 (+) (tier_res default_pool True) (sr_amts_in swap1_result)"
  using swap_adds_reserves [OF default_pool_valid default_pool_swap_1]
    default_pool_valid default_pool_swap_1 by blast

text \<open>
  C24 (liveness). Progress: from every reachable pool, an order of any positive size, in
  either direction, executes: the swap returns a result, takes in the whole order, and
  leaves a reachable pool. No pool the program can reach is stuck, and the degenerate
  allocation the spec leaves open never blocks a swap.
\<close>

theorem reachable_swap_progress:
  assumes r: "reachable p" and a: "0 < a"
  shows "\<exists>r p'. swap p is_token0 a = Inr (r, p') \<and> sr_amt_in r = a \<and> reachable p'"
proof -
  obtain res p' where s: "swap p is_token0 a = Inr (res, p')"
    using swap_Inr_ex [OF a] by blast
  have "sr_amt_in res = a"
    using swap_amt_in [OF reachable_pool_valid [OF r] s] .
  moreover have "reachable p'"
    using r swap_step.step [OF s] by (rule reachable.swapped)
  ultimately show ?thesis using s by blast
qed

theorem reachable_swap_progress_witness:
  "reachable default_pool \<and> (0::real) < 1000 \<and>
   (\<exists>r p'. swap default_pool False 1000 = Inr (r, p') \<and> sr_amt_in r = 1000 \<and> reachable p')"
  using reachable_swap_progress [OF reachable_default_pool, of 1000 False] reachable_default_pool
  by simp

text \<open>
  C32 (equivalence). Two orders selling the same token commute: executing \<open>a\<close> then
  \<open>b\<close>, or \<open>b\<close> then \<open>a\<close>, ends in the same pool, since both end where one swap of
  \<open>a + b\<close> does. Under the serialisation the spec's concurrency section asks for, the
  order in which two such requests are served does not change the pool's final state.
\<close>

theorem swap_commute:
  assumes v: "pool_valid p" and s1: "swap p is_token0 a = Inr (r1, p1)"
    and s2: "swap p1 is_token0 b = Inr (r2, p2)"
  shows "\<exists>r1' q r2'. swap p is_token0 b = Inr (r1', q) \<and> swap q is_token0 a = Inr (r2', p2)"
proof -
  have a: "0 < a" and b: "0 < b" using swap_Inr_D [OF s1] swap_Inr_D [OF s2] by simp_all
  obtain r1' q where sb: "swap p is_token0 b = Inr (r1', q)"
    using swap_Inr_ex [OF b] by blast
  obtain r2' q2 where sa: "swap q is_token0 a = Inr (r2', q2)"
    using swap_Inr_ex [OF a] by blast
  obtain r where ab: "swap p is_token0 (a + b) = Inr (r, p2)"
    using swap_split [OF v s1 s2] by blast
  obtain r' where ba: "swap p is_token0 (b + a) = Inr (r', q2)"
    using swap_split [OF v sb sa] by blast
  have "q2 = p2" using ab ba by (simp add: add.commute)
  then show ?thesis using sb sa by blast
qed

theorem swap_commute_witness:
  "pool_valid default_pool \<and> swap default_pool True 1 = Inr (swap1_result, swap1_pool) \<and>
   (\<exists>r2 p2. swap swap1_pool True 2 = Inr (r2, p2) \<and>
      (\<exists>r1' q r2'. swap default_pool True 2 = Inr (r1', q) \<and> swap q True 1 = Inr (r2', p2)))"
proof -
  obtain r2 p2 where s2: "swap swap1_pool True 2 = Inr (r2, p2)"
    using swap_Inr_ex [of 2 swap1_pool True] by auto
  show ?thesis
    using swap_commute [OF default_pool_valid default_pool_swap_1 s2]
      s2 default_pool_valid default_pool_swap_1 by blast
qed

section \<open>There and back on a single tier\<close>

lemma single_tier_swap:
  assumes v: "pool_valid p" and n: "pool_size p = 1" and s: "swap p is_token0 a = Inr (r, p')"
  shows "sr_amts_in r ! 0 = a \<and> sr_amt_out r = sr_amts_out r ! 0"
proof -
  obtain msk where c: "calc_tier_amts_in p is_token0 a = Inr (sr_amts_in r, msk)"
    using swap_Inr_D [OF s] by blast
  note fr = swap_frame [OF v c s]
  have "length (sr_amts_in r) = 1" and "sum_list (sr_amts_in r) = a"
    using calc_tier_amts_in_facts [OF v c] n by simp_all
  then have "sr_amts_in r ! 0 = a"
    by (cases "sr_amts_in r") auto
  moreover have "length (sr_amts_out r) = 1" and "sr_amt_out r = sum_list (sr_amts_out r)"
    using fr swap_sum_inactive_zero [OF v c s] n by simp_all
  then have "sr_amt_out r = sr_amts_out r ! 0"
    by (cases "sr_amts_out r") auto
  ultimately show ?thesis by simp
qed

lemma single_tier_pool_swap_1:
  "\<exists>r1 p1. swap single_tier_pool True 1 = Inr (r1, p1) \<and> 0 < - sr_amt_out r1"
  by (simp add: swap_def eval_simps single_tier_pool_def pool_init_def)

lemma single_tier_pool_valid: "pool_valid single_tier_pool \<and> pool_size single_tier_pool = 1"
  by (simp add: single_tier_pool_def pool_init_def pool_valid_def)

text \<open>
  C33 (roundtrip). The spec's round trip on a pool of one tier: selling \<open>a\<close> and then
  selling back the whole amount paid out returns at most \<open>a * sqrt_gamma^2\<close> of the first
  token, and the price ends on the side of its start that the first leg moved it to,
  strictly so when the tier charges a fee. Fees are not recovered, and no round trip makes
  a profit.
\<close>

theorem single_tier_round_trip:
  assumes v: "pool_valid p" and n: "pool_size p = 1"
    and s1: "swap p is_token0 a = Inr (r1, p1)"
    and s2: "swap p1 (\<not> is_token0) (- sr_amt_out r1) = Inr (r2, p2)"
  shows "- sr_amt_out r2 \<le> a * sqrt_gamma_arr p ! 0 ^ 2 \<and>
         (if is_token0 then sqrt_p_arr p2 ! 0 \<le> sqrt_p_arr p ! 0
          else sqrt_p_arr p ! 0 \<le> sqrt_p_arr p2 ! 0) \<and>
         (sqrt_gamma_arr p ! 0 < 1 \<longrightarrow>
            (if is_token0 then sqrt_p_arr p2 ! 0 < sqrt_p_arr p ! 0
             else sqrt_p_arr p ! 0 < sqrt_p_arr p2 ! 0))"
proof -
  let ?L = "liquidity_arr p ! 0" and ?sp = "sqrt_p_arr p ! 0" and ?g = "sqrt_gamma_arr p ! 0 ^ 2"
  have v1: "pool_valid p1" using swap_keeps_valid [OF v s1] .
  obtain m1 where c1: "calc_tier_amts_in p is_token0 a = Inr (sr_amts_in r1, m1)"
    using swap_Inr_D [OF s1] by blast
  note fr1 = swap_frame [OF v c1 s1]
  have i: "0 < pool_size p" and n1: "pool_size p1 = 1" and i1: "0 < pool_size p1"
    using n fr1 by simp_all
  have apos: "0 < a" using swap_Inr_D [OF s1] by simp
  then have a: "0 \<le> a" by simp
  have g1: "sqrt_gamma_arr p ! 0 < 1 \<Longrightarrow> ?g < 1"
    by (rule sqrt_gamma_sq_lt_one [OF v i])
  have l: "0 < ?L" and sp: "0 < ?sp" using pool_valid_nth [OF v i] by simp_all
  have g: "0 < ?g" "?g \<le> 1"
    using tier_gamma_bounds [OF v i] tier_gamma_nth [OF v i] by simp_all
  note st1 = single_tier_swap [OF v n s1] and st2 = single_tier_swap [OF v1 n1 s2]
  have p1: "liquidity_arr p1 ! 0 = ?L" "tier_gamma p1 ! 0 = ?g"
    using fr1 swap_reserves [OF v s1] tier_gamma_nth [OF v i] by simp_all
  have e1: "sqrt_p_arr p1 ! 0 = calc_sqrt_p_from_amt is_token0 ?sp ?L (a * ?g)"
    using swap_tier_uniform [OF v s1 i] st1 tier_gamma_nth [OF v i] by simp
  have e2: "sr_amt_out r1 = calc_amt_from_sqrt_p (\<not> is_token0) ?sp (sqrt_p_arr p1 ! 0) ?L"
    using swap_tier_uniform [OF v s1 i] st1 by simp
  have e3: "sqrt_p_arr p2 ! 0 =
            calc_sqrt_p_from_amt (\<not> is_token0) (sqrt_p_arr p1 ! 0) ?L (- sr_amt_out r1 * ?g)"
    using swap_tier_uniform [OF v1 s2 i1] st2 p1 by simp
  have e4: "sr_amt_out r2 = calc_amt_from_sqrt_p is_token0 (sqrt_p_arr p1 ! 0) (sqrt_p_arr p2 ! 0) ?L"
    using swap_tier_uniform [OF v1 s2 i1] st2 p1 by simp
  show ?thesis
  proof (cases is_token0)
    case True
    show ?thesis
      using tier_round_trip_token0 [OF l sp g a] True apos g1
      unfolding e4 e3 e2 e1 by simp
  next
    case False
    show ?thesis
      using tier_round_trip_token1 [OF l sp g a] False apos g1
      unfolding e4 e3 e2 e1 by simp
  qed
qed

theorem single_tier_round_trip_witness:
  "pool_valid single_tier_pool \<and> pool_size single_tier_pool = 1 \<and>
   (\<exists>r1 p1 r2 p2. swap single_tier_pool True 1 = Inr (r1, p1) \<and>
      swap p1 False (- sr_amt_out r1) = Inr (r2, p2) \<and>
      - sr_amt_out r2 \<le> 1 * sqrt_gamma_arr single_tier_pool ! 0 ^ 2 \<and>
      sqrt_gamma_arr single_tier_pool ! 0 < 1 \<and>
      sqrt_p_arr p2 ! 0 < sqrt_p_arr single_tier_pool ! 0)"
proof -
  obtain r1 p1 where s1: "swap single_tier_pool True 1 = Inr (r1, p1)" and o: "0 < - sr_amt_out r1"
    using single_tier_pool_swap_1 by blast
  obtain r2 p2 where s2: "swap p1 False (- sr_amt_out r1) = Inr (r2, p2)"
    using swap_Inr_ex [OF o] by blast
  have g: "sqrt_gamma_arr single_tier_pool ! 0 < 1"
    by (simp add: single_tier_pool_def pool_init_def)
  have v: "pool_valid single_tier_pool" and n: "pool_size single_tier_pool = 1"
    using single_tier_pool_valid by simp_all
  show ?thesis
    using single_tier_round_trip [OF v n s1] s2 g v n s1 by auto
qed

end
