(* ===== verification/SwapBounds.thy ===== *)
theory SwapBounds
  imports Swap
begin

text \<open>
  Bounds on one call of \<open>Pool.swap\<close> (\<open>src/muffin_fullrange.py\<close>, lines 31--71) that
  are linear in the order size. They are the exact-arithmetic content of the spec's
  "idempotent no-op" property: as the input tends to zero, the amount paid out and every
  tier's price move tend to zero with it. The output bound also says that the pool never
  pays out more than the input is worth at the most favourable tier price.
\<close>

lemma prices_nth: "pool_valid p \<Longrightarrow> i < pool_size p \<Longrightarrow> prices p ! i = sqrt_p_arr p ! i ^ 2"
  by (simp add: prices_def pool_valid_def)

lemma prices_extremes:
  assumes v: "pool_valid p" and i: "i < pool_size p"
  shows "prices p ! i \<le> Max (set (prices p)) \<and> 0 < Min (set (prices p)) \<and>
         Min (set (prices p)) \<le> prices p ! i"
proof -
  have len: "length (prices p) = pool_size p"
    using v by (simp add: prices_def pool_valid_def)
  have mem: "prices p ! i \<in> set (prices p)"
    using len i by simp
  have pos: "\<forall>q\<in>set (prices p). 0 < q"
    using v by (auto simp: prices_def pool_valid_def list_all_iff)
  have "Min (set (prices p)) \<in> set (prices p)"
    using mem by (intro Min_in) auto
  then show ?thesis
    using mem pos by simp
qed

lemma swap_tier_out_bound:
  assumes v: "pool_valid p" and s: "swap p is_token0 a = Inr (r, p')" and i: "i < pool_size p"
  shows "- sr_amts_out r ! i \<le> sr_amts_in r ! i *
           (if is_token0 then Max (set (prices p)) else 1 / Min (set (prices p))) \<and>
         (0 < sr_amts_in r ! i \<longrightarrow> - sr_amts_out r ! i < sr_amts_in r ! i *
           (if is_token0 then Max (set (prices p)) else 1 / Min (set (prices p))))"
proof -
  obtain msk where c: "calc_tier_amts_in p is_token0 a = Inr (sr_amts_in r, msk)"
    using swap_Inr_D [OF s] by blast
  let ?x = "sr_amts_in r ! i" and ?g = "tier_gamma p ! i" and ?sp = "sqrt_p_arr p ! i"
  let ?L = "liquidity_arr p ! i"
  let ?C = "if is_token0 then Max (set (prices p)) else 1 / Min (set (prices p))"
  have x: "0 \<le> ?x" using swap_amts_in_nonneg [OF v c i] .
  have g: "0 < ?g" "?g \<le> 1" using tier_gamma_bounds [OF v i] by simp_all
  note ext = prices_extremes [OF v i] and pn = prices_nth [OF v i]
  have sp: "0 < ?sp" and l: "0 < ?L" using pool_valid_nth [OF v i] by simp_all
  have out: "sr_amts_out r ! i =
             calc_amt_from_sqrt_p (\<not> is_token0) ?sp (calc_sqrt_p_from_amt is_token0 ?sp ?L (?x * ?g)) ?L"
    using swap_tier_uniform [OF v s i] by simp
  have q: "?g * (if is_token0 then ?sp ^ 2 else 1 / ?sp ^ 2) \<le> ?C"
  proof -
    have "1 / ?sp ^ 2 \<le> 1 / Min (set (prices p))"
      using ext pn sp by (intro divide_left_mono) simp_all
    then have "(if is_token0 then ?sp ^ 2 else 1 / ?sp ^ 2) \<le> ?C"
      using ext pn by simp
    moreover have "?g * (if is_token0 then ?sp ^ 2 else 1 / ?sp ^ 2) \<le> (if is_token0 then ?sp ^ 2 else 1 / ?sp ^ 2)"
      using g by (intro mult_left_le_one_le) simp_all
    ultimately show ?thesis by linarith
  qed
  have le: "(if is_token0 then ?x * ?g * ?sp ^ 2 else ?x * ?g / ?sp ^ 2) \<le> ?x * ?C"
    using mult_left_mono [OF q x] by (cases is_token0) (simp_all add: mult.assoc)
  show ?thesis
  proof (cases "?x = 0")
    case True
    then show ?thesis
      using out l by (simp add: calc_sqrt_p_zero_amt calc_amt_from_sqrt_p_same)
  next
    case False
    then have "0 < ?x * ?g" using x g by simp
    then have "- sr_amts_out r ! i < (if is_token0 then ?x * ?g * ?sp ^ 2 else ?x * ?g / ?sp ^ 2)"
      using price_impact_lt [OF l sp, of "?x * ?g" is_token0] out by simp
    then show ?thesis
      using le by simp
  qed
qed

text \<open>
  C27 (bounds). The amount paid out is strictly less than the input valued at the highest
  tier price when token0 is sold (at the lowest when token1 is sold): price impact and fees
  always cost the trader, and the output vanishes with the input.
\<close>

theorem swap_output_bound:
  assumes v: "pool_valid p" and s: "swap p is_token0 a = Inr (r, p')"
  shows "- sr_amt_out r < (if is_token0 then a * Max (set (prices p)) else a / Min (set (prices p)))"
proof -
  obtain msk where c: "calc_tier_amts_in p is_token0 a = Inr (sr_amts_in r, msk)"
    using swap_Inr_D [OF s] by blast
  let ?n = "pool_size p"
  let ?C = "if is_token0 then Max (set (prices p)) else 1 / Min (set (prices p))"
  note fr = swap_frame [OF v c s] and f = calc_tier_amts_in_facts [OF v c]
  have amt_out: "sr_amt_out r = (\<Sum>i<?n. sr_amts_out r ! i)"
    using swap_sum_inactive_zero [OF v c s] fr by (simp add: sum_list_eq_sum)
  have sl: "sum_list (sr_amts_in r) = a" and len: "length (sr_amts_in r) = ?n"
    using f by simp_all
  have amt_in: "a = (\<Sum>i<?n. sr_amts_in r ! i)"
    using sl len by (simp add: sum_list_eq_sum)
  have "0 < a" using swap_Inr_D [OF s] by simp
  then obtain j where j: "j < ?n" "0 < sr_amts_in r ! j"
    using sum_list_pos_ex [of "sr_amts_in r"] sl len by auto
  have "- sr_amt_out r = (\<Sum>i<?n. - sr_amts_out r ! i)"
    using amt_out by (simp add: sum_negf)
  also have "\<dots> < (\<Sum>i<?n. sr_amts_in r ! i * ?C)"
  proof (rule sum_strict_mono_ex1)
    show "\<forall>i\<in>{..<?n}. - sr_amts_out r ! i \<le> sr_amts_in r ! i * ?C"
      using swap_tier_out_bound [OF v s] by simp
    show "\<exists>i\<in>{..<?n}. - sr_amts_out r ! i < sr_amts_in r ! i * ?C"
      using swap_tier_out_bound [OF v s j(1)] j by blast
  qed simp
  also have "\<dots> = a * ?C"
    using amt_in by (simp add: sum_distrib_right)
  finally show ?thesis
    by (cases is_token0) simp_all
qed

theorem swap_output_bound_witness:
  "pool_valid default_pool \<and> swap default_pool True 1 = Inr (swap1_result, swap1_pool) \<and>
   - sr_amt_out swap1_result < 1 * Max (set (prices default_pool))"
  using swap_output_bound [OF default_pool_valid default_pool_swap_1]
    default_pool_valid default_pool_swap_1 by simp

text \<open>
  C28 (bounds). No tier's square-root price moves by more than the whole order would move
  it alone on that tier without fee: by at most \<open>a * sqrt_p^2 / L\<close> when token0 is sold
  and \<open>a / L\<close> when token1 is sold.
\<close>

theorem swap_price_move_bound:
  assumes v: "pool_valid p" and s: "swap p is_token0 a = Inr (r, p')"
  shows "\<forall>i<pool_size p. \<bar>sqrt_p_arr p' ! i - sqrt_p_arr p ! i\<bar>
           \<le> a * (if is_token0 then sqrt_p_arr p ! i ^ 2 else 1) / liquidity_arr p ! i"
proof (intro allI impI)
  fix i
  assume i: "i < pool_size p"
  obtain msk where c: "calc_tier_amts_in p is_token0 a = Inr (sr_amts_in r, msk)"
    using swap_Inr_D [OF s] by blast
  let ?x = "sr_amts_in r ! i" and ?g = "tier_gamma p ! i" and ?sp = "sqrt_p_arr p ! i"
  let ?L = "liquidity_arr p ! i" and ?q = "if is_token0 then sqrt_p_arr p ! i ^ 2 else 1"
  note f = calc_tier_amts_in_facts [OF v c]
  have x: "0 \<le> ?x" using swap_amts_in_nonneg [OF v c i] .
  have g: "0 < ?g" "?g \<le> 1" using tier_gamma_bounds [OF v i] by simp_all
  have sp: "0 < ?sp" and l: "0 < ?L" using pool_valid_nth [OF v i] by simp_all
  have nn: "list_all (\<lambda>y. 0 \<le> y) (sr_amts_in r)" and sl: "sum_list (sr_amts_in r) = a"
    and len: "length (sr_amts_in r) = pool_size p"
    using f by simp_all
  have xa: "?x \<le> a"
    using member_le_sum_list [of ?x "sr_amts_in r"] nn sl len i by (simp add: list_all_iff)
  have xga: "?x * ?g \<le> a"
    using xa x g mult_left_le [of ?g ?x] by linarith
  have "\<bar>sqrt_p_arr p' ! i - ?sp\<bar> \<le> ?x * ?g * ?q / ?L"
    using calc_sqrt_p_move_bound [OF l sp, of "?x * ?g" is_token0] swap_tier_uniform [OF v s i] x g
    by simp
  also have "\<dots> \<le> a * ?q / ?L"
    using xga l by (intro divide_right_mono mult_right_mono) simp_all
  finally show "\<bar>sqrt_p_arr p' ! i - ?sp\<bar> \<le> a * ?q / ?L" .
qed

theorem swap_price_move_bound_witness:
  "pool_valid default_pool \<and> swap default_pool True 1 = Inr (swap1_result, swap1_pool) \<and>
   1 < pool_size default_pool \<and>
   \<bar>sqrt_p_arr swap1_pool ! 1 - sqrt_p_arr default_pool ! 1\<bar>
     \<le> 1 * sqrt_p_arr default_pool ! 1 ^ 2 / liquidity_arr default_pool ! 1"
  using swap_price_move_bound [OF default_pool_valid default_pool_swap_1, rule_format, of 1]
    default_pool_valid default_pool_swap_1 default_pool_size by simp

end
