(* ===== verification/SwapAccounting.thy ===== *)
theory SwapAccounting
  imports Swap
begin

text \<open>
  What one call of \<open>Pool.swap\<close> (\<open>src/muffin_fullrange.py\<close>, lines 31--71) books.
  Each tier is a constant-product curve on its virtual reserves \<open>L / sqrt_p\<close> (token0)
  and \<open>L * sqrt_p\<close> (token1): the after-fee input joins the sold side and the amount
  out (negative, as the code reports it) leaves the other, and the product stays \<open>L^2\<close>.
  The fee stays outside the curve: it goes to the fee-growth accumulator of the sold
  token, and the liquidity-weighted increments of that accumulator add up to exactly the
  \<open>fee_amt\<close> the swap reports.
\<close>

lemma swap_tier_out:
  assumes v: "pool_valid p" and s: "swap p is_token0 a = Inr (r, p')" and i: "i < pool_size p"
  shows "sr_amts_out r ! i =
           calc_amt_from_sqrt_p (\<not> is_token0) (sqrt_p_arr p ! i)
             (calc_sqrt_p_from_amt is_token0 (sqrt_p_arr p ! i) (liquidity_arr p ! i)
                (sr_amts_in r ! i * sqrt_gamma_arr p ! i ^ 2)) (liquidity_arr p ! i)"
  using swap_tier_uniform [OF v s i] tier_gamma_nth [OF v i] by simp

text \<open>
  C29 (invariant). A swap keeps every tier on its constant-product curve: with \<open>x\<close> the
  tier's after-fee input and \<open>y\<close> its amount out, \<open>(L / sqrt_p + x) * (L * sqrt_p + y)
  = L^2\<close> when token0 is sold, and symmetrically when token1 is sold.
\<close>

theorem swap_constant_product:
  assumes v: "pool_valid p" and s: "swap p is_token0 a = Inr (r, p')"
  shows "\<forall>i<pool_size p.
    (if is_token0
     then (liquidity_arr p ! i / sqrt_p_arr p ! i + sr_amts_in r ! i * sqrt_gamma_arr p ! i ^ 2) *
          (liquidity_arr p ! i * sqrt_p_arr p ! i + sr_amts_out r ! i)
     else (liquidity_arr p ! i * sqrt_p_arr p ! i + sr_amts_in r ! i * sqrt_gamma_arr p ! i ^ 2) *
          (liquidity_arr p ! i / sqrt_p_arr p ! i + sr_amts_out r ! i))
    = liquidity_arr p ! i ^ 2"
proof (intro allI impI)
  fix i
  assume i: "i < pool_size p"
  obtain msk where c: "calc_tier_amts_in p is_token0 a = Inr (sr_amts_in r, msk)"
    using swap_Inr_D [OF s] by blast
  have x: "0 \<le> sr_amts_in r ! i * sqrt_gamma_arr p ! i ^ 2"
    using swap_amts_in_nonneg [OF v c i] by simp
  show "(if is_token0
     then (liquidity_arr p ! i / sqrt_p_arr p ! i + sr_amts_in r ! i * sqrt_gamma_arr p ! i ^ 2) *
          (liquidity_arr p ! i * sqrt_p_arr p ! i + sr_amts_out r ! i)
     else (liquidity_arr p ! i * sqrt_p_arr p ! i + sr_amts_in r ! i * sqrt_gamma_arr p ! i ^ 2) *
          (liquidity_arr p ! i / sqrt_p_arr p ! i + sr_amts_out r ! i))
    = liquidity_arr p ! i ^ 2"
    unfolding swap_tier_out [OF v s i]
    by (rule calc_constant_product [OF pool_valid_nth(1,2) [OF v i] x])
qed

theorem swap_constant_product_witness:
  "pool_valid default_pool \<and> swap default_pool True 1 = Inr (swap1_result, swap1_pool) \<and>
   1 < pool_size default_pool \<and>
   (liquidity_arr default_pool ! 1 / sqrt_p_arr default_pool ! 1 +
      sr_amts_in swap1_result ! 1 * sqrt_gamma_arr default_pool ! 1 ^ 2) *
   (liquidity_arr default_pool ! 1 * sqrt_p_arr default_pool ! 1 + sr_amts_out swap1_result ! 1)
   = liquidity_arr default_pool ! 1 ^ 2"
  using swap_constant_product [OF default_pool_valid default_pool_swap_1, rule_format, of 1]
    default_pool_valid default_pool_swap_1 default_pool_size by simp

text \<open>
  C30 (functional). Fee accounting is exact: summed over the tiers, each tier's liquidity
  times the increase of the sold token's fee-growth accumulator is the swap's reported
  \<open>fee_amt\<close>. Liquidity providers, paid pro rata from the accumulators, receive exactly
  the fees the swap charged.
\<close>

theorem swap_fee_growth_accounts:
  assumes v: "pool_valid p" and s: "swap p is_token0 a = Inr (r, p')"
  shows "(\<Sum>i<pool_size p. liquidity_arr p ! i *
           (if is_token0 then fee0_growth_arr p' ! i - fee0_growth_arr p ! i
            else fee1_growth_arr p' ! i - fee1_growth_arr p ! i)) = sr_fee_amt r"
proof -
  obtain msk where c: "calc_tier_amts_in p is_token0 a = Inr (sr_amts_in r, msk)"
    using swap_Inr_D [OF s] by blast
  note fr = swap_frame [OF v c s]
  have tier: "liquidity_arr p ! i *
           (if is_token0 then fee0_growth_arr p' ! i - fee0_growth_arr p ! i
            else fee1_growth_arr p' ! i - fee1_growth_arr p ! i) = sr_fee_amts r ! i"
    if i: "i < pool_size p" for i
  proof -
    have "liquidity_arr p ! i \<noteq> 0" using pool_valid_nth [OF v i] by simp
    then show ?thesis using swap_tier_uniform [OF v s i] by simp
  qed
  have "(\<Sum>i<pool_size p. liquidity_arr p ! i *
           (if is_token0 then fee0_growth_arr p' ! i - fee0_growth_arr p ! i
            else fee1_growth_arr p' ! i - fee1_growth_arr p ! i)) = (\<Sum>i<pool_size p. sr_fee_amts r ! i)"
    using tier by (intro sum.cong) simp_all
  also have "\<dots> = sr_fee_amt r"
    using swap_sum_inactive_zero [OF v c s] fr by (simp add: sum_list_eq_sum)
  finally show ?thesis .
qed

theorem swap_fee_growth_accounts_witness:
  "pool_valid default_pool \<and> swap default_pool True 1 = Inr (swap1_result, swap1_pool) \<and>
   (\<Sum>i<pool_size default_pool. liquidity_arr default_pool ! i *
      (fee0_growth_arr swap1_pool ! i - fee0_growth_arr default_pool ! i)) = sr_fee_amt swap1_result"
  using swap_fee_growth_accounts [OF default_pool_valid default_pool_swap_1]
    default_pool_valid default_pool_swap_1 by simp

text \<open>
  C31 (error). An order on a pool built from empty arrays, which \<open>Pool.__init__\<close>
  accepts, is accepted too: the swap raises nothing, changes nothing and reports an
  \<open>amt_in\<close> of zero, so the order silently goes unfilled. (Its \<open>fee_bps\<close> is
  \<open>0 / 0\<close>, \<open>nan\<close> in numpy, and is left out of the statement: HOL's \<open>0 / 0\<close> is
  \<open>0\<close>.)
\<close>

theorem swap_empty_pool:
  assumes "0 < a"
  shows "\<exists>r. swap (pool_init [] [] sqrt_p) is_token0 a = Inr (r, pool_init [] [] sqrt_p) \<and>
             sr_amt_in r = 0 \<and> sr_amt_out r = 0 \<and> sr_fee_amt r = 0 \<and> sr_amts_in r = []"
  using assms by (simp add: swap_def eval_simps pool_init_def)

theorem swap_empty_pool_witness:
  "(0::real) < 5 \<and>
   (\<exists>r. swap (pool_init [] [] 1) True 5 = Inr (r, pool_init [] [] 1) \<and>
        sr_amt_in r = 0 \<and> sr_amt_out r = 0 \<and> sr_fee_amt r = 0 \<and> sr_amts_in r = [])"
  using swap_empty_pool [of 5 1 True] by simp

text \<open>
  C34 (safety). Fees are booked: every tier that receives a positive amount and charges a
  fee (\<open>sqrt_gamma < 1\<close>) strictly increases the sold token's fee-growth accumulator.
\<close>

theorem swap_books_fee:
  assumes v: "pool_valid p" and s: "swap p is_token0 a = Inr (r, p')"
  shows "\<forall>i<pool_size p. 0 < sr_amts_in r ! i \<and> sqrt_gamma_arr p ! i < 1 \<longrightarrow>
           (if is_token0 then fee0_growth_arr p ! i < fee0_growth_arr p' ! i
            else fee1_growth_arr p ! i < fee1_growth_arr p' ! i)"
proof (intro allI impI)
  fix i
  assume i: "i < pool_size p" and xg: "0 < sr_amts_in r ! i \<and> sqrt_gamma_arr p ! i < 1"
  let ?x = "sr_amts_in r ! i" and ?g = "sqrt_gamma_arr p ! i ^ 2"
  have "?g < 1" using sqrt_gamma_sq_lt_one [OF v i] xg by simp
  then have "0 < ?x - ?x * ?g" using xg by simp
  moreover have "0 < liquidity_arr p ! i" using pool_valid_nth [OF v i] by simp
  ultimately have "0 < (?x - ?x * ?g) / liquidity_arr p ! i" by simp
  then show "if is_token0 then fee0_growth_arr p ! i < fee0_growth_arr p' ! i
             else fee1_growth_arr p ! i < fee1_growth_arr p' ! i"
    using swap_tier_uniform [OF v s i] tier_gamma_nth [OF v i] by simp
qed

theorem swap_books_fee_witness:
  "pool_valid default_pool \<and> swap default_pool True 1 = Inr (swap1_result, swap1_pool) \<and>
   1 < pool_size default_pool \<and> 0 < sr_amts_in swap1_result ! 1 \<and> sqrt_gamma_arr default_pool ! 1 < 1 \<and>
   fee0_growth_arr default_pool ! 1 < fee0_growth_arr swap1_pool ! 1"
proof -
  have g: "sqrt_gamma_arr default_pool ! 1 < 1"
    by (simp add: default_pool_def pool_init_def)
  show ?thesis
    using swap_books_fee [OF default_pool_valid default_pool_swap_1, rule_format, of 1] g
      default_pool_valid default_pool_swap_1 default_pool_size by simp
qed

end
