(* ===== verification/Spec2Isabelle.thy ===== *)
theory Spec2Isabelle
  imports Sequences SwapBounds SwapAccounting
begin

text \<open>
  \<^bold>\<open>A verification development of the multi-tier full-range AMM pool of
  \<^verbatim>\<open>src/muffin_fullrange.py\<close>.\<close>

  \<^bold>\<open>The program.\<close> One Python class \<open>Pool\<close> keeps, per fee tier, numpy arrays of
  liquidity, square-root price, square-root fee factor and two fee-growth accumulators.
  \<open>Pool.swap\<close> (lines 31--71) is the single mutating entry point: it asks the private
  allocator \<open>Pool._calc_tier_amts_in\<close> (lines 73--97) how to split the input over the
  tiers, charges each tier's fee, moves each active tier's price with the module-level
  price algebra \<open>calc_sqrt_p_from_amt\<close> / \<open>calc_amt_from_sqrt_p\<close> (lines 100--115),
  writes the new prices and the fee growth back, and returns a result dictionary. The
  allocator is pure: it reads the pool and computes, by a feasibility-repair loop, the
  Lagrange-multiplier split of the input over the tiers that may take a non-negative part.

  \<^bold>\<open>Theories.\<close>
  \<^item> \<open>Prelude\<close>: numpy's boolean-mask idioms as list functions (\<open>compress\<close> for
    \<open>xs[mask]\<close>, \<open>scatter\<close> for \<open>xs[mask] = vs\<close>, \<open>fill\<close> for \<open>xs[mask] = c\<close>,
    \<open>select\<close> for their pointwise reading), masked sums \<open>msum\<close> and the lemmas that
    read them tier by tier; the error type (\<open>AssertionError\<close>); the \<open>eval_simps\<close>
    collection that evaluates the model on concrete pools.
  \<^item> \<open>PriceAlgebra\<close>: \<open>calc_sqrt_p_from_amt\<close> and \<open>calc_amt_from_sqrt_p\<close>, scalar
    functions over reals, with the direction, positivity and strict monotonicity of the
    price move.
  \<^item> \<open>PoolState\<close>: \<open>record pool\<close> (the fields of \<open>Pool\<close>; \<open>size\<close> is
    \<open>pool_size\<close>), the constructor \<open>pool_init\<close> and its default \<open>default_pool\<close>, the
    properties \<open>prices\<close> and \<open>price\<close>, and the invariant \<open>pool_valid\<close> that the spec
    requires of a pool (matching lengths, positive liquidity and prices, fee factors in
    \<open>(0, 1]\<close>, non-negative fee growth).
  \<^item> \<open>Allocator\<close>: the working arrays \<open>tier_gamma\<close>, \<open>tier_lsg\<close>, \<open>tier_res\<close>
    (lines 79--82), one pass of the loop body \<open>lagrange_step\<close> (line 92), the loop
    \<open>alloc_loop\<close> (lines 91--96) as a \<open>function\<close> whose termination is proved with the
    number of active tiers as measure, its pass count \<open>alloc_passes\<close>, and the entry
    \<open>calc_tier_amts_in\<close>; the abstract specification \<open>water_fill\<close> (each tier gets
    \<open>max 0 (lsg i * lam - res i)\<close>) and the closed-form multiplier
    \<open>lagrange_multiplier\<close>. A Hoare-style rule \<open>alloc_loop_rule\<close> for the loop is
    proved once by computation induction and carries every loop property.
  \<^item> \<open>Swap\<close>: \<open>Pool.swap\<close> (lines 31--71) as \<open>swap :: pool \<Rightarrow> bool \<Rightarrow> real \<Rightarrow>
    error + (swap_result \<times> pool)\<close>, statement by statement: the guard \<open>is_exact_in\<close>,
    the allocator call, the masked arrays \<open>amts_in_after_fee\<close>, \<open>sqrt_p_new\<close>,
    \<open>amts_out\<close>, \<open>fee_amts\<close>, the write of the new prices, the choice of the fee-growth
    accumulator by \<open>is_token0 == is_exact_in\<close> and its update, and the result
    dictionary as \<open>record swap_result\<close>. \<open>tier_swap\<close> is one tier of it as a scalar
    function; the \<open>mask_fold_all\<close> rules of \<open>Prelude\<close> turn each masked statement into
    that per-tier reading, and \<open>swap_tier_uniform\<close> states one rule for every tier,
    active or not (an inactive tier receives zero, and a zero input moves nothing).
  \<^item> \<open>SwapBounds\<close>: bounds on one swap that are linear in the order size.
  \<^item> \<open>SwapAccounting\<close>: the constant-product curve of each tier and the fee
    accounting of one swap.
  \<^item> \<open>Sequences\<close>: serial histories of swaps as the step relation \<open>swap_step\<close>
    and the \<open>inductive\<close> set of \<open>reachable\<close> pools (built by the constructor from
    valid arguments, then swapped any number of times); how a swap changes the allocator's
    inputs; two swaps in one direction against one swap of their sum, and against each
    other in the opposite order; a round trip on a pool of one tier.
  \<^item> \<open>Spec2Isabelle\<close> (this theory): the spec's concrete scenarios, evaluated as
    checks of the model on the constructor's default pool, and a three-tier pool on which
    the repair loop needs all its passes. They are tests on fixed inputs, not among the
    numbered properties.

  \<^bold>\<open>What is proved.\<close>
  \<^item> Allocator (C1--C6). On a valid pool the allocator computes the water-filling
    allocation (C1, refinement), which is unique for its total (C4); it never returns a
    negative amount, on any pool (C2); it routes exactly the input and never excludes every
    tier (C3); its loop makes at most \<open>size\<close> passes (C5); a negative input fails its
    assertion (C6). The key lemma is \<open>multiplier_decreases\<close>: dropping the tiers with
    negative closed-form amounts never raises the multiplier, so a dropped tier stays
    correctly dropped.
  \<^item> Swap (C7--C10, C13--C16). A non-positive input is rejected before any write (C7);
    the reported totals are the sums of the per-tier arrays and \<open>amt_in\<close> is the input
    (C8); per tier, input minus fee is input times \<open>sqrt_gamma^2\<close> (C9); every tier that
    receives input moves its price in the direction of the sale (C10); liquidity, fee
    factors and the other token's accumulator are untouched, and so is every tier that
    receives nothing (C13); the amounts out are negative (C14); after the swap every active
    tier's fee-adjusted marginal price equals the allocation's multiplier and every
    excluded tier's lies beyond it (C15); \<open>fee_bps\<close> is the input-weighted average of the
    tier rates \<open>(1 - sqrt_gamma^2) * 10000\<close> (C16).
  \<^item> Histories (C11, C12, C22--C24, in \<open>Sequences\<close>). Along any serial sequence of
    swaps from a valid pool no fee-growth accumulator decreases (C11, by \<open>rtranclp\<close>
    induction); every reachable pool is valid (C12, by rule induction on
    \<open>reachable\<close>). Splitting an order does not matter: swapping \<open>a\<close> and then
    \<open>b\<close> of one token ends in exactly the pool one swap of \<open>a + b\<close> gives, with
    per-tier amounts in, out and fees that add up (C22). Its two ingredients are that a swap
    raises each tier's virtual reserve by exactly the tier's input (C23) and that the
    water-filling of the allocator can be done in stages (\<open>water_fill_split\<close>), with the
    curve's path independence (\<open>calc_sqrt_p_from_amt_add\<close>,
    \<open>calc_amt_from_sqrt_p_path\<close>). Progress: from every reachable pool every positive
    order executes in full and leads to a reachable pool (C24, liveness). Two orders
    selling the same token commute (C32). On a pool of one tier a round trip returns at
    most the first input times \<open>sqrt_gamma^2\<close> and, with a fee, leaves the price short
    of its start (C33).
  \<^item> Allocator order, boundary and active set (C25, C26, C35, C36). A larger order never
    routes less to any tier (C25); an order of zero is accepted and routes nothing (C26); the loop's final
    active set is exactly the tiers whose reserve lies at or below weight times the final
    multiplier, the active set of the water-filling specification (C35); an order smaller
    than what fills the tiers up to a tier's threshold leaves that tier out (C36), the
    spec's exclusion scenario stated for every pool.
  \<^item> Small orders (C27, C28, in \<open>SwapBounds\<close>). The amount paid out is strictly
    below the input valued at the extreme tier price (C27) and every price moves by at
    most \<open>a * sqrt_p^2 / L\<close> or \<open>a / L\<close> (C28): the spec's "idempotent no-op"
    property, stated exactly as linear bounds that vanish with the input.
  \<^item> Accounting (C29, C30, in \<open>SwapAccounting\<close>). Every swap keeps each tier on its
    constant-product curve \<open>(L / sqrt_p) * (L * sqrt_p) = L^2\<close>, with the after-fee
    input on the sold side and the amount out on the other (C29); the liquidity-weighted
    fee-growth increments add up to the reported \<open>fee_amt\<close> (C30); every tier that
    takes input and charges a fee strictly increases its accumulator (C34). On a pool
    built from empty arrays an order is accepted and silently fills nothing (C31).
  \<^item> Pool state (C17, C21). The constructor starts every tier at the same price with
    zero fee growth, its combined price is that price, and it yields a valid pool exactly
    when its arguments meet the spec's precondition (C17); \<open>price\<close> lies between the
    smallest and largest tier price (C21).
  \<^item> Price algebra (C18--C20). Each of the two price functions inverts the other (C18,
    C19); a tier pays out less than the input is worth at the pre-trade price (C20).

  \<^bold>\<open>Findings.\<close> The code reports the amounts out with a negative sign (C14), where
  the spec speaks of magnitudes. Its fee rate is \<open>1 - sqrt_gamma^2\<close>, not the spec's
  \<open>1 - sqrt_gamma\<close>: the default tiers charge about 29.98 and 6.00 bps, so the spec's
  expected \<open>fee_bps\<close> between 3 and 15 does not hold (C16, and the check
  \<open>default_pool_scenario_split\<close> below). \<open>__init__\<close> validates
  nothing (C17), and an order on a pool it built from empty arrays goes unfilled without
  an error (C31). The empty active set the spec worries about cannot arise (C3).

  \<^bold>\<open>Modelling choices.\<close> Python's \<open>float64\<close> is modelled as \<open>real\<close>: the spec
  itself states its properties over reals "within floating tolerance", and rounding is
  outside this development; every theorem is about exact arithmetic. numpy arrays are
  lists; a failing \<open>assert\<close> is \<open>Inl (AssertionError msg)\<close>. HOL's \<open>x / 0 = 0\<close>
  differs from numpy's \<open>inf\<close>/\<open>nan\<close>; the invariant \<open>pool_valid\<close> excludes every
  division by zero the model performs (positive liquidity, prices and fee factors; a
  non-empty final active set by C3). No fuel is used: the only loop is a \<open>function\<close>
  with a termination proof, so every run returns.

  \<^bold>\<open>Open questions.\<close> Every line of the program is translated (see below), so
  what remains is properties, not code. A round trip on a pool of several tiers may route
  its two legs to different tiers, so the single-tier argument of C33 does not carry over
  directly. Floating-point error bounds for the closed-form split need a model of float64
  rounding, which this development does not have.

  \<^bold>\<open>Not modelled.\<close> numpy itself beyond the mask idioms; floating-point rounding;
  \<open>nan\<close> from the \<open>0 / 0\<close> of \<open>fee_bps\<close> on a pool built from empty arrays; the
  \<open>np.float_\<close> alias (removed in NumPy 2.0), which affects only whether the constructor
  runs at all; numpy's shape errors and broadcasting on a pool whose arrays have different
  lengths (the model's elementwise \<open>map2\<close> truncates instead). Every theorem about
  \<open>swap\<close> on a general pool assumes \<open>pool_valid\<close>, under which the arrays have equal
  lengths and the model and numpy agree; the one theorem about an ill-formed pool (C31)
  uses arrays that are all empty. Every line of \<open>src/muffin_fullrange.py\<close> other than
  the import and blank lines is translated by a definition of the map.
\<close>

section \<open>Checks on concrete pools\<close>

text \<open>
  The spec's concrete scenarios, evaluated by \<open>simp\<close> on fixed pools and orders. They
  are tests of the model rather than properties: they document the fee-rate finding (the
  1000-unit sale's \<open>fee_bps\<close> is about 17.85, above the spec's 15) and exercise the
  repair loop on inputs where it excludes tiers.
\<close>

text \<open>
  A three-tier pool whose tiers exclude one another one pass at a time. For token0 the
  allocator's threshold \<open>res / lsg\<close> of a tier is \<open>1 / (sqrt_p * sqrt_gamma)\<close>: with
  a common starting price 1 and \<open>sqrt_gamma\<close> 1, 10/11 and 1/2 the thresholds are 1,
  1.1 and 2, and with liquidity equal to \<open>sqrt_gamma\<close> every weight \<open>lsg\<close> is 1.
\<close>

definition three_tier_pool :: pool where
  "three_tier_pool = pool_init [1, 10 / 11, 1 / 2] [1, 10 / 11, 1 / 2] 1"


text \<open>
  The spec's first scenario, on the default pool (liquidity 10000 and
  10000, \<open>sqrt_gamma\<close> 0.9985 and 0.9997, starting price 1): selling 1000 token0 routes
  a positive amount to both tiers, less to the higher-fee tier, and the output is worth
  less than the input. \<open>fee_bps\<close> lies strictly between the two tiers' fee rates
  \<open>(1 - sqrt_gamma^2) * 10000\<close> (about 29.98 and 6.00 bps), and so above the 15 bps the
  spec expects as an upper bound: the spec reads \<open>1 - sqrt_gamma\<close> as the fee rate.
\<close>

lemma default_pool_scenario_split:
  "case swap default_pool True 1000 of
     Inl _ \<Rightarrow> False
   | Inr (r, p') \<Rightarrow>
       0 < sr_amts_in r ! 0 \<and> sr_amts_in r ! 0 < sr_amts_in r ! 1 \<and>
       (1 - sqrt_gamma_arr default_pool ! 1 ^ 2) * 10000 < sr_fee_bps r \<and>
       sr_fee_bps r < (1 - sqrt_gamma_arr default_pool ! 0 ^ 2) * 10000 \<and>
       15 < sr_fee_bps r \<and> - sr_amt_out r < 1000"
  by (simp add: swap_def eval_simps default_pool_def pool_init_def)

text \<open>
  The spec's second scenario: a small order (one unit of token0) on the
  default pool is routed entirely to the low-fee tier; the high-fee tier is excluded by
  the repair loop and receives exactly zero.
\<close>

lemma default_pool_scenario_exclusion:
  "case swap default_pool True 1 of
     Inl _ \<Rightarrow> False
   | Inr (r, p') \<Rightarrow> sr_amts_in r = [0, 1] \<and> sr_amt_in r = 1"
  using default_pool_swap_1 by simp

text \<open>
  The spec's round trip: selling 1000 token0 and then selling back, as
  token1, the amount the first swap paid out leaves neither tier at its starting price,
  and after both legs every fee-growth accumulator of both tiers has strictly increased.
\<close>

lemma default_pool_round_trip:
  "case swap default_pool True 1000 of
     Inl _ \<Rightarrow> False
   | Inr (r, p) \<Rightarrow>
       (case swap p False (- sr_amt_out r) of
          Inl _ \<Rightarrow> False
        | Inr (r2, p2) \<Rightarrow>
            sqrt_p_arr p2 ! 0 \<noteq> sqrt_p_arr default_pool ! 0 \<and>
            sqrt_p_arr p2 ! 1 \<noteq> sqrt_p_arr default_pool ! 1 \<and>
            fee0_growth_arr default_pool ! 0 < fee0_growth_arr p2 ! 0 \<and>
            fee0_growth_arr default_pool ! 1 < fee0_growth_arr p2 ! 1 \<and>
            fee1_growth_arr default_pool ! 0 < fee1_growth_arr p2 ! 0 \<and>
            fee1_growth_arr default_pool ! 1 < fee1_growth_arr p2 ! 1)"
  by (simp add: swap_def eval_simps default_pool_def pool_init_def)

text \<open>
  The pass bound of C5 is attained: on \<open>three_tier_pool\<close> an order of
  0.01 token0 makes the repair loop drop the tier with threshold 2 in its first pass (the
  multiplier is about 1.37), the tier with threshold 1.1 in its second (about 1.055), and
  stop in its third, routing everything to the remaining tier. The loop needs as many
  passes as the pool has tiers, so no smaller bound can be asserted.
\<close>

lemma three_tier_loop_bound_tight:
  "pool_valid three_tier_pool \<and> pool_size three_tier_pool = 3 \<and>
   calc_tier_amts_in three_tier_pool True (1 / 100) = Inr ([1 / 100, 0, 0], [True, False, False]) \<and>
   alloc_passes (tier_lsg three_tier_pool) (tier_res three_tier_pool True) (1 / 100)
     (replicate 3 True) (replicate 3 0) = 3"
proof -
  have v: "pool_valid three_tier_pool"
    by (simp add: three_tier_pool_def pool_init_def pool_valid_def)
  have n: "pool_size three_tier_pool = 3"
    by (simp add: three_tier_pool_def pool_init_def)
  have c: "calc_tier_amts_in three_tier_pool True (1 / 100) =
           Inr ([1 / 100, 0, 0], [True, False, False])"
    by (simp add: eval_simps three_tier_pool_def pool_init_def)
  have "alloc_passes (tier_lsg three_tier_pool) (tier_res three_tier_pool True) (1 / 100)
          (replicate 3 True) (replicate 3 0) = 3"
    by (simp add: eval_simps alloc_passes.simps three_tier_pool_def pool_init_def numeral_3_eq_3)
  then show ?thesis
    using v n c by simp
qed

text \<open>
  The first scenario in the other direction: selling 1000 token1 on the
  default pool also routes a positive amount to both tiers, less to the higher-fee tier;
  \<open>fee_bps\<close> lies strictly between the two tier rates; the output is worth less than the
  input at the starting price 1; both prices rise; and only the token1 accumulators move,
  the token0 ones staying as they were.
\<close>

lemma default_pool_scenario_token1:
  "case swap default_pool False 1000 of
     Inl _ \<Rightarrow> False
   | Inr (r, p') \<Rightarrow>
       0 < sr_amts_in r ! 0 \<and> sr_amts_in r ! 0 < sr_amts_in r ! 1 \<and>
       (1 - sqrt_gamma_arr default_pool ! 1 ^ 2) * 10000 < sr_fee_bps r \<and>
       sr_fee_bps r < (1 - sqrt_gamma_arr default_pool ! 0 ^ 2) * 10000 \<and>
       - sr_amt_out r < 1000 \<and>
       sqrt_p_arr default_pool ! 0 < sqrt_p_arr p' ! 0 \<and>
       sqrt_p_arr default_pool ! 1 < sqrt_p_arr p' ! 1 \<and>
       0 < fee1_growth_arr p' ! 0 \<and> 0 < fee1_growth_arr p' ! 1 \<and>
       fee0_growth_arr p' = fee0_growth_arr default_pool"
  by (simp add: swap_def eval_simps default_pool_def pool_init_def)

end
